(* ===== verification/Prelude.thy ===== *)
theory Prelude
  imports Main "HOL-Library.Word" "HOL-Library.Char_ord" "HOL-Library.List_Lexorder"
    "HOL-Library.Sublist"
begin

text \<open>
  What every component shares: the byte and string types, lower-case hexadecimal and decimal
  printing, the UTF-8 encoder of the JavaScript standard library, errors as a sum type, and
  generic lemmas on lists.

  A JavaScript string is a \<^typ>\<open>string\<close> whose characters are its UTF-16 code units.  The type
  \<^typ>\<open>char\<close> holds the code units 0 to 255, so the model covers strings of the Latin-1 range; on that
  range comparison, case mapping and white space are written out exactly as ECMAScript defines them.
\<close>

subsection \<open>Types and collections\<close>

type_synonym byte = "8 word"
type_synonym bytes = "byte list"

named_theorems hash_simps \<open>lengths and shapes of digests\<close>
named_theorems svc_simps \<open>how the service operations act on the registry\<close>

text \<open>An exception is the left value of a sum; \<open>bindE\<close> runs the rest only after a normal return.\<close>

type_synonym 'a result = "string + 'a"

fun bindE :: "'a result \<Rightarrow> ('a \<Rightarrow> 'b result) \<Rightarrow> 'b result" where
  "bindE (Inl e) f = Inl e"
| "bindE (Inr x) f = f x"

lemma bindE_Inr [simp]: "bindE r f = Inr y \<longleftrightarrow> (\<exists>x. r = Inr x \<and> f x = Inr y)"
  by (cases r) auto

lemma bindE_Inl: "bindE r f = Inl e \<longleftrightarrow> r = Inl e \<or> (\<exists>x. r = Inr x \<and> f x = Inl e)"
  by (cases r) auto

text \<open>What an HTTP handler answers: a body, or \<open>reply.code(n).send({ error })\<close>.\<close>

datatype 'b response = Reply 'b | Refused nat string

text \<open>Characters beyond ASCII in a literal, by their UTF-8 bytes.\<close>

definition utf8s :: "nat list \<Rightarrow> string" where
  "utf8s = map char_of"

subsection \<open>Hexadecimal\<close>

text \<open>\<open>b.toString(16).padStart(2, '0')\<close> of one byte, and of a byte array.\<close>

definition hex_digit :: "nat \<Rightarrow> char" where
  "hex_digit n = (if n < 10 then char_of (48 + n) else char_of (87 + n))"

definition hex_byte :: "byte \<Rightarrow> string" where
  "hex_byte b = [hex_digit (unat b div 16), hex_digit (unat b mod 16)]"

definition hex_of :: "bytes \<Rightarrow> string" where
  "hex_of bs = concat (map hex_byte bs)"

definition is_hex_char :: "char \<Rightarrow> bool" where
  "is_hex_char c \<longleftrightarrow> (let n = of_char c :: nat in (48 \<le> n \<and> n \<le> 57) \<or> (97 \<le> n \<and> n \<le> 102))"

definition is_digit :: "char \<Rightarrow> bool" where
  "is_digit c \<longleftrightarrow> (let n = of_char c :: nat in 48 \<le> n \<and> n \<le> 57)"

lemma hex_of_Nil [simp]: "hex_of [] = []"
  and hex_of_Cons [simp]: "hex_of (b # bs) = hex_byte b @ hex_of bs"
  and hex_of_append [simp]: "hex_of (xs @ ys) = hex_of xs @ hex_of ys"
  by (simp_all add: hex_of_def)

lemma length_hex_byte [simp]: "length (hex_byte b) = 2"
  by (simp add: hex_byte_def)

lemma length_hex_of [simp]: "length (hex_of bs) = 2 * length bs"
  by (induction bs) auto

lemma hex_digit_code:
  "n < 16 \<Longrightarrow> (of_char (hex_digit n) :: nat) = (if n < 10 then 48 + n else 87 + n)"
  by (simp add: hex_digit_def)

lemma hex_digit_inj:
  assumes "m < 16" "n < 16"
  shows "hex_digit m = hex_digit n \<longleftrightarrow> m = n"
proof
  assume "hex_digit m = hex_digit n"
  then have "(if m < 10 then 48 + m else 87 + m) = (if n < 10 then 48 + n else 87 + n)"
    using hex_digit_code [OF assms(1)] hex_digit_code [OF assms(2)] by (simp only:)
  then show "m = n" using assms by (simp split: if_splits)
qed simp

lemma is_hex_char_hex_digit [simp]: "n < 16 \<Longrightarrow> is_hex_char (hex_digit n)"
  by (auto simp: is_hex_char_def hex_digit_code Let_def)

lemma unat_byte_bound [simp]: "unat (b :: byte) < 256"
  using unsigned_less [of b] by simp

lemma unat_byte_div16 [simp]: "unat (b :: byte) div 16 < 16"
  using unat_byte_bound [of b] by (simp add: less_mult_imp_div_less)

lemma hex_byte_inj [simp]: "hex_byte a = hex_byte b \<longleftrightarrow> a = b"
proof
  assume "hex_byte a = hex_byte b"
  then have "unat a div 16 = unat b div 16" and "unat a mod 16 = unat b mod 16"
    by (simp_all add: hex_byte_def hex_digit_inj)
  then have "unat a = unat b" by (metis div_mult_mod_eq)
  then show "a = b" by (simp add: word_unat_eq_iff)
qed simp

lemma hex_of_inj [simp]: "hex_of xs = hex_of ys \<longleftrightarrow> xs = ys"
proof (induction xs arbitrary: ys)
  case Nil
  then show ?case by (cases ys) (auto simp: hex_byte_def)
next
  case (Cons x xs)
  show ?case
  proof (cases ys)
    case (Cons y ys')
    then show ?thesis by (simp add: Cons.IH)
  qed (simp add: hex_byte_def)
qed

lemma is_hex_char_hex_of: "c \<in> set (hex_of bs) \<Longrightarrow> is_hex_char c"
  by (induction bs) (auto simp: hex_byte_def)


subsection \<open>UTF-8 (\<open>TextEncoder.encode\<close>)\<close>

definition utf8_char :: "char \<Rightarrow> bytes" where
  "utf8_char c = (let n = of_char c :: nat in
     if n < 128 then [word_of_nat n] else [word_of_nat (192 + n div 64), word_of_nat (128 + n mod 64)])"

definition utf8 :: "string \<Rightarrow> bytes" where
  "utf8 s = concat (map utf8_char s)"

fun utf8_decode :: "bytes \<Rightarrow> string" where
  "utf8_decode [] = []"
| "utf8_decode [b] = [char_of (unat b)]"
| "utf8_decode (b # c # bs) =
     (if unat b < 128 then char_of (unat b) # utf8_decode (c # bs)
      else char_of ((unat b - 192) * 64 + (unat c - 128)) # utf8_decode bs)"

lemma utf8_Nil [simp]: "utf8 [] = []"
  and utf8_Cons [simp]: "utf8 (c # s) = utf8_char c @ utf8 s"
  by (simp_all add: utf8_def)

lemma of_char_bound: "(of_char c :: nat) < 256"
  by (metis of_char_mod_256 mod_less_divisor zero_less_numeral)

lemma unat_word_of_nat_byte: "n < 256 \<Longrightarrow> unat (word_of_nat n :: byte) = n"
  by (simp add: unat_of_nat)

lemma utf8_decode_step: "utf8_decode (utf8_char c @ bs) = c # utf8_decode bs"
proof (cases "(of_char c :: nat) < 128")
  case True
  then have "utf8_char c = [word_of_nat (of_char c)]" by (simp add: utf8_char_def)
  with True show ?thesis
    by (cases bs) (simp_all add: unat_word_of_nat_byte)
next
  case False
  let ?n = "of_char c :: nat"
  have b: "?n < 256" by (rule of_char_bound)
  have u: "unat (word_of_nat (192 + ?n div 64) :: byte) = 192 + ?n div 64"
    "unat (word_of_nat (128 + ?n mod 64) :: byte) = 128 + ?n mod 64"
    using b by (intro unat_word_of_nat_byte, linarith)+
  have "(?n div 64) * 64 + ?n mod 64 = ?n" by simp
  then show ?thesis
    using False u by (simp add: utf8_char_def Let_def del: of_nat_add)
qed

lemma utf8_decode_utf8 [simp]: "utf8_decode (utf8 s) = s"
  by (induction s) (simp_all add: utf8_decode_step)

lemma utf8_inj [simp]: "utf8 s = utf8 t \<longleftrightarrow> s = t"
  by (metis utf8_decode_utf8)

subsection \<open>Decimal numerals (\<open>`${n}`\<close> and \<open>Number(s)\<close> on digits)\<close>

text \<open>
  Numbers of the code that count (epochs, heights, indices) are exact here; the code's doubles are
  exact up to $2^{53}$.
\<close>

fun dec :: "nat \<Rightarrow> string" where
  "dec n = (if n < 10 then [char_of (48 + n)] else dec (n div 10) @ [char_of (48 + n mod 10)])"

declare dec.simps [simp del]

definition digits_value :: "string \<Rightarrow> nat" where
  "digits_value s = foldl (\<lambda>v c. 10 * v + (of_char c - 48)) 0 s"

lemma digits_value_snoc: "digits_value (s @ [c]) = 10 * digits_value s + (of_char c - 48)"
  by (simp add: digits_value_def)

lemma digits_value_dec [simp]: "digits_value (dec n) = n"
proof (induction n rule: dec.induct)
  case (1 n)
  show ?case
  proof (cases "n < 10")
    case True
    then show ?thesis by (subst dec.simps) (simp add: digits_value_def)
  next
    case False
    then show ?thesis
      using 1 by (subst dec.simps) (simp add: digits_value_snoc)
  qed
qed

lemma dec_inj [simp]: "dec m = dec n \<longleftrightarrow> m = n"
  by (metis digits_value_dec)

lemma dec_not_Nil [simp]: "dec n \<noteq> []"
  by (subst dec.simps) simp

lemma is_digit_dec: "c \<in> set (dec n) \<Longrightarrow> is_digit c"
proof (induction n rule: dec.induct)
  case (1 n)
  show ?case
  proof (cases "n < 10")
    case True
    with 1 show ?thesis by (auto simp: dec.simps [of n] is_digit_def)
  next
    case False
    with 1 show ?thesis by (auto simp: dec.simps [of n] is_digit_def)
  qed
qed

lemma list_all_digit_dec [simp]: "list_all is_digit (dec n)"
  by (auto simp: list_all_iff is_digit_dec)

end
