(* ===== verification/Noble.thy ===== *)
theory Noble
  imports Prelude
begin

text \<open>
  The cryptographic primitives the code imports from the \<^verbatim>\<open>@noble\<close> packages.  They are not part of the
  repository, so they are a parameter \<^theory_text>\<open>noble\<close> of every definition that calls them, and
  \<^theory_text>\<open>noble_ok\<close> states what their documentation promises and the code relies on.  \<^const>\<open>None\<close> is a
  thrown exception.  Collision resistance is never assumed: a theorem that needs it returns the two
  colliding inputs instead.
\<close>

record noble =
  n_sha256 :: "bytes \<Rightarrow> bytes"
  n_bytesToHex :: "bytes \<Rightarrow> string"
  n_hexToBytes :: "string \<Rightarrow> bytes option"
  n_utf8ToBytes :: "string \<Rightarrow> bytes"
  n_bytesToUtf8 :: "bytes \<Rightarrow> string"
  n_hkdf_sha512 :: "bytes \<Rightarrow> bytes \<Rightarrow> string \<Rightarrow> nat \<Rightarrow> bytes"
  n_gcm_encrypt :: "bytes \<Rightarrow> bytes \<Rightarrow> bytes \<Rightarrow> bytes option"
  n_gcm_decrypt :: "bytes \<Rightarrow> bytes \<Rightarrow> bytes \<Rightarrow> bytes option"
  n_ed_public :: "bytes \<Rightarrow> bytes"
  n_ed_sign :: "bytes \<Rightarrow> bytes \<Rightarrow> bytes"
  n_ed_verify :: "bytes \<Rightarrow> bytes \<Rightarrow> bytes \<Rightarrow> bool option"

definition noble_ok :: "noble \<Rightarrow> bool" where
  "noble_ok lib \<longleftrightarrow>
     (\<forall>x. length (n_sha256 lib x) = 32) \<and>
     (\<forall>x. n_bytesToHex lib x = hex_of x) \<and>
     (\<forall>x. n_hexToBytes lib (hex_of x) = Some x) \<and>
     (\<forall>s. n_utf8ToBytes lib s = utf8 s) \<and>
     (\<forall>s. n_bytesToUtf8 lib (utf8 s) = s) \<and>
     (\<forall>ikm salt info n. length (n_hkdf_sha512 lib ikm salt info n) = n) \<and>
     (\<forall>k iv p. length k = 32 \<longrightarrow> length iv = 12 \<longrightarrow>
        (\<exists>c. n_gcm_encrypt lib k iv p = Some c \<and> n_gcm_decrypt lib k iv c = Some p)) \<and>
     (\<forall>sk m. length sk = 32 \<longrightarrow> n_ed_verify lib (n_ed_sign lib sk m) m (n_ed_public lib sk) = Some True)"

lemma noble_ok_facts:
  assumes "noble_ok lib"
  shows length_sha256: "length (n_sha256 lib x) = 32"
    and bytesToHex_eq: "n_bytesToHex lib x = hex_of x"
    and hexToBytes_hex: "n_hexToBytes lib (hex_of x) = Some x"
    and utf8ToBytes_eq: "n_utf8ToBytes lib s = utf8 s"
    and bytesToUtf8_utf8: "n_bytesToUtf8 lib (utf8 s) = s"
    and length_hkdf: "length (n_hkdf_sha512 lib ikm salt info n) = n"
    and gcm_roundtrip: "length k = 32 \<Longrightarrow> length iv = 12 \<Longrightarrow>
        \<exists>c. n_gcm_encrypt lib k iv p = Some c \<and> n_gcm_decrypt lib k iv c = Some p"
    and ed_roundtrip: "length sk = 32 \<Longrightarrow>
        n_ed_verify lib (n_ed_sign lib sk m) m (n_ed_public lib sk) = Some True"
  using assms by (simp_all add: noble_ok_def)

declare length_sha256 [hash_simps] bytesToHex_eq [hash_simps] hexToBytes_hex [hash_simps]
  utf8ToBytes_eq [hash_simps] bytesToUtf8_utf8 [hash_simps] length_hkdf [hash_simps]

subsection \<open>A concrete instance\<close>

text \<open>
  Functions with the documented behaviour, simple enough to evaluate: they show that
  \<^const>\<open>noble_ok\<close> can hold.  The cipher carries the key in its tag, so it rejects every other key.
\<close>

fun unhex :: "string \<Rightarrow> bytes option" where
  "unhex [] = Some []"
| "unhex [c] = None"
| "unhex (c # d # s) =
     (let v = (\<lambda>x. let n = of_char x :: nat in if n < 58 then n - 48 else n - 87) in
      if is_hex_char c \<and> is_hex_char d
      then map_option ((#) (word_of_nat (v c * 16 + v d))) (unhex s) else None)"

definition pad32 :: "bytes \<Rightarrow> bytes" where
  "pad32 x = take 32 (x @ replicate 32 0)"

definition demo_hkdf :: "bytes \<Rightarrow> bytes \<Rightarrow> string \<Rightarrow> nat \<Rightarrow> bytes" where
  "demo_hkdf ikm salt info n = take n ((utf8 (rev info) @ salt @ ikm) @ replicate n 0)"

definition demo_noble :: noble where
  "demo_noble = \<lparr>
     n_sha256 = pad32, n_bytesToHex = hex_of, n_hexToBytes = unhex,
     n_utf8ToBytes = utf8, n_bytesToUtf8 = utf8_decode,
     n_hkdf_sha512 = demo_hkdf,
     n_gcm_encrypt = (\<lambda>k iv p. if length k = 32 then Some (p @ k) else None),
     n_gcm_decrypt = (\<lambda>k iv c. if length k = 32 \<and> 32 \<le> length c \<and> drop (length c - 32) c = k
                                then Some (take (length c - 32) c) else None),
     n_ed_public = (\<lambda>sk. sk), n_ed_sign = (\<lambda>sk m. sk @ m),
     n_ed_verify = (\<lambda>s m pk. if length pk = 32 then Some (s = pk @ m) else None) \<rparr>"

lemma unhex_hex_byte: "unhex (hex_byte b @ s) = map_option ((#) b) (unhex s)"
proof -
  have v: "(let n = of_char (hex_digit k) :: nat in if n < 58 then n - 48 else n - 87) = k"
    if "k < 16" for k
    using that by (simp add: hex_digit_code Let_def)
  have "unat b div 16 * 16 + unat b mod 16 = unat b" by simp
  then have "word_of_nat (unat b div 16 * 16 + unat b mod 16) = b" by (metis word_unat_eq_iff of_nat_unat ucast_id)
  then show ?thesis
    by (simp add: hex_byte_def v del: of_nat_add of_nat_mult)
qed

lemma unhex_hex_of [simp]: "unhex (hex_of x) = Some x"
  by (induction x) (simp_all add: unhex_hex_byte)

lemma length_pad32 [simp]: "length (pad32 x) = 32"
  by (simp add: pad32_def)

lemma length_demo_hkdf [simp]: "length (demo_hkdf ikm salt info n) = n"
  unfolding demo_hkdf_def by (subst length_take) simp

lemma noble_ok_demo [simp]: "noble_ok demo_noble"
  by (simp add: noble_ok_def demo_noble_def)

end
