(* ===== verification/Merkle.thy ===== *)
theory Merkle
  imports Noble
begin

text \<open>
  The binary Merkle tree of \<^verbatim>\<open>packages/crypto/src/index.ts\<close>: leaf and node hashes with their domain
  bytes, the root, inclusion proofs and their verification.  The lemmas relate the three functions:
  a proof made for a leaf verifies against the root, and a verified proof is about a leaf of the tree
  unless the run itself exhibits two inputs with the same digest.
\<close>

subsection \<open>Definitions\<close>

text \<open>An argument of type \<open>Uint8Array | string\<close>.\<close>

datatype blob = Str string | Buf bytes

fun blob_bytes :: "noble \<Rightarrow> blob \<Rightarrow> bytes" where
  "blob_bytes lib (Str s) = n_utf8ToBytes lib s"
| "blob_bytes lib (Buf b) = b"

definition sha256 :: "noble \<Rightarrow> blob \<Rightarrow> bytes" where
  "sha256 lib d = n_sha256 lib (blob_bytes lib d)"

definition leaf_input :: "bytes \<Rightarrow> bytes" where
  "leaf_input d = 0 # d"

definition node_input :: "bytes \<Rightarrow> bytes \<Rightarrow> bytes" where
  "node_input l r = 1 # l @ r"

definition hashLeaf :: "noble \<Rightarrow> bytes \<Rightarrow> bytes" where
  "hashLeaf lib d = sha256 lib (Buf (leaf_input d))"

definition hashNode :: "noble \<Rightarrow> bytes \<Rightarrow> bytes \<Rightarrow> bytes" where
  "hashNode lib l r = sha256 lib (Buf (node_input l r))"

text \<open>One round of the \<open>while\<close> loop: neighbours are hashed together, an odd last node with itself.\<close>

fun next_layer :: "noble \<Rightarrow> bytes list \<Rightarrow> bytes list" where
  "next_layer lib [] = []"
| "next_layer lib [a] = [hashNode lib a a]"
| "next_layer lib (a # b # rest) = hashNode lib a b # next_layer lib rest"

lemma length_next_layer [simp]: "length (next_layer lib xs) = (length xs + 1) div 2"
  by (induction lib xs rule: next_layer.induct) auto

lemma next_layer_Nil [simp]: "next_layer lib xs = [] \<longleftrightarrow> xs = []"
  by (cases "(lib, xs)" rule: next_layer.cases) auto

function climb :: "noble \<Rightarrow> bytes list \<Rightarrow> bytes list" where
  "climb lib layer = (if 1 < length layer then climb lib (next_layer lib layer) else layer)"
  by pat_completeness auto
termination
  by (relation "measure (\<lambda>(lib, layer). length layer)") auto

declare climb.simps [simp del]

definition leaf_layer :: "noble \<Rightarrow> blob list \<Rightarrow> bytes list" where
  "leaf_layer lib leaves = map (\<lambda>l. hashLeaf lib (blob_bytes lib l)) leaves"

definition merkleRoot :: "noble \<Rightarrow> blob list \<Rightarrow> string" where
  "merkleRoot lib leaves =
     (if leaves = [] then n_bytesToHex lib (sha256 lib (Buf []))
      else n_bytesToHex lib (hd (climb lib (leaf_layer lib leaves))))"

record merkle_proof =
  siblings :: "string list"
  index :: int

text \<open>\<open>layer[i + 1] ?? layer[i]\<close> for an even \<open>i\<close>, \<open>layer[i - 1]\<close> for an odd one.\<close>

definition sibling :: "bytes list \<Rightarrow> nat \<Rightarrow> bytes" where
  "sibling layer i =
     (if i mod 2 = 0 then (if i + 1 < length layer then layer ! (i + 1) else layer ! i)
      else layer ! (i - 1))"

function proof_path :: "noble \<Rightarrow> bytes list \<Rightarrow> nat \<Rightarrow> bytes list" where
  "proof_path lib layer i =
     (if 1 < length layer then sibling layer i # proof_path lib (next_layer lib layer) (i div 2)
      else [])"
  by pat_completeness auto
termination
  by (relation "measure (\<lambda>(lib, layer, i). length layer)") auto

declare proof_path.simps [simp del]

definition merkleProof :: "noble \<Rightarrow> blob list \<Rightarrow> int \<Rightarrow> merkle_proof result" where
  "merkleProof lib leaves i =
     (if i < 0 \<or> int (length leaves) \<le> i then Inl ''index out of range''
      else Inr \<lparr>siblings = map (n_bytesToHex lib) (proof_path lib (leaf_layer lib leaves) (nat i)),
                index = i\<rparr>)"

text \<open>
  The loop of \<open>verifyMerkleProof\<close>.  \<open>i % 2 === 0\<close> and \<open>Math.floor(i / 2)\<close> agree with \<open>mod\<close>
  and \<open>div\<close> on negative numbers too.  \<open>hexToBytes\<close> throws on a string that is not hexadecimal.
\<close>

definition fold_step :: "noble \<Rightarrow> bytes \<Rightarrow> int \<Rightarrow> bytes \<Rightarrow> bytes" where
  "fold_step lib h i sib = (if i mod 2 = 0 then hashNode lib h sib else hashNode lib sib h)"

fun verify_loop :: "noble \<Rightarrow> bytes \<Rightarrow> int \<Rightarrow> string list \<Rightarrow> bytes result" where
  "verify_loop lib h i [] = Inr h"
| "verify_loop lib h i (s # ss) =
     (case n_hexToBytes lib s of
        None \<Rightarrow> Inl ''hexToBytes''
      | Some sib \<Rightarrow> verify_loop lib (fold_step lib h i sib) (i div 2) ss)"

definition verifyMerkleProof :: "noble \<Rightarrow> blob \<Rightarrow> merkle_proof \<Rightarrow> string \<Rightarrow> bool result" where
  "verifyMerkleProof lib leaf p root =
     bindE (verify_loop lib (hashLeaf lib (blob_bytes lib leaf)) (index p) (siblings p))
       (\<lambda>h. Inr (n_bytesToHex lib h = root))"

subsection \<open>Digest lengths and domain separation\<close>

lemma length_hashNode [hash_simps]: "noble_ok lib \<Longrightarrow> length (hashNode lib l r) = 32"
  and length_hashLeaf [hash_simps]: "noble_ok lib \<Longrightarrow> length (hashLeaf lib d) = 32"
  by (simp_all add: hashNode_def hashLeaf_def sha256_def hash_simps)

lemma leaf_node_input [simp]: "leaf_input d \<noteq> node_input l r"
  and leaf_input_inj [simp]: "leaf_input d = leaf_input e \<longleftrightarrow> d = e"
  by (simp_all add: leaf_input_def node_input_def)

lemma node_input_inj:
  "length a = length c \<or> length b = length d \<Longrightarrow> node_input a b = node_input c d \<longleftrightarrow> a = c \<and> b = d"
  by (auto simp: node_input_def append_eq_append_conv)

lemma length_leaf_layer [simp]: "length (leaf_layer lib leaves) = length leaves"
  by (simp add: leaf_layer_def)

lemma leaf_layer_lengths: "noble_ok lib \<Longrightarrow> x \<in> set (leaf_layer lib leaves) \<Longrightarrow> length x = 32"
  by (auto simp: leaf_layer_def hash_simps)

subsection \<open>Completeness of proofs\<close>

lemma next_layer_nth:
  "i < length xs \<Longrightarrow>
   next_layer lib xs ! (i div 2) = fold_step lib (xs ! i) (int i) (sibling xs i)"
proof (induction lib xs arbitrary: i rule: next_layer.induct)
  case (3 lib a b rest)
  show ?case
  proof (cases "i < 2")
    case True
    then consider "i = 0" | "i = 1" by linarith
    then show ?thesis by cases (simp_all add: sibling_def fold_step_def)
  next
    case False
    then obtain j where j: "i = Suc (Suc j)" by (metis add_2_eq_Suc le_Suc_ex linorder_not_less)
    with 3 have "next_layer lib rest ! (j div 2) = fold_step lib (rest ! j) (int j) (sibling rest j)"
      by simp
    moreover have "sibling (a # b # rest) i = sibling rest j"
      using j by (cases j) (auto simp: sibling_def)
    ultimately show ?thesis
      using j by (simp add: fold_step_def)
  qed
qed (simp_all add: sibling_def fold_step_def)

lemma div2_next: "i < length xs \<Longrightarrow> i div 2 < length (next_layer lib xs)"
  by simp

lemma verify_loop_path:
  "noble_ok lib \<Longrightarrow> i < length layer \<Longrightarrow>
   verify_loop lib (layer ! i) (int i) (map (n_bytesToHex lib) (proof_path lib layer i)) =
     Inr (hd (climb lib layer))"
proof (induction lib layer i rule: proof_path.induct)
  case (1 lib layer i)
  show ?case
  proof (cases "1 < length layer")
    case True
    have i2: "i div 2 < length (next_layer lib layer)" using "1.prems"(2) by (rule div2_next)
    from 1(1) [OF True "1.prems"(1) i2] show ?thesis
      using True "1.prems"
      by (simp add: proof_path.simps [of lib layer i] climb.simps [of lib layer] hash_simps
          next_layer_nth zdiv_int)
  next
    case False
    with "1.prems" have "length layer = 1" by simp
    then obtain x where "layer = [x]" by (cases layer) auto
    with "1.prems" show ?thesis by (simp add: proof_path.simps climb.simps)
  qed
qed

lemma verify_made_proof:
  assumes "noble_ok lib" "0 \<le> i" "i < int (length leaves)"
  shows "\<exists>p. merkleProof lib leaves i = Inr p \<and> index p = i \<and>
             verifyMerkleProof lib (leaves ! nat i) p (merkleRoot lib leaves) = Inr True"
proof -
  let ?L = "leaf_layer lib leaves"
  have n: "nat i < length ?L" using assms by simp
  have leaf: "hashLeaf lib (blob_bytes lib (leaves ! nat i)) = ?L ! nat i"
    using n by (simp add: leaf_layer_def)
  have "leaves \<noteq> []" using assms by auto
  with verify_loop_path [OF assms(1) n] show ?thesis
    using assms by (simp add: merkleProof_def verifyMerkleProof_def merkleRoot_def leaf)
qed

text \<open>C7: every proof that \<open>merkleProof\<close> makes for an index in range is accepted by
  \<open>verifyMerkleProof\<close> for the leaf at that index and the root of the same leaves.\<close>

theorem merkle_proof_complete:
  assumes "noble_ok lib" "0 \<le> i" "i < int (length leaves)"
  shows "\<exists>p. merkleProof lib leaves i = Inr p \<and> index p = i \<and>
             verifyMerkleProof lib (leaves ! nat i) p (merkleRoot lib leaves) = Inr True"
  using assms by (rule verify_made_proof)

theorem merkle_proof_complete_witness:
  "0 \<le> (4::int) \<and> (\<exists>p. merkleProof demo_noble [Str ''a'', Str ''b'', Str ''c'', Buf [7], Str ''e''] 4 = Inr p \<and>
     index p = 4 \<and> verifyMerkleProof demo_noble ([Str ''a'', Str ''b'', Str ''c'', Buf [7], Str ''e''] ! nat 4) p
       (merkleRoot demo_noble [Str ''a'', Str ''b'', Str ''c'', Buf [7], Str ''e'']) = Inr True)"
  using merkle_proof_complete [OF noble_ok_demo, of 4 "[Str ''a'', Str ''b'', Str ''c'', Buf [7], Str ''e'']"]
  by simp

subsection \<open>Soundness of verification\<close>

text \<open>
  The inputs the two computations feed to SHA-256, as executable lists.  Soundness then needs no
  assumption on the hash: a wrong leaf that verifies yields two different members of these lists
  with equal digests.
\<close>

fun layer_inputs :: "bytes list \<Rightarrow> bytes list" where
  "layer_inputs [] = []"
| "layer_inputs [a] = [node_input a a]"
| "layer_inputs (a # b # rest) = node_input a b # layer_inputs rest"

function tree_inputs :: "noble \<Rightarrow> bytes list \<Rightarrow> bytes list" where
  "tree_inputs lib layer =
     (if 1 < length layer then layer_inputs layer @ tree_inputs lib (next_layer lib layer) else [])"
  by pat_completeness auto
termination
  by (relation "measure (\<lambda>(lib, layer). length layer)") auto

function tree_nodes :: "noble \<Rightarrow> bytes list \<Rightarrow> bytes list" where
  "tree_nodes lib layer =
     (if 1 < length layer then layer @ tree_nodes lib (next_layer lib layer) else layer)"
  by pat_completeness auto
termination
  by (relation "measure (\<lambda>(lib, layer). length layer)") auto

declare tree_inputs.simps [simp del] tree_nodes.simps [simp del]

definition root_inputs :: "noble \<Rightarrow> blob list \<Rightarrow> bytes list" where
  "root_inputs lib leaves =
     map (\<lambda>l. leaf_input (blob_bytes lib l)) leaves @ tree_inputs lib (leaf_layer lib leaves)"

fun fold_path :: "noble \<Rightarrow> bytes \<Rightarrow> int \<Rightarrow> bytes list \<Rightarrow> bytes" where
  "fold_path lib h i [] = h"
| "fold_path lib h i (b # bs) = fold_path lib (fold_step lib h i b) (i div 2) bs"

definition step_input :: "bytes \<Rightarrow> int \<Rightarrow> bytes \<Rightarrow> bytes" where
  "step_input h i b = (if i mod 2 = 0 then node_input h b else node_input b h)"

fun path_inputs :: "noble \<Rightarrow> bytes \<Rightarrow> int \<Rightarrow> bytes list \<Rightarrow> bytes list" where
  "path_inputs lib h i [] = []"
| "path_inputs lib h i (b # bs) = step_input h i b # path_inputs lib (fold_step lib h i b) (i div 2) bs"

definition proof_inputs :: "noble \<Rightarrow> blob \<Rightarrow> merkle_proof \<Rightarrow> bytes list" where
  "proof_inputs lib leaf p =
     leaf_input (blob_bytes lib leaf) #
     path_inputs lib (hashLeaf lib (blob_bytes lib leaf)) (index p)
       (map (\<lambda>s. the (n_hexToBytes lib s)) (siblings p))"

definition collision_in :: "noble \<Rightarrow> bytes list \<Rightarrow> bytes list \<Rightarrow> bool" where
  "collision_in lib xs ys \<longleftrightarrow>
     (\<exists>x \<in> set xs. \<exists>y \<in> set ys. x \<noteq> y \<and> n_sha256 lib x = n_sha256 lib y)"

lemma hashNode_digest: "hashNode lib a b = n_sha256 lib (node_input a b)"
  and hashLeaf_digest: "hashLeaf lib d = n_sha256 lib (leaf_input d)"
  by (simp_all add: hashNode_def hashLeaf_def sha256_def)

lemma fold_step_digest: "fold_step lib h i b = n_sha256 lib (step_input h i b)"
  by (simp add: fold_step_def step_input_def hashNode_digest)

lemma fold_path_snoc:
  "fold_path lib h i (bs @ [b]) = fold_step lib (fold_path lib h i bs) (i div 2 ^ length bs) b"
  by (induction bs arbitrary: h i) (simp_all add: zdiv_zmult2_eq)

lemma path_inputs_snoc:
  "path_inputs lib h i (bs @ [b]) =
   path_inputs lib h i bs @ [step_input (fold_path lib h i bs) (i div 2 ^ length bs) b]"
  by (induction bs arbitrary: h i) (simp_all add: zdiv_zmult2_eq)

lemma verify_loop_fold:
  "verify_loop lib h i ss = Inr r \<Longrightarrow> r = fold_path lib h i (map (\<lambda>s. the (n_hexToBytes lib s)) ss)"
  by (induction ss arbitrary: h i) (auto split: option.splits)

lemma next_layer_cases:
  "v \<in> set (next_layer lib xs) \<Longrightarrow>
   \<exists>c d. c \<in> set xs \<and> d \<in> set xs \<and> v = hashNode lib c d \<and> node_input c d \<in> set (layer_inputs xs)"
  by (induction lib xs rule: next_layer.induct) auto

lemma layer_subset_nodes: "set layer \<subseteq> set (tree_nodes lib layer)"
  by (subst tree_nodes.simps) auto

lemma tree_nodes_cases:
  "v \<in> set (tree_nodes lib layer) \<Longrightarrow>
   v \<in> set layer \<or>
   (\<exists>c d. c \<in> set (tree_nodes lib layer) \<and> d \<in> set (tree_nodes lib layer) \<and>
          v = hashNode lib c d \<and> node_input c d \<in> set (tree_inputs lib layer))"
proof (induction lib layer rule: tree_nodes.induct)
  case (1 lib layer)
  show ?case
  proof (cases "1 < length layer")
    case True
    note nodes = tree_nodes.simps [of lib layer] tree_inputs.simps [of lib layer]
    from 1(2) True consider "v \<in> set layer" | "v \<in> set (tree_nodes lib (next_layer lib layer))"
      by (auto simp: nodes)
    then show ?thesis
    proof cases
      case 2
      from 1(1) [OF True 2] consider (new) "v \<in> set (next_layer lib layer)"
        | (deep) c d where "c \<in> set (tree_nodes lib (next_layer lib layer))"
          "d \<in> set (tree_nodes lib (next_layer lib layer))" "v = hashNode lib c d"
          "node_input c d \<in> set (tree_inputs lib (next_layer lib layer))"
        by blast
      then show ?thesis
      proof cases
        case new
        from next_layer_cases [OF new] True show ?thesis by (auto simp: nodes)
      next
        case deep
        with True show ?thesis by (auto simp: nodes)
      qed
    qed simp
  next
    case False
    with 1(2) show ?thesis by (simp add: tree_nodes.simps [of lib layer])
  qed
qed

lemma climb_in_nodes: "layer \<noteq> [] \<Longrightarrow> hd (climb lib layer) \<in> set (tree_nodes lib layer)"
proof (induction lib layer rule: climb.induct)
  case (1 lib layer)
  show ?case
  proof (cases "1 < length layer")
    case True
    with 1 show ?thesis
      by (simp add: climb.simps [of lib layer] tree_nodes.simps [of lib layer])
  next
    case False
    with 1 show ?thesis
      by (simp add: climb.simps [of lib layer] tree_nodes.simps [of lib layer])
  qed
qed

lemma tree_nodes_length:
  assumes "noble_ok lib" "\<forall>x \<in> set layer. length x = 32" "v \<in> set (tree_nodes lib layer)"
  shows "length v = 32"
  using tree_nodes_cases [OF assms(3)] assms(1,2) by (auto simp: hash_simps)

lemma collisionI:
  "x \<in> set xs \<Longrightarrow> y \<in> set ys \<Longrightarrow> n_sha256 lib x = n_sha256 lib y \<Longrightarrow> x \<noteq> y \<Longrightarrow> collision_in lib xs ys"
  by (auto simp: collision_in_def)

lemma collision_mono:
  "collision_in lib xs ys \<Longrightarrow> set xs \<subseteq> set xs' \<Longrightarrow> set ys \<subseteq> set ys' \<Longrightarrow> collision_in lib xs' ys'"
  by (auto simp: collision_in_def)

text \<open>Every node of the tree is the digest of a listed input, of a leaf or of two further nodes.\<close>

lemma root_node_cases:
  assumes "v \<in> set (tree_nodes lib (leaf_layer lib leaves))"
  obtains (leaf) l where "l \<in> set leaves" "leaf_input (blob_bytes lib l) \<in> set (root_inputs lib leaves)"
      "v = n_sha256 lib (leaf_input (blob_bytes lib l))"
    | (node) c d where "c \<in> set (tree_nodes lib (leaf_layer lib leaves))"
      "d \<in> set (tree_nodes lib (leaf_layer lib leaves))"
      "node_input c d \<in> set (root_inputs lib leaves)" "v = n_sha256 lib (node_input c d)"
  using tree_nodes_cases [OF assms]
proof (elim disjE exE conjE)
  assume "v \<in> set (leaf_layer lib leaves)"
  then obtain l where "l \<in> set leaves" "v = n_sha256 lib (leaf_input (blob_bytes lib l))"
    by (auto simp: leaf_layer_def hashLeaf_digest)
  then show thesis by (intro leaf) (simp_all add: root_inputs_def)
next
  fix c d
  assume "c \<in> set (tree_nodes lib (leaf_layer lib leaves))"
    "d \<in> set (tree_nodes lib (leaf_layer lib leaves))" "v = hashNode lib c d"
    "node_input c d \<in> set (tree_inputs lib (leaf_layer lib leaves))"
  then show thesis by (intro node [of c d]) (simp_all add: root_inputs_def hashNode_digest)
qed

lemma fold_path_sound:
  assumes ok: "noble_ok lib"
    and "fold_path lib (hashLeaf lib d) i bs \<in> set (tree_nodes lib (leaf_layer lib leaves))"
  shows "d \<in> set (map (blob_bytes lib) leaves) \<or>
    collision_in lib (leaf_input d # path_inputs lib (hashLeaf lib d) i bs) (root_inputs lib leaves)"
  using assms(2)
proof (induction bs rule: rev_induct)
  case Nil
  then have v: "n_sha256 lib (leaf_input d) \<in> set (tree_nodes lib (leaf_layer lib leaves))"
    by (simp add: hashLeaf_digest)
  show ?case
  proof (cases rule: root_node_cases [OF v])
    case (1 l)
    show ?thesis
    proof (cases "d = blob_bytes lib l")
      case False
      then have "collision_in lib [leaf_input d] (root_inputs lib leaves)"
        using 1 by (intro collisionI [where x = "leaf_input d" and y = "leaf_input (blob_bytes lib l)"]) simp_all
      then show ?thesis by simp
    qed (use 1 in auto)
  next
    case (2 a b)
    then have "collision_in lib [leaf_input d] (root_inputs lib leaves)"
      by (intro collisionI [where x = "leaf_input d" and y = "node_input a b"]) simp_all
    then show ?thesis by simp
  qed
next
  case (snoc b bs)
  let ?h = "fold_path lib (hashLeaf lib d) i bs" and ?j = "i div 2 ^ length bs"
  let ?x = "step_input ?h ?j b"
  let ?ins = "leaf_input d # path_inputs lib (hashLeaf lib d) i (bs @ [b])"
  have x: "?x \<in> set ?ins" by (simp add: path_inputs_snoc)
  have v: "n_sha256 lib ?x \<in> set (tree_nodes lib (leaf_layer lib leaves))"
    using snoc.prems by (simp add: fold_path_snoc fold_step_digest)
  show ?case
  proof (cases rule: root_node_cases [OF v])
    case (1 l)
    then have "collision_in lib ?ins (root_inputs lib leaves)"
      using x by (intro collisionI [where x = ?x]) (auto simp: step_input_def leaf_node_input [symmetric])
    then show ?thesis ..
  next
    case (2 p q)
    show ?thesis
    proof (cases "?x = node_input p q")
      case True
      have "length ?h = 32"
        using ok by (cases bs rule: rev_cases) (simp_all add: fold_path_snoc fold_step_digest hash_simps)
      moreover have "length p = 32" "length q = 32"
        using 2 ok tree_nodes_length [OF ok, of "leaf_layer lib leaves"]
        by (auto dest: leaf_layer_lengths)
      ultimately have "?h = p \<or> ?h = q"
        using True by (auto simp: step_input_def node_input_inj split: if_splits)
      with 2 have "?h \<in> set (tree_nodes lib (leaf_layer lib leaves))" by auto
      from snoc.IH [OF this] show ?thesis
      proof
        assume "collision_in lib (leaf_input d # path_inputs lib (hashLeaf lib d) i bs) (root_inputs lib leaves)"
        then have "collision_in lib ?ins (root_inputs lib leaves)"
          by (rule collision_mono) (auto simp: path_inputs_snoc)
        then show ?thesis ..
      qed simp
    next
      case False
      then have "collision_in lib ?ins (root_inputs lib leaves)"
        using x 2 by (intro collisionI [where x = ?x]) simp_all
      then show ?thesis ..
    qed
  qed
qed

text \<open>C8: a proof that verifies against the root of a nonempty list is about one of its leaves, unless
  the inputs hashed by the verification and by the tree contain two different ones with the same
  digest; no length of the proof and no index is assumed.\<close>

theorem merkle_proof_sound:
  assumes "noble_ok lib" "leaves \<noteq> []"
    and "verifyMerkleProof lib leaf p (merkleRoot lib leaves) = Inr True"
  shows "blob_bytes lib leaf \<in> set (map (blob_bytes lib) leaves) \<or>
         collision_in lib (proof_inputs lib leaf p) (root_inputs lib leaves)"
proof -
  let ?bs = "map (\<lambda>s. the (n_hexToBytes lib s)) (siblings p)"
  have "fold_path lib (hashLeaf lib (blob_bytes lib leaf)) (index p) ?bs = hd (climb lib (leaf_layer lib leaves))"
    using assms by (auto simp: verifyMerkleProof_def merkleRoot_def hash_simps dest: verify_loop_fold)
  then have "fold_path lib (hashLeaf lib (blob_bytes lib leaf)) (index p) ?bs
      \<in> set (tree_nodes lib (leaf_layer lib leaves))"
    using climb_in_nodes [of "leaf_layer lib leaves" lib] assms(2)
    by (metis length_0_conv length_leaf_layer)
  from fold_path_sound [OF assms(1) this] show ?thesis by (simp add: proof_inputs_def)
qed

theorem merkle_proof_sound_witness:
  "\<exists>p. verifyMerkleProof demo_noble (Str ''b'') p (merkleRoot demo_noble [Str ''a'', Str ''b'', Str ''c'']) = Inr True \<and>
     (blob_bytes demo_noble (Str ''b'') \<in> set (map (blob_bytes demo_noble) [Str ''a'', Str ''b'', Str ''c'']) \<or>
      collision_in demo_noble (proof_inputs demo_noble (Str ''b'') p)
        (root_inputs demo_noble [Str ''a'', Str ''b'', Str ''c'']))"
proof -
  let ?ls = "[Str ''a'', Str ''b'', Str ''c'']"
  obtain p where p: "verifyMerkleProof demo_noble (Str ''b'') p (merkleRoot demo_noble ?ls) = Inr True"
    using verify_made_proof [OF noble_ok_demo, of 1 ?ls] by auto
  from merkle_proof_sound [OF noble_ok_demo _ p] p show ?thesis by blast
qed

subsection \<open>Length of a proof\<close>

lemma halving_bound:
  fixes P n :: nat
  assumes "(n + 1) div 2 \<le> P" "P < 2 * ((n + 1) div 2)" "even P \<or> P = 1" "1 < n"
  shows "n \<le> 2 * P \<and> 2 * P < 2 * n"
proof -
  have "P \<noteq> n \<or> even n" using assms by auto
  then have "P < n" using assms(2) by presburger
  moreover have "n \<le> 2 * P" using assms(1) by linarith
  ultimately show ?thesis by simp
qed

lemma length_proof_path:
  "layer \<noteq> [] \<Longrightarrow> length layer \<le> 2 ^ length (proof_path lib layer i) \<and>
     2 ^ length (proof_path lib layer i) < 2 * length layer"
proof (induction lib layer i rule: proof_path.induct)
  case (1 lib layer i)
  show ?case
  proof (cases "1 < length layer")
    case True
    let ?k = "length (proof_path lib (next_layer lib layer) (i div 2))"
    have "next_layer lib layer \<noteq> []" using 1 by simp
    with 1(1) [OF True] have "(length layer + 1) div 2 \<le> 2 ^ ?k" "2 ^ ?k < 2 * ((length layer + 1) div 2)"
      by simp_all
    moreover have "even ((2::nat) ^ ?k) \<or> (2::nat) ^ ?k = 1" by (cases ?k) simp_all
    ultimately have "length layer \<le> 2 * 2 ^ ?k \<and> 2 * 2 ^ ?k < 2 * length layer"
      using True by (intro halving_bound)
    then show ?thesis using True by (simp add: proof_path.simps [of lib layer i])
  next
    case False
    with 1 have "length layer = 1" by (cases layer) auto
    then show ?thesis by (simp add: proof_path.simps)
  qed
qed

text \<open>A proof for \<open>n\<close> leaves has exactly $\lceil\log_2 n\rceil$ siblings, and asking for an index out
  of range is an error.\<close>

lemma merkle_proof_length:
  "case merkleProof lib leaves i of
     Inl e \<Rightarrow> \<not> (0 \<le> i \<and> i < int (length leaves)) \<and> e = ''index out of range''
   | Inr p \<Rightarrow> 0 \<le> i \<and> i < int (length leaves) \<and>
       length leaves \<le> 2 ^ length (siblings p) \<and> 2 ^ length (siblings p) < 2 * length leaves"
  using length_proof_path [of "leaf_layer lib leaves" lib "nat i"]
  by (auto simp: merkleProof_def simp flip: length_greater_0_conv)

subsection \<open>Duplicated last leaf\<close>

lemma next_layer_dup:
  "odd (length xs + 1) \<Longrightarrow> next_layer lib (xs @ [a, b]) = next_layer lib xs @ [hashNode lib a b]"
  by (induction lib xs rule: next_layer.induct) auto

lemma next_layer_single:
  "even (length xs) \<Longrightarrow> next_layer lib (xs @ [a]) = next_layer lib xs @ [hashNode lib a a]"
  by (induction lib xs rule: next_layer.induct) auto

text \<open>The root does not determine the list of leaves: where the number of leaves is odd and above
  one, repeating the last leaf gives the same root (the odd node is hashed with itself).\<close>

lemma merkle_root_duplicate:
  assumes "even (length leaves)" "leaves \<noteq> []"
  shows "merkleRoot lib (leaves @ [l, l]) = merkleRoot lib (leaves @ [l])"
proof -
  let ?L = "leaf_layer lib leaves" and ?x = "hashLeaf lib (blob_bytes lib l)"
  have e: "even (length ?L)" using assms by simp
  have "climb lib (?L @ [?x, ?x]) = climb lib (?L @ [?x])"
    using assms e
    by (simp add: climb.simps [of lib "?L @ [?x, ?x]"] climb.simps [of lib "?L @ [?x]"]
        next_layer_dup next_layer_single)
  then show ?thesis by (simp add: merkleRoot_def leaf_layer_def)
qed

lemma merkle_root_duplicate_witness:
  "even (length [Str ''a'', Str ''b'']) \<and>
   merkleRoot demo_noble ([Str ''a'', Str ''b''] @ [Str ''c'', Str ''c'']) =
   merkleRoot demo_noble ([Str ''a'', Str ''b''] @ [Str ''c''])"
  using merkle_root_duplicate [of "[Str ''a'', Str ''b'']" demo_noble "Str ''c''"] by simp

end
