(* ===== verification/SynapticField.thy ===== *)
theory SynapticField
  imports Merkle
begin

text \<open>
  \<open>class SynapticFieldMMR\<close> of \<^verbatim>\<open>packages/crypto/src/index.ts\<close>: the peaks and the size, \<open>append\<close> with
  its merging loop, the bagged root.  The peaks are refined to hash trees over the appended leaves;
  the order of the leaves, the number of peaks and the binding of the root to the whole history are
  read off the trees.
\<close>

subsection \<open>Definitions\<close>

record mmr =
  peaks :: "bytes list"
  msize :: nat

definition empty_mmr :: mmr where
  "empty_mmr = \<lparr>peaks = [], msize = 0\<rparr>"

text \<open>
  \<open>(this.size >> height) & 1\<close>: the size is taken to a 32-bit integer and the shift distance to its
  low five bits, so the bit read is bit \<open>height mod 32\<close>.
\<close>

definition size_bit :: "nat \<Rightarrow> nat \<Rightarrow> bool" where
  "size_bit n height = bit (word_of_nat n :: 32 word) (height mod 32)"

definition shouldMerge :: "bytes list \<Rightarrow> nat \<Rightarrow> nat \<Rightarrow> bool" where
  "shouldMerge ps n height \<longleftrightarrow> 2 \<le> length ps \<and> \<not> size_bit n height"

function merge_loop :: "noble \<Rightarrow> nat \<Rightarrow> bytes list \<Rightarrow> bytes \<Rightarrow> nat \<Rightarrow> bytes list \<times> bytes" where
  "merge_loop lib n ps leaf height =
     (if shouldMerge ps n height
      then merge_loop lib n (butlast ps) (hashNode lib (last ps) leaf) (height + 1)
      else (ps, leaf))"
  by pat_completeness auto
termination
  by (relation "measure (\<lambda>(lib, n, ps, leaf, height). length ps)") (auto simp: shouldMerge_def)

declare merge_loop.simps [simp del]

definition mmr_root :: "noble \<Rightarrow> mmr \<Rightarrow> string" where
  "mmr_root lib m =
     (if peaks m = [] then n_bytesToHex lib (sha256 lib (Buf []))
      else n_bytesToHex lib (foldr (hashNode lib) (butlast (peaks m)) (last (peaks m))))"

text \<open>A string argument is hexadecimal; \<open>hexToBytes\<close> throws before anything is changed.\<close>

fun root_bytes :: "noble \<Rightarrow> blob \<Rightarrow> bytes result" where
  "root_bytes lib (Str s) = (case n_hexToBytes lib s of None \<Rightarrow> Inl ''hexToBytes'' | Some b \<Rightarrow> Inr b)"
| "root_bytes lib (Buf b) = Inr b"

definition mmr_push :: "noble \<Rightarrow> mmr \<Rightarrow> bytes \<Rightarrow> mmr" where
  "mmr_push lib m d =
     (let (ps, leaf) = merge_loop lib (msize m + 1) (peaks m) (hashLeaf lib d) 0
      in \<lparr>peaks = ps @ [leaf], msize = msize m + 1\<rparr>)"

definition append_root :: "noble \<Rightarrow> mmr \<Rightarrow> blob \<Rightarrow> (string \<times> mmr) result" where
  "append_root lib m r =
     bindE (root_bytes lib r) (\<lambda>d. let m' = mmr_push lib m d in Inr (mmr_root lib m', m'))"

fun append_all :: "noble \<Rightarrow> mmr \<Rightarrow> blob list \<Rightarrow> mmr result" where
  "append_all lib m [] = Inr m"
| "append_all lib m (r # rs) = bindE (append_root lib m r) (\<lambda>(_, m'). append_all lib m' rs)"

record mmr_snapshot =
  snap_size :: nat
  snap_peaks :: "string list"
  snap_root :: string

definition snapshot :: "noble \<Rightarrow> mmr \<Rightarrow> mmr_snapshot" where
  "snapshot lib m = \<lparr>snap_size = msize m, snap_peaks = map (n_bytesToHex lib) (peaks m),
     snap_root = mmr_root lib m\<rparr>"

subsection \<open>Hash trees\<close>

text \<open>The abstract peaks: trees whose leaves are the appended data.\<close>

datatype mtree = MLeaf bytes | MNode mtree mtree

fun mt_digest :: "noble \<Rightarrow> mtree \<Rightarrow> bytes" where
  "mt_digest lib (MLeaf d) = hashLeaf lib d"
| "mt_digest lib (MNode l r) = hashNode lib (mt_digest lib l) (mt_digest lib r)"

fun mt_data :: "mtree \<Rightarrow> bytes list" where
  "mt_data (MLeaf d) = [d]"
| "mt_data (MNode l r) = mt_data l @ mt_data r"

fun mt_inputs :: "noble \<Rightarrow> mtree \<Rightarrow> bytes list" where
  "mt_inputs lib (MLeaf d) = [leaf_input d]"
| "mt_inputs lib (MNode l r) = node_input (mt_digest lib l) (mt_digest lib r) # mt_inputs lib l @ mt_inputs lib r"

lemma length_mt_digest [hash_simps]: "noble_ok lib \<Longrightarrow> length (mt_digest lib t) = 32"
  by (cases t) (simp_all add: hash_simps)

text \<open>Two different trees with one digest exhibit a collision.\<close>

lemma digest_binding:
  assumes "noble_ok lib"
  shows "mt_digest lib t = mt_digest lib u \<Longrightarrow> t = u \<or> collision_in lib (mt_inputs lib t) (mt_inputs lib u)"
proof (induction t arbitrary: u)
  case (MLeaf d)
  show ?case
  proof (cases u)
    case (MLeaf e)
    with MLeaf.prems show ?thesis
      by (cases "d = e") (auto simp: hashLeaf_digest intro: collisionI)
  next
    case (MNode l r)
    with MLeaf.prems show ?thesis
      by (auto simp: hashLeaf_digest hashNode_digest collision_in_def)
  qed
next
  case (MNode l r)
  show ?case
  proof (cases u)
    case (MLeaf e)
    with MNode.prems show ?thesis
      by (auto simp: hashLeaf_digest hashNode_digest collision_in_def leaf_node_input [symmetric])
  next
    case u: (MNode l' r')
    let ?x = "node_input (mt_digest lib l) (mt_digest lib r)"
    let ?y = "node_input (mt_digest lib l') (mt_digest lib r')"
    show ?thesis
    proof (cases "?x = ?y")
      case True
      then have "mt_digest lib l = mt_digest lib l'" "mt_digest lib r = mt_digest lib r'"
        using assms by (simp_all add: node_input_inj length_mt_digest)
      from MNode.IH(1) [OF this(1)] MNode.IH(2) [OF this(2)] u show ?thesis
        by (auto intro: collision_mono)
    next
      case False
      with MNode.prems u show ?thesis
        by (auto simp: hashNode_digest intro!: collisionI [where x = ?x and y = ?y])
    qed
  qed
qed

function merge_trees :: "nat \<Rightarrow> mtree list \<Rightarrow> mtree \<Rightarrow> nat \<Rightarrow> mtree list \<times> mtree" where
  "merge_trees n ts t height =
     (if 2 \<le> length ts \<and> \<not> size_bit n height
      then merge_trees n (butlast ts) (MNode (last ts) t) (height + 1) else (ts, t))"
  by pat_completeness auto
termination
  by (relation "measure (\<lambda>(n, ts, t, height). length ts)") auto

declare merge_trees.simps [simp del]

definition push_tree :: "mtree list \<Rightarrow> nat \<Rightarrow> bytes \<Rightarrow> mtree list" where
  "push_tree ts n d = (let (us, t) = merge_trees (n + 1) ts (MLeaf d) 0 in us @ [t])"

text \<open>The forest after a whole history of appends.\<close>

definition forest :: "bytes list \<Rightarrow> mtree list" where
  "forest ds = foldl (\<lambda>ts (i, d). push_tree ts i d) [] (enumerate 0 ds)"

lemma merge_trees_go:
    "2 \<le> length ts \<Longrightarrow> \<not> size_bit n h \<Longrightarrow>
     merge_trees n ts t h = merge_trees n (butlast ts) (MNode (last ts) t) (h + 1)"
  and merge_trees_stop: "length ts < 2 \<or> size_bit n h \<Longrightarrow> merge_trees n ts t h = (ts, t)"
  by (subst merge_trees.simps; auto)+

lemma merge_loop_go:
    "2 \<le> length ps \<Longrightarrow> \<not> size_bit n h \<Longrightarrow>
     merge_loop lib n ps x h = merge_loop lib n (butlast ps) (hashNode lib (last ps) x) (h + 1)"
  and merge_loop_stop: "length ps < 2 \<or> size_bit n h \<Longrightarrow> merge_loop lib n ps x h = (ps, x)"
  by (subst merge_loop.simps; auto simp: shouldMerge_def)+

lemma merge_trees_refines:
  "merge_loop lib n (map (mt_digest lib) ts) (mt_digest lib t) h =
   (case merge_trees n ts t h of (us, u) \<Rightarrow> (map (mt_digest lib) us, mt_digest lib u))"
proof (induction n ts t h rule: merge_trees.induct)
  case (1 n ts t h)
  show ?case
  proof (cases "2 \<le> length ts \<and> \<not> size_bit n h")
    case True
    then have "ts \<noteq> []" by auto
    with True 1 [OF True] show ?thesis
      by (simp add: merge_loop_go merge_trees_go map_butlast last_map)
  next
    case False
    then have "length ts < 2 \<or> size_bit n h" by auto
    then show ?thesis by (simp add: merge_loop_stop merge_trees_stop)
  qed
qed

lemma merge_trees_data:
  "merge_trees n ts t h = (us, u) \<Longrightarrow>
   concat (map mt_data us) @ mt_data u = concat (map mt_data ts) @ mt_data t"
proof (induction n ts t h rule: merge_trees.induct)
  case (1 n ts t h)
  show ?case
  proof (cases "2 \<le> length ts \<and> \<not> size_bit n h")
    case True
    then obtain vs v where ts: "ts = vs @ [v]" by (cases ts rule: rev_cases) auto
    from 1 True show ?thesis by (simp add: merge_trees_go ts)
  next
    case False
    then have "length ts < 2 \<or> size_bit n h" by auto
    with 1 show ?thesis by (simp add: merge_trees_stop)
  qed
qed

lemma forest_snoc: "forest (ds @ [d]) = push_tree (forest ds) (length ds) d"
  by (simp add: forest_def enumerate_append_eq enumerate_Suc_eq)

lemma forest_Nil [simp]: "forest [] = []"
  by (simp add: forest_def)

lemma forest_data: "concat (map mt_data (forest ds)) = ds"
proof (induction ds rule: rev_induct)
  case (snoc d ds)
  then show ?case
    using merge_trees_data [of "length ds + 1" "forest ds" "MLeaf d" 0]
    by (auto simp: forest_snoc push_tree_def split: prod.splits)
qed simp


subsection \<open>Refinement and the order of the history\<close>

lemma mmr_push_refines:
  assumes "peaks m = map (mt_digest lib) (forest ds)" "msize m = length ds"
  shows "peaks (mmr_push lib m d) = map (mt_digest lib) (forest (ds @ [d]))"
    and "msize (mmr_push lib m d) = length (ds @ [d])"
  using assms merge_trees_refines [of lib "length ds + 1" "forest ds" "MLeaf d" 0]
  by (auto simp: mmr_push_def forest_snoc push_tree_def split: prod.splits)

definition mmr_of :: "noble \<Rightarrow> bytes list \<Rightarrow> mmr" where
  "mmr_of lib ds = foldl (mmr_push lib) empty_mmr ds"

lemma mmr_of_refines:
  "peaks (mmr_of lib ds) = map (mt_digest lib) (forest ds) \<and> msize (mmr_of lib ds) = length ds"
proof (induction ds rule: rev_induct)
  case (snoc d ds)
  then show ?case by (simp add: mmr_of_def mmr_push_refines)
qed (simp add: mmr_of_def empty_mmr_def)

lemma append_all_mmr_of:
  "append_all lib (mmr_of lib ds) (map Buf es) = Inr (mmr_of lib (ds @ es))"
proof (induction es arbitrary: ds)
  case (Cons e es)
  have "append_root lib (mmr_of lib ds) (Buf e) =
      Inr (mmr_root lib (mmr_of lib (ds @ [e])), mmr_of lib (ds @ [e]))"
    by (simp add: append_root_def mmr_of_def Let_def)
  then show ?case using Cons.IH [of "ds @ [e]"] by simp
qed simp

text \<open>C9: whatever is appended, every peak is the digest of a hash tree, and the leaves of those trees,
  read from the first peak to the last, are exactly the appended roots in order; the size counts them.\<close>

theorem mmr_refines_history:
  "\<exists>m ts. append_all lib empty_mmr (map Buf ds) = Inr m \<and> msize m = length ds \<and>
     peaks m = map (mt_digest lib) ts \<and> concat (map mt_data ts) = ds"
  using append_all_mmr_of [of lib "[]" ds] mmr_of_refines [of lib ds] forest_data [of ds]
  by (auto simp: mmr_of_def)


subsection \<open>How many peaks there are\<close>

fun ones :: "nat \<Rightarrow> nat" where
  "ones n = (if n = 0 then 0 else n mod 2 + ones (n div 2))"

declare ones.simps [simp del]

lemma ones_0 [simp]: "ones 0 = 0"
  and ones_double: "ones (2 * n) = ones n"
  and ones_odd: "ones (Suc (2 * n)) = Suc (ones n)"
  by (subst ones.simps; simp)+

lemma ones_le: "n < 2 ^ k \<Longrightarrow> ones n \<le> k"
proof (induction k arbitrary: n)
  case (Suc k)
  then have "ones (n div 2) \<le> k" by (simp add: less_mult_imp_div_less mult.commute)
  then show ?case by (subst ones.simps) auto
qed simp

lemma bit_bound: "bit (n::nat) t \<Longrightarrow> 2 ^ t \<le> n"
  by (metis bit_nat_iff div_less even_zero linorder_not_less bit_iff_odd)

text \<open>Counting up by one clears the \<open>t\<close> low ones and sets bit \<open>t\<close>.\<close>

lemma trailing_ones:
  "\<exists>t. (\<forall>j<t. \<not> bit (n + 1) j) \<and> bit (n + 1) t \<and> ones (n + 1) + t = ones n + 1 \<and> t \<le> ones n"
proof (induction n rule: less_induct)
  case (less n)
  show ?case
  proof (cases "even n")
    case True
    then obtain m where "n = 2 * m" by (elim evenE)
    then show ?thesis by (intro exI [of _ 0]) (simp add: ones_odd ones_double bit_0)
  next
    case False
    then obtain m where n: "n = 2 * m + 1" by (elim oddE)
    with less [of m] obtain t where t: "\<forall>j<t. \<not> bit (m + 1) j" "bit (m + 1) t"
      "ones (m + 1) + t = ones m + 1" "t \<le> ones m" by auto
    have e: "n + 1 = 2 * (m + 1)" using n by simp
    have "\<not> bit (n + 1) j" if "j < Suc t" for j
      using that t(1) unfolding e by (cases j) (simp_all add: bit_0 bit_Suc)
    moreover have "bit (n + 1) (Suc t)" using t(2) unfolding e by (simp add: bit_Suc)
    moreover have "ones (n + 1) = ones (m + 1)" unfolding e by (rule ones_double)
    moreover have "ones n = Suc (ones m)" using n by (simp add: ones_odd)
    ultimately show ?thesis using t(3,4) by (intro exI [of _ "Suc t"]) auto
  qed
qed

lemma size_bit_small: "n < 2 ^ 32 \<Longrightarrow> h < 32 \<Longrightarrow> size_bit n h \<longleftrightarrow> bit n h"
  by (simp add: size_bit_def unsigned_of_nat bit_simps)

lemma merge_trees_count:
  assumes "\<And>j. j < k \<Longrightarrow> \<not> size_bit n (h + j)" "size_bit n (h + k)" "k < length ts"
  shows "length (fst (merge_trees n ts t h)) = length ts - k"
  using assms
proof (induction k arbitrary: ts t h)
  case (Suc k)
  have "length (fst (merge_trees n (butlast ts) (MNode (last ts) t) (h + 1))) = length (butlast ts) - k"
  proof (rule Suc.IH)
    show "\<not> size_bit n (h + 1 + j)" if "j < k" for j
      using Suc.prems(1) [of "Suc j"] that by simp
  qed (use Suc.prems in simp_all)
  then show ?case
    using Suc.prems(1) [of 0] Suc.prems(3) by (simp add: merge_trees_go)
qed (simp add: merge_trees_stop)

lemma forest_count:
  "length ds < 2 ^ 32 \<Longrightarrow> length (forest ds) = (if length ds < 2 then length ds else ones (length ds) + 1)"
proof (induction ds rule: rev_induct)
  case (snoc d ds)
  let ?n = "length ds"
  consider "?n = 0" | "?n = 1" | "2 \<le> ?n" by linarith
  then show ?case
  proof cases
    case 1
    then show ?thesis
      using forest_snoc [of "[]" d] by (simp add: push_tree_def merge_trees_stop)
  next
    case 2
    with snoc have "length (forest ds) = 1" by simp
    moreover have "ones 2 = 1" by (simp add: ones.simps)
    ultimately show ?thesis
      using 2 by (simp add: forest_snoc push_tree_def merge_trees_stop numeral_2_eq_2 [symmetric])
  next
    case 3
    obtain t where t: "\<forall>j<t. \<not> bit (?n + 1) j" "bit (?n + 1) t" "ones (?n + 1) + t = ones ?n + 1" "t \<le> ones ?n"
      using trailing_ones by blast
    have n: "?n + 1 < 2 ^ 32" using snoc.prems by simp
    have "2 ^ t < (2::nat) ^ 32" using bit_bound [OF t(2)] n by linarith
    then have t32: "t < 32" by (simp only: power_strict_increasing_iff)
    have len: "length (forest ds) = ones ?n + 1" using 3 snoc by simp
    have "length (fst (merge_trees (?n + 1) (forest ds) (MLeaf d) 0)) = length (forest ds) - t"
      by (rule merge_trees_count) (use t t32 n len in \<open>auto simp: size_bit_small\<close>)
    then have c: "length (fst (merge_trees (?n + 1) (forest ds) (MLeaf d) 0)) = ones (?n + 1)"
      using t(3) len by linarith
    obtain us u where mt: "merge_trees (?n + 1) (forest ds) (MLeaf d) 0 = (us, u)" by fastforce
    then have "forest (ds @ [d]) = us @ [u]" using forest_snoc [of ds d] by (simp add: push_tree_def)
    then show ?thesis using 3 c mt by auto
  qed
qed simp

text \<open>After at least two appends (and fewer than $2^{32}$) the field has one peak more than the number
  of ones in the binary size, at most 33 in all; a Merkle mountain range has exactly that number of ones.\<close>

lemma mmr_peak_count:
  assumes "append_all lib empty_mmr (map Buf ds) = Inr m" "2 \<le> length ds" "length ds < 2 ^ 32"
  shows "length (peaks m) = ones (length ds) + 1 \<and> length (peaks m) \<le> 33"
proof -
  have "m = mmr_of lib ds"
    using assms(1) append_all_mmr_of [of lib "[]" ds] by (simp add: mmr_of_def)
  then have "length (peaks m) = ones (length ds) + 1"
    using assms(2,3) mmr_of_refines [of lib ds] forest_count [of ds] by simp
  with ones_le [OF assms(3)] show ?thesis by simp
qed

lemma mmr_peak_count_witness:
  "append_all demo_noble empty_mmr (map Buf [[1], [2], [3], [4]]) = Inr (mmr_of demo_noble [[1], [2], [3], [4]]) \<and>
   length (peaks (mmr_of demo_noble [[1], [2], [3], [4]])) = ones 4 + 1"
proof -
  let ?ds = "[[1], [2], [3], [4]] :: bytes list"
  have m: "append_all demo_noble empty_mmr (map Buf ?ds) = Inr (mmr_of demo_noble ?ds)"
    using append_all_mmr_of [of demo_noble "[]" ?ds] by (simp only: mmr_of_def foldl.simps append_Nil)
  have n: "length ?ds = 4" by simp
  from mmr_peak_count [OF m] m show ?thesis unfolding n by simp
qed

lemma merge_trees_hd:
  "ts \<noteq> [] \<Longrightarrow> fst (merge_trees n ts t h) \<noteq> [] \<and> hd (fst (merge_trees n ts t h)) = hd ts"
proof (induction n ts t h rule: merge_trees.induct)
  case (1 n ts t h)
  show ?case
  proof (cases "2 \<le> length ts \<and> \<not> size_bit n h")
    case True
    then obtain x y zs where "ts = x # y # zs" by (metis Suc_le_length_iff numeral_2_eq_2)
    with 1(1) [OF True] True show ?thesis by (auto simp: merge_trees_go)
  next
    case False
    with 1 have "length ts < 2 \<or> size_bit n h" by auto
    with 1 show ?thesis by (simp add: merge_trees_stop)
  qed
qed

lemma forest_hd: "hd (forest (d # ds)) = MLeaf d \<and> forest (d # ds) \<noteq> []"
proof (induction ds rule: rev_induct)
  case Nil
  show ?case using forest_snoc [of "[]" d] by (simp add: push_tree_def merge_trees_stop)
next
  case (snoc e es)
  then show ?case
    using forest_snoc [of "d # es" e] merge_trees_hd [of "forest (d # es)" "length (d # es) + 1" "MLeaf e" 0]
    by (auto simp: push_tree_def split: prod.splits)
qed

text \<open>The first root ever appended is never merged: after any number of further appends it is still
  the first peak, alone.  (In a Merkle mountain range it is merged by the second append.)\<close>

lemma mmr_first_never_merges:
  "\<exists>m. append_all lib empty_mmr (map Buf (d # ds)) = Inr m \<and> peaks m \<noteq> [] \<and>
       hd (peaks m) = hashLeaf lib d"
  using append_all_mmr_of [of lib "[]" "d # ds"] mmr_of_refines [of lib "d # ds"] forest_hd [of d ds]
  by (auto simp: mmr_of_def hd_map)

subsection \<open>The root commits to the whole history\<close>

definition history_inputs :: "noble \<Rightarrow> bytes list \<Rightarrow> bytes list" where
  "history_inputs lib ds =
     (if ds = [] then [[]]
      else mt_inputs lib (foldr MNode (butlast (forest ds)) (last (forest ds))))"

lemma forest_Nil_iff [simp]: "forest ds = [] \<longleftrightarrow> ds = []"
  using forest_data [of ds] by (cases ds) (auto simp: forest_hd)

lemma mt_digest_bag:
  "mt_digest lib (foldr MNode ts t) = foldr (hashNode lib) (map (mt_digest lib) ts) (mt_digest lib t)"
  by (induction ts) auto

lemma mt_data_bag: "mt_data (foldr MNode ts t) = concat (map mt_data ts) @ mt_data t"
  by (induction ts) auto

lemma forest_bag_data:
  assumes "ds \<noteq> []"
  shows "mt_data (foldr MNode (butlast (forest ds)) (last (forest ds))) = ds"
proof -
  obtain ts t where f: "forest ds = ts @ [t]" using assms by (cases "forest ds" rule: rev_cases) auto
  then show ?thesis using forest_data [of ds] by (simp add: mt_data_bag)
qed

lemma mmr_root_bag:
  "ds \<noteq> [] \<Longrightarrow> noble_ok lib \<Longrightarrow> mmr_root lib (mmr_of lib ds) =
     hex_of (mt_digest lib (foldr MNode (butlast (forest ds)) (last (forest ds))))"
  using mmr_of_refines [of lib ds]
  by (simp add: mmr_root_def hash_simps mt_digest_bag map_butlast last_map)

lemma mt_inputs_nonempty: "x \<in> set (mt_inputs lib t) \<Longrightarrow> x \<noteq> []"
  and mt_inputs_digest: "\<exists>x \<in> set (mt_inputs lib t). mt_digest lib t = n_sha256 lib x"
  by (induction t) (auto simp: leaf_input_def node_input_def hashLeaf_def hashNode_def sha256_def)

text \<open>Two histories with the same root are the same history, unless the inputs hashed for the two
  contain a collision.  In particular every further append changes the root.\<close>

lemma mmr_root_binding:
  assumes ok: "noble_ok lib"
    and "append_all lib empty_mmr (map Buf ds) = Inr m" "append_all lib empty_mmr (map Buf es) = Inr m'"
    and "mmr_root lib m = mmr_root lib m'"
  shows "ds = es \<or> collision_in lib (history_inputs lib ds) (history_inputs lib es)"
proof -
  define B where "B = (\<lambda>xs. foldr MNode (butlast (forest xs)) (last (forest xs)))"
  have m: "m = mmr_of lib ds" "m' = mmr_of lib es"
    using assms(2,3) append_all_mmr_of [of lib "[]"] by (auto simp: mmr_of_def)
  have empty: "mmr_root lib (mmr_of lib []) = hex_of (n_sha256 lib [])"
    using ok by (simp add: mmr_of_def empty_mmr_def mmr_root_def sha256_def hash_simps)
  have ins: "history_inputs lib xs = mt_inputs lib (B xs)" if "xs \<noteq> []" for xs
    using that by (simp add: history_inputs_def B_def)
  have root: "mmr_root lib (mmr_of lib xs) = hex_of (mt_digest lib (B xs))" if "xs \<noteq> []" for xs
    using that ok by (simp add: mmr_root_bag B_def)
  show ?thesis
  proof (cases "ds = [] \<or> es = []")
    case True
    then show ?thesis
    proof (cases "ds = es")
      case False
      obtain xs where xs: "xs \<noteq> []" "n_sha256 lib [] = mt_digest lib (B xs)"
        and which: "ds = [] \<and> es = xs \<or> es = [] \<and> ds = xs"
        using True False assms(4) by (cases "ds = []"; cases "es = []") (simp_all add: m empty root)
      obtain x where "x \<in> set (mt_inputs lib (B xs))" "mt_digest lib (B xs) = n_sha256 lib x" "x \<noteq> []"
        using mt_inputs_digest mt_inputs_nonempty by metis
      then show ?thesis
        using xs which by (auto simp: history_inputs_def ins [symmetric] collision_in_def)
    qed simp
  next
    case False
    then have "mt_digest lib (B ds) = mt_digest lib (B es)"
      using assms(4) by (simp add: m root)
    from digest_binding [OF ok this] show ?thesis
    proof
      assume "B ds = B es"
      then show ?thesis using False forest_bag_data unfolding B_def by metis
    qed (use False in \<open>simp add: ins\<close>)
  qed
qed

lemma mmr_root_binding_witness:
  "mmr_root demo_noble (mmr_of demo_noble [[5], [6]]) = mmr_root demo_noble (mmr_of demo_noble [[5], [6]]) \<and>
   ([[5], [6]] = [[5], [6 :: byte]] \<or>
    collision_in demo_noble (history_inputs demo_noble [[5], [6]]) (history_inputs demo_noble [[5], [6]]))"
proof -
  have m: "append_all demo_noble empty_mmr (map Buf [[5], [6]]) = Inr (mmr_of demo_noble [[5], [6]])"
    using append_all_mmr_of [of demo_noble "[]" "[[5], [6]]"] by (simp only: mmr_of_def foldl.simps append_Nil)
  from mmr_root_binding [OF noble_ok_demo m m refl] show ?thesis by simp
qed

end
