(* ===== verification/JsString.thy ===== *)
theory JsString
  imports Prelude
begin

text \<open>
  The part of the JavaScript string library the code uses: case mapping, trimming, white-space
  collapsing, \<open>join\<close>, \<open>slice\<close>, and regular expressions as a backtracking matcher that lists the
  possible matches in the order the engine tries them.  All of it is exact for code units below 256.
\<close>

subsection \<open>Characters\<close>

definition code :: "char \<Rightarrow> nat" where
  "code c = of_char c"

definition js_lower_char :: "char \<Rightarrow> char" where
  "js_lower_char c = (let n = code c in
     if (65 \<le> n \<and> n \<le> 90) \<or> (192 \<le> n \<and> n \<le> 222 \<and> n \<noteq> 215) then char_of (n + 32) else c)"

definition toLowerCase :: "string \<Rightarrow> string" where
  "toLowerCase s = map js_lower_char s"

text \<open>\<open>\s\<close>, which is also what \<open>trim\<close> removes: tab to carriage return, space and no-break space.\<close>

definition is_space :: "char \<Rightarrow> bool" where
  "is_space c \<longleftrightarrow> (let n = code c in (9 \<le> n \<and> n \<le> 13) \<or> n = 32 \<or> n = 160)"

definition is_word :: "char \<Rightarrow> bool" where
  "is_word c \<longleftrightarrow> (let n = code c in
     (48 \<le> n \<and> n \<le> 57) \<or> (65 \<le> n \<and> n \<le> 90) \<or> n = 95 \<or> (97 \<le> n \<and> n \<le> 122))"

subsection \<open>Trimming, collapsing, joining\<close>

definition trim :: "string \<Rightarrow> string" where
  "trim s = rev (dropWhile is_space (rev (dropWhile is_space s)))"

text \<open>\<open>s.replace(/\s+/g, ' ')\<close>: every maximal run of white space becomes one space.\<close>

fun collapse :: "string \<Rightarrow> string" where
  "collapse [] = []"
| "collapse (c # s) =
     (if is_space c
      then (case s of [] \<Rightarrow> [CHR '' ''] | d # _ \<Rightarrow> if is_space d then collapse s else CHR '' '' # collapse s)
      else c # collapse s)"

fun join :: "string \<Rightarrow> string list \<Rightarrow> string" where
  "join sep [] = []"
| "join sep [x] = x"
| "join sep (x # y # xs) = x @ sep @ join sep (y # xs)"

text \<open>\<open>xs.slice(0, n)\<close>: a negative end counts from the back.\<close>

definition slice0 :: "'a list \<Rightarrow> int \<Rightarrow> 'a list" where
  "slice0 xs n = (if 0 \<le> n then take (nat n) xs else take (nat (int (length xs) + n)) xs)"

lemma length_slice0: "0 \<le> n \<Longrightarrow> length (slice0 xs n) = min (length xs) (nat n)"
  by (simp add: slice0_def)

lemma set_slice0: "set (slice0 xs n) \<subseteq> set xs"
  by (auto simp: slice0_def dest: in_set_takeD)

lemma js_lower_idem [simp]: "js_lower_char (js_lower_char c) = js_lower_char c"
  by (auto simp: js_lower_char_def code_def Let_def)

lemma is_space_lower [simp]: "is_space (js_lower_char c) \<longleftrightarrow> is_space c"
  by (auto simp: js_lower_char_def is_space_def code_def Let_def)

lemma js_lower_space [simp]: "js_lower_char (CHR '' '') = CHR '' ''"
  by (simp add: js_lower_char_def code_def)

lemma is_space_space [simp]: "is_space (CHR '' '')"
  by (simp add: is_space_def code_def)

subsection \<open>White space in normal form\<close>

text \<open>No white space at either end, and inside only single spaces.\<close>

fun single_spaced :: "string \<Rightarrow> bool" where
  "single_spaced [] \<longleftrightarrow> True"
| "single_spaced [c] \<longleftrightarrow> is_space c \<longrightarrow> c = CHR '' ''"
| "single_spaced (c # d # s) \<longleftrightarrow>
     (is_space c \<longrightarrow> c = CHR '' '' \<and> \<not> is_space d) \<and> single_spaced (d # s)"

lemma collapse_single: "collapse [c] = [if is_space c then CHR '' '' else c]"
  and collapse_Cons2: "collapse (c # d # s) =
    (if is_space c \<and> is_space d then collapse (d # s)
     else (if is_space c then CHR '' '' else c) # collapse (d # s))"
  by simp_all

declare collapse.simps(2) [simp del] collapse_single [simp] collapse_Cons2 [simp]

lemma collapse_hd: "s \<noteq> [] \<Longrightarrow> collapse s \<noteq> [] \<and> is_space (hd (collapse s)) = is_space (hd s)"
  by (induction s rule: induct_list012) auto

lemma single_spaced_Cons:
  "single_spaced (c # s) \<longleftrightarrow>
     (is_space c \<longrightarrow> c = CHR '' '' \<and> (s \<noteq> [] \<longrightarrow> \<not> is_space (hd s))) \<and> single_spaced s"
  by (cases s) auto

lemma single_spaced_collapse: "single_spaced (collapse s)"
proof (induction s rule: induct_list012)
  case (3 c d s)
  then show ?case using collapse_hd [of "d # s"] by (auto simp: single_spaced_Cons)
qed auto

lemma collapse_single_spaced: "single_spaced s \<Longrightarrow> collapse s = s"
  by (induction s rule: induct_list012) (auto simp: single_spaced_Cons)

lemma map_lower_collapse: "toLowerCase (collapse s) = collapse (toLowerCase s)"
  unfolding toLowerCase_def by (induction s rule: induct_list012) auto

lemma dropWhile_map_lower: "dropWhile is_space (map js_lower_char s) = map js_lower_char (dropWhile is_space s)"
  by (simp add: dropWhile_map comp_def)

lemma map_lower_trim: "toLowerCase (trim s) = trim (toLowerCase s)"
  by (simp add: toLowerCase_def trim_def dropWhile_map_lower rev_map)

definition no_edge_space :: "string \<Rightarrow> bool" where
  "no_edge_space s \<longleftrightarrow> s = [] \<or> \<not> is_space (hd s) \<and> \<not> is_space (last s)"

lemma dropWhile_id: "s = [] \<or> \<not> p (hd s) \<Longrightarrow> dropWhile p s = s"
  by (cases s) auto

lemma trim_no_edge: "no_edge_space s \<Longrightarrow> trim s = s"
  by (auto simp: no_edge_space_def trim_def dropWhile_id hd_rev)

lemma no_edge_trim: "no_edge_space (trim s)"
proof -
  define t where "t = dropWhile is_space s"
  define u where "u = dropWhile is_space (rev t)"
  have t: "t = [] \<or> \<not> is_space (hd t)" unfolding t_def by (metis hd_dropWhile)
  have u: "u = [] \<or> \<not> is_space (hd u)" unfolding u_def by (metis hd_dropWhile)
  have "no_edge_space (rev u)"
  proof (cases "u = []")
    case False
    then have "t \<noteq> []" by (auto simp: u_def)
    moreover have "last u = last (rev t)"
      using False unfolding u_def by (metis last_appendR takeWhile_dropWhile_id)
    ultimately have "last u = hd t" by (simp add: last_rev)
    with t u False \<open>t \<noteq> []\<close> show ?thesis by (simp add: no_edge_space_def hd_rev last_rev)
  qed (simp add: no_edge_space_def)
  then show ?thesis by (simp add: trim_def t_def u_def)
qed

lemma collapse_last: "s \<noteq> [] \<Longrightarrow> is_space (last (collapse s)) = is_space (last s)"
proof (induction s rule: induct_list012)
  case (3 c d s)
  then show ?case using collapse_hd [of "d # s"] by simp
qed auto

lemma no_edge_collapse: "no_edge_space s \<Longrightarrow> no_edge_space (collapse s)"
  by (cases "s = []") (auto simp: no_edge_space_def collapse_last dest: collapse_hd)

subsection \<open>Regular expressions\<close>

text \<open>
  A match state is the text already passed, reversed, and the text ahead; \<open>\b\<close> looks at both.
  \<open>RPlus\<close> and \<open>RStar\<close> are greedy repetitions of a character class.
\<close>

datatype jsre =
    RLit string
  | RTimes nat "char \<Rightarrow> bool"
  | RPlus "char \<Rightarrow> bool"
  | RStar "char \<Rightarrow> bool"
  | ROpt jsre
  | RSeq jsre jsre
  | RAlt "string list"
  | ROr jsre jsre
  | RWordB

type_synonym mstate = "string \<times> string"

definition advance :: "nat \<Rightarrow> mstate \<Rightarrow> mstate" where
  "advance n st = (rev (take n (snd st)) @ fst st, drop n (snd st))"

definition word_boundary :: "mstate \<Rightarrow> bool" where
  "word_boundary st \<longleftrightarrow>
     (fst st \<noteq> [] \<and> is_word (hd (fst st))) \<noteq> (snd st \<noteq> [] \<and> is_word (hd (snd st)))"

definition is_prefix :: "string \<Rightarrow> string \<Rightarrow> bool" where
  "is_prefix l s \<longleftrightarrow> take (length l) s = l"

fun re_match :: "jsre \<Rightarrow> mstate \<Rightarrow> mstate list" where
  "re_match (RLit l) st = (if is_prefix l (snd st) then [advance (length l) st] else [])"
| "re_match (RTimes n p) st =
     (if n \<le> length (snd st) \<and> list_all p (take n (snd st)) then [advance n st] else [])"
| "re_match (RPlus p) st =
     map (\<lambda>n. advance n st) (rev [1..<length (takeWhile p (snd st)) + 1])"
| "re_match (RStar p) st =
     map (\<lambda>n. advance n st) (rev [0..<length (takeWhile p (snd st)) + 1])"
| "re_match (ROpt r) st = re_match r st @ [st]"
| "re_match (RSeq r q) st = concat (map (re_match q) (re_match r st))"
| "re_match (RAlt ls) st =
     concat (map (\<lambda>l. if is_prefix l (snd st) then [advance (length l) st] else []) ls)"
| "re_match (ROr r q) st = re_match r st @ re_match q st"
| "re_match RWordB st = (if word_boundary st then [st] else [])"

text \<open>\<open>/^r$/.test(s)\<close>, \<open>/r/.test(s)\<close>, and the captured text of the first match of \<open>/r(q)/\<close>.\<close>

definition re_full :: "jsre \<Rightarrow> string \<Rightarrow> bool" where
  "re_full r s \<longleftrightarrow> list_ex (\<lambda>st. snd st = []) (re_match r ([], s))"

definition at_pos :: "string \<Rightarrow> nat \<Rightarrow> mstate" where
  "at_pos s i = (rev (take i s), drop i s)"

definition re_test :: "jsre \<Rightarrow> string \<Rightarrow> bool" where
  "re_test r s \<longleftrightarrow> list_ex (\<lambda>i. re_match r (at_pos s i) \<noteq> []) [0..<length s + 1]"

definition re_capture :: "jsre \<Rightarrow> jsre \<Rightarrow> string \<Rightarrow> string option" where
  "re_capture r q s =
     (case concat (map (\<lambda>i. concat (map (\<lambda>st. map (\<lambda>st'. take (length (snd st) - length (snd st')) (snd st))
          (re_match q st)) (re_match r (at_pos s i)))) [0..<length s + 1]) of
        [] \<Rightarrow> None | g # _ \<Rightarrow> Some g)"

lemma re_full_iff: "re_full r s \<longleftrightarrow> (\<exists>pre. (pre, []) \<in> set (re_match r ([], s)))"
  unfolding re_full_def list_ex_iff by (metis prod.collapse snd_conv)

lemma is_prefix_iff: "is_prefix l s \<longleftrightarrow> (\<exists>t. s = l @ t)"
  by (auto simp: is_prefix_def) (metis append_take_drop_id)

lemma advance_prefix:
  "is_prefix l s \<and> (pre', t) = advance (length l) (pre, s) \<longleftrightarrow> s = l @ t \<and> pre' = rev l @ pre"
  by (auto simp: advance_def is_prefix_iff)

lemma re_lit: "(pre', t) \<in> set (re_match (RLit l) (pre, s)) \<longleftrightarrow> s = l @ t \<and> pre' = rev l @ pre"
  using advance_prefix [of l s pre' t pre] by auto

lemma re_times:
  "(pre', t) \<in> set (re_match (RTimes n p) (pre, s)) \<longleftrightarrow>
   (\<exists>u. s = u @ t \<and> length u = n \<and> list_all p u \<and> pre' = rev u @ pre)"
  by (auto simp: advance_def intro: exI [of _ "take n s"])

lemma takeWhile_take: "list_all p (take n (takeWhile p s))"
  by (metis (full_types) in_set_takeD list_all_iff set_takeWhileD)

lemma re_plus:
  "(pre', t) \<in> set (re_match (RPlus p) (pre, s)) \<longleftrightarrow>
   (\<exists>u. s = u @ t \<and> u \<noteq> [] \<and> list_all p u \<and> pre' = rev u @ pre)"
proof
  assume "(pre', t) \<in> set (re_match (RPlus p) (pre, s))"
  then obtain n where n: "1 \<le> n" "n \<le> length (takeWhile p s)" "(pre', t) = advance n (pre, s)"
    by auto
  have "take n s = take n (takeWhile p s)"
    using n(2) by (metis append_take_drop_id takeWhile_eq_take take_take min.absorb1)
  with n takeWhile_take [of p n s] append_take_drop_id [of n s] show "\<exists>u. s = u @ t \<and> u \<noteq> [] \<and> list_all p u \<and> pre' = rev u @ pre"
    by (intro exI [of _ "take n s"]) (auto simp: advance_def)
next
  assume "\<exists>u. s = u @ t \<and> u \<noteq> [] \<and> list_all p u \<and> pre' = rev u @ pre"
  then obtain u where u: "s = u @ t" "u \<noteq> []" "list_all p u" "pre' = rev u @ pre" by blast
  have "length u \<le> length (takeWhile p s)"
    using u by (auto simp: list_all_iff takeWhile_append2)
  moreover have "advance (length u) (pre, s) = (pre', t)" using u by (simp add: advance_def)
  ultimately show "(pre', t) \<in> set (re_match (RPlus p) (pre, s))"
    using u(2) by (auto simp: Suc_le_eq intro!: image_eqI [of _ _ "length u"])
qed

lemma re_seq:
  "(pre', t) \<in> set (re_match (RSeq r q) (pre, s)) \<longleftrightarrow>
   (\<exists>pre1 s1. (pre1, s1) \<in> set (re_match r (pre, s)) \<and> (pre', t) \<in> set (re_match q (pre1, s1)))"
  by auto

lemma re_opt:
  "(pre', t) \<in> set (re_match (ROpt r) (pre, s)) \<longleftrightarrow>
   (pre', t) \<in> set (re_match r (pre, s)) \<or> (pre', t) = (pre, s)"
  by auto

lemma re_alt:
  "(pre', t) \<in> set (re_match (RAlt ls) (pre, s)) \<longleftrightarrow> (\<exists>l \<in> set ls. s = l @ t \<and> pre' = rev l @ pre)"
proof -
  have "(pre', t) \<in> set (re_match (RAlt ls) (pre, s)) \<longleftrightarrow>
      (\<exists>l \<in> set ls. is_prefix l s \<and> (pre', t) = advance (length l) (pre, s))"
    by auto
  then show ?thesis by (simp add: advance_prefix)
qed


text \<open>The language of an expression without word boundaries, and that the matcher decides it.\<close>

fun re_lang :: "jsre \<Rightarrow> string \<Rightarrow> bool" where
  "re_lang (RLit l) u \<longleftrightarrow> u = l"
| "re_lang (RTimes n p) u \<longleftrightarrow> length u = n \<and> list_all p u"
| "re_lang (RPlus p) u \<longleftrightarrow> u \<noteq> [] \<and> list_all p u"
| "re_lang (RStar p) u \<longleftrightarrow> list_all p u"
| "re_lang (ROpt r) u \<longleftrightarrow> u = [] \<or> re_lang r u"
| "re_lang (RSeq r q) u \<longleftrightarrow> (\<exists>v w. u = v @ w \<and> re_lang r v \<and> re_lang q w)"
| "re_lang (RAlt ls) u \<longleftrightarrow> u \<in> set ls"
| "re_lang (ROr r q) u \<longleftrightarrow> re_lang r u \<or> re_lang q u"
| "re_lang RWordB u \<longleftrightarrow> False"

fun boundary_free :: "jsre \<Rightarrow> bool" where
  "boundary_free (ROpt r) \<longleftrightarrow> boundary_free r"
| "boundary_free (RSeq r q) \<longleftrightarrow> boundary_free r \<and> boundary_free q"
| "boundary_free (ROr r q) \<longleftrightarrow> boundary_free r \<and> boundary_free q"
| "boundary_free RWordB \<longleftrightarrow> False"
| "boundary_free (RStar p) \<longleftrightarrow> False"
| "boundary_free _ \<longleftrightarrow> True"

lemma re_match_lang:
  "boundary_free r \<Longrightarrow>
   (pre', t) \<in> set (re_match r (pre, s)) \<longleftrightarrow> (\<exists>u. s = u @ t \<and> pre' = rev u @ pre \<and> re_lang r u)"
proof (induction r arbitrary: pre s pre' t)
  case (ROpt r)
  then show ?case unfolding re_opt by auto
next
  case (RSeq r q)
  then show ?case unfolding re_seq by fastforce
next
  case (RLit l)
  then show ?case unfolding re_lit by auto
next
  case (RTimes n p)
  then show ?case unfolding re_times by auto
next
  case (RPlus p)
  then show ?case unfolding re_plus by auto
next
  case (RAlt ls)
  then show ?case unfolding re_alt by auto
next
  case (ROr r q)
  then show ?case by auto
qed simp_all

lemma re_full_lang: "boundary_free r \<Longrightarrow> re_full r s \<longleftrightarrow> re_lang r s"
  by (simp add: re_full_iff re_match_lang)

end
