(* ===== verification/Crypto.thy ===== *)
theory Crypto
  imports Merkle JsString
begin

text \<open>
  The rest of \<^verbatim>\<open>packages/crypto/src/index.ts\<close>: content identifiers and their parser, epoch keys,
  authenticated encryption, identity signatures and the cross-shard coherence root.
\<close>

subsection \<open>Content identifiers\<close>

text \<open>An \<open>unknown\<close> content: a string or byte array, or a value whose \<open>JSON.stringify\<close> is given.\<close>

datatype content = Raw blob | Json string

fun content_blob :: "content \<Rightarrow> blob" where
  "content_blob (Raw b) = b"
| "content_blob (Json j) = Str j"

definition sha256hex :: "noble \<Rightarrow> content \<Rightarrow> string" where
  "sha256hex lib c = n_bytesToHex lib (sha256 lib (content_blob c))"

record cid_components =
  cid_hash :: string
  cid_epoch :: nat

definition cid :: "noble \<Rightarrow> content \<Rightarrow> nat \<Rightarrow> string" where
  "cid lib c epoch = ''ecca://'' @ sha256hex lib c @ ''@'' @ dec epoch"

definition cid_re :: jsre where
  "cid_re = RSeq (RLit ''ecca://'') (RSeq (RTimes 64 is_hex_char)
     (ROpt (RSeq (RLit ''@'') (RPlus is_digit))))"

text \<open>Group 1 of the pattern is always the 64 characters after the scheme, group 2 what follows \<open>@\<close>.\<close>

definition parseCid :: "string \<Rightarrow> cid_components option" where
  "parseCid s =
     (if re_full cid_re s
      then Some \<lparr>cid_hash = take 64 (drop 7 s),
                 cid_epoch = (if drop 72 s = [] then 0 else digits_value (drop 72 s))\<rparr>
      else None)"

subsection \<open>Epoch keys and encryption\<close>

definition epochKey :: "noble \<Rightarrow> string \<Rightarrow> string \<Rightarrow> nat \<Rightarrow> bytes" where
  "epochKey lib masterSecret stackId epoch =
     n_hkdf_sha512 lib (n_utf8ToBytes lib masterSecret) (n_utf8ToBytes lib stackId)
       (''ecca-epoch:'' @ dec epoch) 32"

record enc_payload =
  ep_iv :: string
  ep_ct :: string
  ep_v :: nat

text \<open>The twelve random bytes are an argument.  A key of a wrong length makes the cipher throw.\<close>

definition encrypt :: "noble \<Rightarrow> bytes \<Rightarrow> blob \<Rightarrow> bytes \<Rightarrow> enc_payload result" where
  "encrypt lib rnd plaintext key =
     (case n_gcm_encrypt lib key rnd (blob_bytes lib plaintext) of
        None \<Rightarrow> Inl ''gcm''
      | Some c \<Rightarrow> Inr \<lparr>ep_iv = n_bytesToHex lib rnd, ep_ct = n_bytesToHex lib c, ep_v = 1\<rparr>)"

definition decrypt :: "noble \<Rightarrow> enc_payload \<Rightarrow> bytes \<Rightarrow> string result" where
  "decrypt lib payload key =
     (if ep_v payload \<noteq> 1 then Inl (''unsupported payload version: '' @ dec (ep_v payload))
      else case n_hexToBytes lib (ep_iv payload) of
        None \<Rightarrow> Inl ''hexToBytes''
      | Some nonce \<Rightarrow>
          (case n_hexToBytes lib (ep_ct payload) of
             None \<Rightarrow> Inl ''hexToBytes''
           | Some c \<Rightarrow>
               (case n_gcm_decrypt lib key nonce c of
                  None \<Rightarrow> Inl ''gcm''
                | Some pt \<Rightarrow> Inr (n_bytesToUtf8 lib pt))))"

subsection \<open>Identity keys\<close>

record identity_keypair =
  kp_pub :: string
  kp_priv :: string

definition genIdentityKeypair :: "noble \<Rightarrow> bytes \<Rightarrow> identity_keypair" where
  "genIdentityKeypair lib priv =
     \<lparr>kp_pub = n_bytesToHex lib (n_ed_public lib priv), kp_priv = n_bytesToHex lib priv\<rparr>"

definition sign :: "noble \<Rightarrow> string \<Rightarrow> blob \<Rightarrow> string result" where
  "sign lib privHex m =
     (case n_hexToBytes lib privHex of
        None \<Rightarrow> Inl ''hexToBytes''
      | Some sk \<Rightarrow> Inr (n_bytesToHex lib (n_ed_sign lib sk (blob_bytes lib m))))"

text \<open>Every exception inside \<open>verify\<close> is caught and means \<open>false\<close>.\<close>

definition verify :: "noble \<Rightarrow> string \<Rightarrow> blob \<Rightarrow> string \<Rightarrow> bool" where
  "verify lib pubHex m sigHex =
     (case (n_hexToBytes lib sigHex, n_hexToBytes lib pubHex) of
        (Some s, Some pk) \<Rightarrow> n_ed_verify lib s (blob_bytes lib m) pk = Some True
      | _ \<Rightarrow> False)"

subsection \<open>Coherence root\<close>

record shard_roots =
  sr_evm :: string
  sr_btc :: string
  sr_ipfs :: string
  sr_sleeves :: string

definition coherence_text :: "shard_roots \<Rightarrow> string" where
  "coherence_text r = sr_evm r @ ''|'' @ sr_btc r @ ''|'' @ sr_ipfs r @ ''|'' @ sr_sleeves r"

definition coherenceRoot :: "noble \<Rightarrow> shard_roots \<Rightarrow> string" where
  "coherenceRoot lib r = sha256hex lib (Raw (Str (coherence_text r)))"

subsection \<open>Properties\<close>

lemma sha256hex_eq: "noble_ok lib \<Longrightarrow>
  sha256hex lib c = hex_of (n_sha256 lib (blob_bytes lib (content_blob c)))"
  by (simp add: sha256hex_def sha256_def hash_simps)

lemma length_sha256hex [hash_simps]: "noble_ok lib \<Longrightarrow> length (sha256hex lib c) = 64"
  by (simp add: sha256hex_eq hash_simps)

lemma sha256hex_chars: "noble_ok lib \<Longrightarrow> list_all is_hex_char (sha256hex lib c)"
  by (auto simp: sha256hex_eq list_all_iff dest: is_hex_char_hex_of)

lemma sha256hex_inj:
  "noble_ok lib \<Longrightarrow> sha256hex lib c = sha256hex lib d \<Longrightarrow>
   blob_bytes lib (content_blob c) = blob_bytes lib (content_blob d) \<or>
   collision_in lib [blob_bytes lib (content_blob c)] [blob_bytes lib (content_blob d)]"
  by (auto simp: sha256hex_eq collision_in_def)

lemma cid_re_iff:
  "re_full cid_re s \<longleftrightarrow>
   (\<exists>h t. s = ''ecca://'' @ h @ t \<and> length h = 64 \<and> list_all is_hex_char h \<and>
      (t = [] \<or> (\<exists>ds. t = CHR ''@'' # ds \<and> ds \<noteq> [] \<and> list_all is_digit ds)))"
  by (simp add: cid_re_def re_full_lang) blast

lemma parse_made_cid:
  assumes "noble_ok lib"
  shows "parseCid (cid lib c e) = Some \<lparr>cid_hash = sha256hex lib c, cid_epoch = e\<rparr>"
proof -
  have "cid lib c e = ''ecca://'' @ sha256hex lib c @ CHR ''@'' # dec e"
    "length (sha256hex lib c) = 64" "list_all is_hex_char (sha256hex lib c)"
    "dec e \<noteq> []" "list_all is_digit (dec e)"
    using assms by (simp_all add: cid_def hash_simps sha256hex_chars)
  then have "re_full cid_re (cid lib c e)" unfolding cid_re_iff by blast
  moreover have "drop 7 (cid lib c e) = sha256hex lib c @ ''@'' @ dec e"
    by (simp add: cid_def)
  moreover have "drop 72 (cid lib c e) = dec e"
    using assms by (simp add: cid_def hash_simps)
  ultimately show ?thesis using assms by (simp add: parseCid_def hash_simps)
qed

text \<open>Parsing an identifier that \<open>cid\<close> made returns its digest and its epoch; identifiers of
  equal text come from the same epoch and from contents with the same digest.\<close>

lemma cid_roundtrip:
  assumes "noble_ok lib"
  shows "parseCid (cid lib c e) = Some \<lparr>cid_hash = sha256hex lib c, cid_epoch = e\<rparr> \<and>
    (cid lib c e = cid lib c' e' \<longrightarrow> e = e' \<and>
       (blob_bytes lib (content_blob c) = blob_bytes lib (content_blob c') \<or>
        collision_in lib [blob_bytes lib (content_blob c)] [blob_bytes lib (content_blob c')]))"
proof -
  have "cid lib c e = cid lib c' e' \<Longrightarrow> sha256hex lib c = sha256hex lib c' \<and> e = e'"
    using parse_made_cid [OF assms, of c e] parse_made_cid [OF assms, of c' e'] by simp
  with parse_made_cid [OF assms] sha256hex_inj [OF assms] show ?thesis by blast
qed

lemma cid_roundtrip_witness:
  "parseCid (cid demo_noble (Json ''{}'') 12) =
     Some \<lparr>cid_hash = sha256hex demo_noble (Json ''{}''), cid_epoch = 12\<rparr>"
  using cid_roundtrip [OF noble_ok_demo, of "Json ''{}''" 12 "Json ''{}''" 12] by simp

lemma encrypt_decrypt:
  assumes "noble_ok lib" "length rnd = 12"
  shows "\<exists>p. encrypt lib rnd (Str s) (epochKey lib ms sid e) = Inr p \<and> ep_v p = 1 \<and>
             decrypt lib p (epochKey lib ms sid e) = Inr s"
proof -
  have "length (epochKey lib ms sid e) = 32" using assms by (simp add: epochKey_def hash_simps)
  from gcm_roundtrip [OF assms(1) this assms(2)] obtain c where
    "n_gcm_encrypt lib (epochKey lib ms sid e) rnd (utf8 s) = Some c"
    "n_gcm_decrypt lib (epochKey lib ms sid e) rnd c = Some (utf8 s)" by blast
  then show ?thesis using assms by (simp add: encrypt_def decrypt_def hash_simps)
qed

text \<open>What \<open>encrypt\<close> produces under the epoch key of a stack, \<open>decrypt\<close> under the same key gives
  back, and a payload of any other version is refused whatever the key.\<close>

lemma encrypt_roundtrip:
  assumes "noble_ok lib" "length rnd = 12"
  shows "\<exists>p. encrypt lib rnd (Str s) (epochKey lib ms sid e) = Inr p \<and>
             decrypt lib p (epochKey lib ms sid e) = Inr s \<and>
             (\<forall>n k. n \<noteq> 1 \<longrightarrow>
                decrypt lib (p\<lparr>ep_v := n\<rparr>) k = Inl (''unsupported payload version: '' @ dec n))"
proof -
  have "n \<noteq> 1 \<Longrightarrow> decrypt lib (p\<lparr>ep_v := n\<rparr>) k = Inl (''unsupported payload version: '' @ dec n)" for n k p
    by (simp add: decrypt_def)
  with encrypt_decrypt [OF assms, of s ms sid e] show ?thesis by blast
qed

lemma encrypt_roundtrip_witness:
  "length (replicate 12 (3 :: byte)) = 12 \<and>
   (\<exists>p. encrypt demo_noble (replicate 12 3) (Str ''rain'') (epochKey demo_noble ''ECCA_GENESIS'' ''stack:human:1:ab'' 4) = Inr p \<and>
        decrypt demo_noble p (epochKey demo_noble ''ECCA_GENESIS'' ''stack:human:1:ab'' 4) = Inr ''rain'')"
proof -
  have l: "length (replicate 12 (3 :: byte)) = 12" by simp
  from encrypt_roundtrip [OF noble_ok_demo l] show ?thesis using l by blast
qed

text \<open>A generated key pair signs so that verification accepts.\<close>

lemma sign_verify:
  assumes "noble_ok lib" "length priv = 32"
  shows "\<exists>s. sign lib (kp_priv (genIdentityKeypair lib priv)) m = Inr s \<and>
             verify lib (kp_pub (genIdentityKeypair lib priv)) m s"
  using assms by (simp add: sign_def verify_def genIdentityKeypair_def hash_simps ed_roundtrip)

lemma sign_verify_witness:
  "length (replicate 32 (9 :: byte)) = 32 \<and>
   (\<exists>s. sign demo_noble (kp_priv (genIdentityKeypair demo_noble (replicate 32 9))) (Str ''m'') = Inr s \<and>
        verify demo_noble (kp_pub (genIdentityKeypair demo_noble (replicate 32 9))) (Str ''m'') s)"
  using sign_verify [OF noble_ok_demo, of "replicate 32 9" "Str ''m''"] by simp

lemma sep_inj:
  assumes "c \<notin> set x" "c \<notin> set y"
  shows "x @ c # r = y @ c # r' \<longleftrightarrow> x = y \<and> r = r'"
  using assms by (induction x arbitrary: y) (case_tac y; auto)+

text \<open>The coherence root binds all four shard roots: equal roots over parts that hold no separator
  come from equal parts, unless the two hashed texts collide.\<close>

lemma coherence_root_binding:
  assumes "noble_ok lib" "coherenceRoot lib r = coherenceRoot lib r'"
    and "CHR ''|'' \<notin> set (sr_evm r @ sr_btc r @ sr_ipfs r @ sr_evm r' @ sr_btc r' @ sr_ipfs r')"
  shows "r = r' \<or> collision_in lib [utf8 (coherence_text r)] [utf8 (coherence_text r')]"
proof -
  have "coherence_text r = coherence_text r' \<Longrightarrow> r = r'"
    using assms(3) by (cases r; cases r') (simp add: coherence_text_def sep_inj)
  moreover have "coherence_text r = coherence_text r' \<or>
      collision_in lib [utf8 (coherence_text r)] [utf8 (coherence_text r')]"
    using assms(1,2) sha256hex_inj [OF assms(1)] by (fastforce simp: coherenceRoot_def hash_simps)
  ultimately show ?thesis by blast
qed

lemma coherence_root_binding_witness:
  "\<exists>r r'. coherenceRoot demo_noble r = coherenceRoot demo_noble r' \<and> r \<noteq> r' \<and>
     collision_in demo_noble [utf8 (coherence_text r)] [utf8 (coherence_text r')]"
proof -
  let ?r = "\<lambda>x. \<lparr>sr_evm = replicate 40 CHR ''a'', sr_btc = ''00'', sr_ipfs = x, sr_sleeves = ''cc''\<rparr>"
  have eq: "coherenceRoot demo_noble (?r ''bb'') = coherenceRoot demo_noble (?r ''bc'')"
    by (simp add: coherenceRoot_def sha256hex_def sha256_def coherence_text_def demo_noble_def
        pad32_def utf8_def utf8_char_def eval_nat_numeral)
  from coherence_root_binding [OF noble_ok_demo eq]
  have "collision_in demo_noble [utf8 (coherence_text (?r ''bb''))] [utf8 (coherence_text (?r ''bc''))]"
    by simp
  with eq show ?thesis by (intro exI [of _ "?r ''bb''"] exI [of _ "?r ''bc''"]) simp
qed

end
