(* ===== verification/Grammar.thy ===== *)
theory Grammar
  imports JsString "HOL-Library.Multiset"
begin

text \<open>
  \<^verbatim>\<open>packages/semantic-address/src/grammar.ts\<close>: the five facets, the canonical text of a grammar and the
  keyword heuristics that turn a description into a grammar.
\<close>

subsection \<open>Definitions\<close>

datatype facet = Domain | Entity | Relation | Temporal | Qualifier

definition FACET_ORDER :: "facet list" where
  "FACET_ORDER = [Domain, Entity, Relation, Temporal, Qualifier]"

fun facet_name :: "facet \<Rightarrow> string" where
  "facet_name Domain = ''domain''"
| "facet_name Entity = ''entity''"
| "facet_name Relation = ''relation''"
| "facet_name Temporal = ''temporal''"
| "facet_name Qualifier = ''qualifier''"

text \<open>A facet holds one string or an array of strings; an absent property is \<^const>\<open>None\<close>.\<close>

datatype facet_value = One string | Many "string list"

record grammar =
  g_domain :: "facet_value option"
  g_entity :: "facet_value option"
  g_relation :: "facet_value option"
  g_temporal :: "facet_value option"
  g_qualifier :: "facet_value option"

definition empty_grammar :: grammar where
  "empty_grammar = \<lparr>g_domain = None, g_entity = None, g_relation = None, g_temporal = None,
     g_qualifier = None\<rparr>"

fun get_facet :: "grammar \<Rightarrow> facet \<Rightarrow> facet_value option" where
  "get_facet g Domain = g_domain g"
| "get_facet g Entity = g_entity g"
| "get_facet g Relation = g_relation g"
| "get_facet g Temporal = g_temporal g"
| "get_facet g Qualifier = g_qualifier g"

definition norm_value :: "string \<Rightarrow> string" where
  "norm_value v = collapse (trim (toLowerCase v))"

fun facet_values :: "facet_value \<Rightarrow> string list" where
  "facet_values (One v) = [v]"
| "facet_values (Many vs) = vs"

definition norm_values :: "facet_value \<Rightarrow> string list" where
  "norm_values raw = sort (filter (\<lambda>v. 0 < length v) (map norm_value (facet_values raw)))"

text \<open>The text \<open>facet=v1,v2\<close> of a present facet, \<^const>\<open>None\<close> where the loop goes on without one.\<close>

definition facet_text :: "grammar \<Rightarrow> facet \<Rightarrow> string option" where
  "facet_text g f =
     (case get_facet g f of
        None \<Rightarrow> None
      | Some raw \<Rightarrow>
          (if norm_values raw = [] then None
           else Some (facet_name f @ ''='' @ join '','' (norm_values raw))))"

definition normalize :: "grammar \<Rightarrow> string \<times> nat" where
  "normalize g = (let parts = List.map_filter (facet_text g) FACET_ORDER in (join ''>'' parts, length parts))"

subsection \<open>Descriptions\<close>

text \<open>\<open>\b(a|b|...)\w*\<close> and \<open>\b(a|b|...)\b\<close>, tested on a lower-case text.\<close>

definition stem_re :: "jsre \<Rightarrow> jsre" where
  "stem_re r = RSeq RWordB (RSeq r (RStar is_word))"

definition word_re :: "jsre \<Rightarrow> jsre" where
  "word_re r = RSeq RWordB (RSeq r RWordB)"

definition domainPatterns :: "(jsre \<times> string) list" where
  "domainPatterns =
    [(stem_re (RAlt [''reason'', ''think'', ''logic'', ''infer'', ''deduc'', ''plan'']), ''reasoning''),
     (stem_re (RAlt [''convers'', ''chat'', ''discuss'', ''talk'', ''said'', ''spoke'']), ''conversation''),
     (stem_re (RAlt [''percei'', ''sens'', ''observ'', ''detect'', ''see'', ''hear'', ''feel'']), ''perception''),
     (stem_re (RAlt [''act'', ''do'', ''execut'', ''perform'', ''run'', ''operat'']), ''action''),
     (stem_re (RAlt [''learn'', ''train'', ''adapt'', ''improv'', ''updat'']), ''learning''),
     (stem_re (RAlt [''store'', ''save'', ''remember'', ''record'', ''log'']), ''storage''),
     (stem_re (RAlt [''retriev'', ''recall'', ''fetch'', ''find'', ''search'', ''look'']), ''retrieval''),
     (stem_re (RAlt [''navigat'', ''route'', ''path'', ''direct'', ''locat'']), ''navigation''),
     (stem_re (RAlt [''emotion'', ''feel'', ''mood'', ''sentiment'']), ''affect''),
     (stem_re (RAlt [''goal'', ''intent'', ''want'', ''need'', ''desire'', ''objective'']), ''goal'')]"

definition relationPatterns :: "(jsre \<times> string) list" where
  "relationPatterns =
    [(stem_re (RAlt [''caus'', ''led to'', ''result'', ''because'', ''due to'']), ''caused-by''),
     (stem_re (RAlt [''contain'', ''include'', ''has'', ''with'']), ''contains''),
     (stem_re (RAlt [''depend'', ''require'', ''need'']), ''depends-on''),
     (stem_re (RAlt [''contradict'', ''conflict'', ''oppos'']), ''contradicts''),
     (stem_re (RAlt [''support'', ''confirm'', ''agree'', ''validat'']), ''supports''),
     (stem_re (RAlt [''relat'', ''connect'', ''link'', ''associat'']), ''associated-with''),
     (stem_re (RAlt [''preced'', ''before'', ''prior'', ''earlier'']), ''precedes''),
     (stem_re (RAlt [''follow'', ''after'', ''subsequent'', ''later'']), ''follows'')]"

definition temporalPatterns :: "(jsre \<times> string) list" where
  "temporalPatterns =
    [(word_re (RAlt [''now'', ''current'', ''present'', ''immediate'', ''just'']), ''immediate''),
     (stem_re (RAlt [''recent'', ''lately'', ''latest'', ''last'', ''just now'']), ''recent''),
     (word_re (RAlt [''today'', ''this session'']), ''session''),
     (word_re (RAlt [''yesterday'', ''last time'', ''previous'']), ''prior-session''),
     (word_re (RAlt [''old'', ''ancient'', ''long ago'', ''historical'']), ''historical''),
     (word_re (RAlt [''always'', ''permanent'', ''forever'', ''persistent'']), ''permanent'')]"

text \<open>The dot of \<open>high.?pri\<close> matches anything but a line terminator.\<close>

definition qualifierPatterns :: "(jsre \<times> string) list" where
  "qualifierPatterns =
    [(stem_re (ROr (RAlt [''urgent'', ''critical'', ''important''])
        (RSeq (RLit ''high'') (RSeq (ROpt (RTimes 1 (\<lambda>c. code c \<noteq> 10 \<and> code c \<noteq> 13))) (RLit ''pri'')))),
      ''high-priority''),
     (word_re (RAlt [''uncertain'', ''maybe'', ''possibly'', ''might'']), ''uncertain''),
     (word_re (RAlt [''confirmed'', ''certain'', ''definite'', ''verified'']), ''confirmed''),
     (word_re (RAlt [''private'', ''secret'', ''sensitive'', ''personal'']), ''private''),
     (word_re (RAlt [''shared'', ''public'', ''common'', ''global'']), ''shared'')]"

definition entity_re :: jsre where
  "entity_re = RSeq RWordB (RSeq
     (RAlt [''about'', ''regarding'', ''concerning'', ''with'', ''from'', ''by'']) (RPlus is_space))"

text \<open>\<open>for (const [pat, rel] of patterns) if (pat.test(lower)) { ...; break; }\<close>\<close>

fun first_match :: "(jsre \<times> string) list \<Rightarrow> string \<Rightarrow> string option" where
  "first_match [] s = None"
| "first_match ((r, name) # ps) s = (if re_test r s then Some name else first_match ps s)"

definition all_matches :: "(jsre \<times> string) list \<Rightarrow> string \<Rightarrow> string list" where
  "all_matches ps s = map snd (filter (\<lambda>(r, _). re_test r s) ps)"

definition parseDescription :: "string \<Rightarrow> grammar" where
  "parseDescription text =
     (let lower = trim (toLowerCase text);
          domains = all_matches domainPatterns lower
      in \<lparr>g_domain = (case domains of [] \<Rightarrow> None | [d] \<Rightarrow> Some (One d) | _ \<Rightarrow> Some (Many domains)),
          g_entity = map_option One (re_capture entity_re (RPlus (\<lambda>c. \<not> is_space c)) lower),
          g_relation = map_option One (first_match relationPatterns lower),
          g_temporal = map_option One (first_match temporalPatterns lower),
          g_qualifier = map_option One (first_match qualifierPatterns lower)\<rparr>)"

subsection \<open>Canonical form\<close>

lemma toLowerCase_idem [simp]: "toLowerCase (toLowerCase s) = toLowerCase s"
  by (simp add: toLowerCase_def)

text \<open>Normalising a value twice is normalising it once.\<close>

lemma norm_value_idem [simp]: "norm_value (norm_value v) = norm_value v"
proof -
  let ?t = "trim (toLowerCase v)"
  have "toLowerCase (norm_value v) = norm_value v"
    by (simp add: norm_value_def map_lower_collapse map_lower_trim)
  moreover have "trim (norm_value v) = norm_value v"
    by (simp add: norm_value_def trim_no_edge no_edge_collapse no_edge_trim)
  moreover have "collapse (norm_value v) = norm_value v"
    by (simp add: norm_value_def collapse_single_spaced single_spaced_collapse)
  ultimately show ?thesis by (simp add: norm_value_def)
qed

lemma norm_values_fixed: "v \<in> set (norm_values raw) \<Longrightarrow> norm_value v = v \<and> v \<noteq> []"
  by (auto simp: norm_values_def)

lemma norm_values_idem [simp]: "norm_values (Many (norm_values raw)) = norm_values raw"
proof -
  have "map norm_value (norm_values raw) = norm_values raw"
    using norm_values_fixed by (simp add: map_idI)
  moreover have "filter (\<lambda>v. 0 < length v) (norm_values raw) = norm_values raw"
    using norm_values_fixed by (auto intro!: filter_True)
  moreover have "sorted (norm_values raw)" by (simp add: norm_values_def)
  ultimately show ?thesis
    by (simp add: norm_values_def [of "Many (norm_values raw)"] sort_key_id_if_sorted)
qed

definition canonical :: "grammar \<Rightarrow> grammar" where
  "canonical g = (let c = map_option (\<lambda>raw. Many (norm_values raw)) in
     \<lparr>g_domain = c (g_domain g), g_entity = c (g_entity g), g_relation = c (g_relation g),
      g_temporal = c (g_temporal g), g_qualifier = c (g_qualifier g)\<rparr>)"

lemma get_facet_canonical: "get_facet (canonical g) f = map_option (\<lambda>raw. Many (norm_values raw)) (get_facet g f)"
  by (cases f) (simp_all add: canonical_def Let_def)

lemma facet_text_canonical [simp]: "facet_text (canonical g) f = facet_text g f"
  by (simp add: facet_text_def get_facet_canonical split: option.splits)

text \<open>What a facet says, order and repetition of the spelling aside: the bag of its normalised values.\<close>

definition facet_bag :: "grammar \<Rightarrow> facet \<Rightarrow> string multiset" where
  "facet_bag g f = (case get_facet g f of None \<Rightarrow> {#} | Some raw \<Rightarrow> mset (norm_values raw))"

lemma norm_values_sorted [simp]: "sorted (norm_values raw)"
  by (simp add: norm_values_def)

lemma norm_values_eq: "mset (norm_values a) = mset (norm_values b) \<Longrightarrow> norm_values a = norm_values b"
  by (metis norm_values_sorted properties_for_sort sorted_sort_id)

lemma facet_text_bag: "facet_bag g f = facet_bag g' f \<Longrightarrow> facet_text g f = facet_text g' f"
  by (auto simp: facet_bag_def facet_text_def split: option.splits dest: norm_values_eq)

lemma facet_text_None: "facet_text g f = None \<longleftrightarrow> facet_bag g f = {#}"
  by (auto simp: facet_bag_def facet_text_def split: option.splits)

lemma length_map_filter: "length (List.map_filter h xs) = length (filter (\<lambda>x. h x \<noteq> None) xs)"
  by (simp add: List.map_filter_def)

lemma normalize_depth:
  "snd (normalize g) = length (filter (\<lambda>f. facet_bag g f \<noteq> {#}) FACET_ORDER)"
  by (simp add: normalize_def Let_def length_map_filter facet_text_None)

lemma normalize_cong: "(\<And>f. facet_text g f = facet_text g' f) \<Longrightarrow> normalize g = normalize g'"
  by (simp add: normalize_def List.map_filter_def cong: filter_cong map_cong)

text \<open>\<open>normalize\<close> depends on nothing but the bag of normalised values of each facet, so neither
  the order of the values, nor case, nor white space, nor empty values matter; its depth counts the facets
  that say something; and writing the canonical values back changes nothing.\<close>

lemma normalize_canonical:
  assumes "\<And>f. facet_bag g f = facet_bag g' f"
  shows "normalize g = normalize g' \<and> normalize (canonical g) = normalize g \<and>
    snd (normalize g) = length (filter (\<lambda>f. facet_bag g f \<noteq> {#}) FACET_ORDER)"
  using facet_text_bag [OF assms]
  by (auto intro: normalize_cong simp: normalize_depth)

lemma sample_same_bags:
  "facet_bag (empty_grammar\<lparr>g_domain := Some (Many [''Plan  B '', '''', ''act'']), g_qualifier := Some (One '' '')\<rparr>) f =
   facet_bag (empty_grammar\<lparr>g_domain := Some (Many ['' ACT'', ''plan b''])\<rparr>) f"
proof -
  have "norm_values (Many [''Plan  B '', '''', ''act'']) = [''act'', ''plan b'']"
    "norm_values (Many ['' ACT'', ''plan b'']) = [''act'', ''plan b'']"
    "norm_values (One '' '') = []"
    by code_simp+
  then show ?thesis by (cases f) (simp_all add: facet_bag_def empty_grammar_def)
qed

lemma normalize_canonical_witness:
  "normalize (empty_grammar\<lparr>g_domain := Some (Many [''Plan  B '', '''', ''act'']), g_qualifier := Some (One '' '')\<rparr>) =
   normalize (empty_grammar\<lparr>g_domain := Some (Many ['' ACT'', ''plan b''])\<rparr>)"
  using normalize_canonical [OF sample_same_bags] by simp

subsection \<open>What the description parser finds\<close>

lemma first_match_in: "first_match ps s = Some n \<Longrightarrow> n \<in> set (map snd ps)"
  by (induction ps s rule: first_match.induct) (auto split: if_splits)

lemma all_matches_in: "set (all_matches ps s) \<subseteq> set (map snd ps)"
  by (auto simp: all_matches_def)

lemma re_match_ahead: "st' \<in> set (re_match r st) \<Longrightarrow> set (snd st') \<subseteq> set (snd st)"
proof (induction r arbitrary: st st')
  case (RSeq r q)
  from RSeq.prems obtain m where "m \<in> set (re_match r st)" "st' \<in> set (re_match q m)" by auto
  with RSeq.IH show ?case by (meson subset_trans)
next
  case (ROr r q)
  from ROr.prems have "st' \<in> set (re_match r st) \<or> st' \<in> set (re_match q st)" by simp
  with ROr.IH show ?case by blast
next
  case (ROpt r)
  from ROpt.prems have "st' \<in> set (re_match r st) \<or> st' = st" by auto
  with ROpt.IH show ?case by blast
qed (auto simp: advance_def split: if_splits dest: in_set_dropD)

lemma case_list_Some: "(case xs of [] \<Rightarrow> None | g # _ \<Rightarrow> Some g) = Some h \<Longrightarrow> h \<in> set xs"
  by (cases xs) auto

lemma re_capture_plus:
  assumes "re_capture r (RPlus p) s = Some g"
  shows "g \<noteq> [] \<and> list_all p g \<and> set g \<subseteq> set s"
proof -
  let ?all = "concat (map (\<lambda>i. concat (map (\<lambda>st. map (\<lambda>st'. take (length (snd st) - length (snd st')) (snd st))
          (re_match (RPlus p) st)) (re_match r (at_pos s i)))) [0..<length s + 1])"
  have "g \<in> set ?all"
    using assms unfolding re_capture_def by (rule case_list_Some)
  then obtain i st st' where m: "st \<in> set (re_match r (at_pos s i))" "st' \<in> set (re_match (RPlus p) st)"
    "g = take (length (snd st) - length (snd st')) (snd st)"
    by (auto simp del: re_match.simps)
  obtain pre u where st: "st = (pre, u)" by (cases st)
  obtain pre' t where st': "st' = (pre', t)" by (cases st')
  from m(2) obtain w where "u = w @ t" "w \<noteq> []" "list_all p w"
    unfolding st st' re_plus by blast
  moreover from this m(3) have "g = w" by (simp add: st st')
  moreover have "set u \<subseteq> set s"
    using re_match_ahead [OF m(1)] by (auto simp: st at_pos_def dest: in_set_dropD)
  ultimately show ?thesis by auto
qed

text \<open>The names the parser gives, and that each of them is already in normal form.\<close>

definition vocabulary :: "string list" where
  "vocabulary = map snd (domainPatterns @ relationPatterns @ temporalPatterns @ qualifierPatterns)"

lemma vocabulary_normal: "list_all (\<lambda>v. norm_value v = v \<and> v \<noteq> []) vocabulary"
  by code_simp

lemma vocabulary_value: "v \<in> set vocabulary \<Longrightarrow> norm_value v = v \<and> v \<noteq> []"
  using vocabulary_normal by (auto simp: list_all_iff)

lemma no_space_normal:
  assumes "list_all (\<lambda>c. \<not> is_space c) g" "toLowerCase g = g"
  shows "norm_value g = g"
proof -
  have "no_edge_space g"
    using assms(1) by (auto simp: no_edge_space_def list_all_iff)
  moreover have "single_spaced g"
    using assms(1) by (induction g) (auto simp: single_spaced_Cons)
  ultimately show ?thesis
    using assms(2) by (simp add: norm_value_def trim_no_edge collapse_single_spaced)
qed

lemma lower_set: "set g \<subseteq> set (toLowerCase s) \<Longrightarrow> toLowerCase g = g"
  by (auto simp: toLowerCase_def intro!: map_idI)

lemma entity_value:
  assumes "re_capture entity_re (RPlus (\<lambda>c. \<not> is_space c)) (trim (toLowerCase text)) = Some g"
  shows "norm_value g = g \<and> g \<noteq> []"
proof -
  from re_capture_plus [OF assms] have g: "g \<noteq> []" "list_all (\<lambda>c. \<not> is_space c) g"
    "set g \<subseteq> set (toLowerCase (trim text))" by (simp_all add: map_lower_trim)
  with no_space_normal lower_set show ?thesis by blast
qed

lemma names_in_vocabulary:
  "first_match relationPatterns s = Some v \<Longrightarrow> v \<in> set vocabulary"
  "first_match temporalPatterns s = Some v \<Longrightarrow> v \<in> set vocabulary"
  "first_match qualifierPatterns s = Some v \<Longrightarrow> v \<in> set vocabulary"
  "v \<in> set (all_matches domainPatterns s) \<Longrightarrow> v \<in> set vocabulary"
  using first_match_in [of _ s v] all_matches_in [of domainPatterns s] unfolding vocabulary_def
  by (auto simp del: set_map) 

lemma parsed_domain:
  "g_domain (parseDescription text) = Some raw \<Longrightarrow>
   facet_values raw \<noteq> [] \<and> set (facet_values raw) \<subseteq> set (all_matches domainPatterns (trim (toLowerCase text)))"
  by (auto simp: parseDescription_def Let_def split: list.splits)

lemma parsed_values:
  assumes "get_facet (parseDescription text) f = Some raw"
  shows "facet_values raw \<noteq> [] \<and> list_all (\<lambda>v. norm_value v = v \<and> v \<noteq> []) (facet_values raw)"
proof (cases f)
  case Domain
  with assms have "g_domain (parseDescription text) = Some raw" by simp
  from parsed_domain [OF this] show ?thesis
    by (auto simp: list_all_iff dest!: names_in_vocabulary(4) vocabulary_value dest: subsetD)
next
  case Entity
  with assms entity_value show ?thesis by (auto simp: parseDescription_def Let_def)
qed (use assms in \<open>auto simp: parseDescription_def Let_def
       dest: names_in_vocabulary(1-3) dest!: vocabulary_value\<close>)

lemma normal_values_kept:
  "list_all (\<lambda>v. norm_value v = v \<and> v \<noteq> []) (facet_values raw) \<Longrightarrow> norm_values raw = sort (facet_values raw)"
proof -
  assume a: "list_all (\<lambda>v. norm_value v = v \<and> v \<noteq> []) (facet_values raw)"
  then have "map norm_value (facet_values raw) = facet_values raw"
    by (auto simp: list_all_iff intro!: map_idI)
  moreover have "filter (\<lambda>v. 0 < length v) (facet_values raw) = facet_values raw"
    using a by (auto simp: list_all_iff intro!: filter_True)
  ultimately show ?thesis by (simp add: norm_values_def)
qed

lemma sort_is_Nil [simp]: "sort (xs :: string list) = [] \<longleftrightarrow> xs = []"
  by (metis length_0_conv length_sort)

lemma parsed_facet_bag:
  "facet_bag (parseDescription text) f = {#} \<longleftrightarrow> get_facet (parseDescription text) f = None"
  by (auto simp: facet_bag_def normal_values_kept parsed_values split: option.splits dest: parsed_values)

text \<open>The parser ignores case and white space around the description, and \<open>normalize\<close> takes what
  it finds as it is: every facet the parser sets counts for the depth, and its values are in normal form
  already, only sorted.\<close>

lemma parse_description_normal:
  "parseDescription (trim (toLowerCase text)) = parseDescription text \<and>
   snd (normalize (parseDescription text)) =
     length (filter (\<lambda>f. get_facet (parseDescription text) f \<noteq> None) FACET_ORDER) \<and>
   (case get_facet (parseDescription text) f of None \<Rightarrow> facet_text (parseDescription text) f = None
    | Some raw \<Rightarrow> facet_text (parseDescription text) f =
        Some (facet_name f @ ''='' @ join '','' (sort (facet_values raw))))"
proof (intro conjI)
  have "trim (toLowerCase (trim (toLowerCase text))) = trim (toLowerCase text)"
    by (simp add: map_lower_trim trim_no_edge no_edge_trim)
  then show "parseDescription (trim (toLowerCase text)) = parseDescription text"
    by (simp add: parseDescription_def)
  show "snd (normalize (parseDescription text)) =
     length (filter (\<lambda>f. get_facet (parseDescription text) f \<noteq> None) FACET_ORDER)"
    by (simp add: normalize_depth parsed_facet_bag)
qed (auto simp: facet_text_def normal_values_kept parsed_values split: option.splits dest: parsed_values)

end
