(* ===== verification/Address.thy ===== *)
theory Address
  imports Grammar Merkle
begin

text \<open>
  \<^verbatim>\<open>packages/semantic-address/src/address.ts\<close> and \<^verbatim>\<open>derive.ts\<close>: 32-byte addresses with five four-byte
  facet segments, a depth byte and an eleven-byte content fingerprint; prefixes, matching and distance.
  \<open>Uint8Array\<close>s are byte lists; a \<open>RangeError\<close> or \<open>Error\<close> is the left value of the result.
\<close>

subsection \<open>Addresses\<close>

record semantic_address =
  sa_bytes :: bytes

record partial_address =
  pa_bytes :: bytes
  pa_depth :: nat
  pa_facets :: "string list"
  pa_hex :: string

definition mk_address :: "bytes \<Rightarrow> semantic_address result" where
  "mk_address bs =
     (if length bs \<noteq> 32 then Inl (''SemanticAddress must be 32 bytes, got '' @ dec (length bs))
      else Inr \<lparr>sa_bytes = bs\<rparr>)"

definition depth :: "semantic_address \<Rightarrow> nat" where
  "depth a = unat (and (sa_bytes a ! 20) 0x0f)"

definition segment :: "semantic_address \<Rightarrow> int \<Rightarrow> bytes result" where
  "segment a level =
     (if level < 0 \<or> 5 \<le> level then Inl ''Level must be 0-4''
      else Inr (take 4 (drop (nat level * 4) (sa_bytes a))))"

definition prefix_bytes :: "semantic_address \<Rightarrow> int \<Rightarrow> bytes result" where
  "prefix_bytes a d =
     (if d < 1 \<or> 5 < d then Inl ''Depth must be 1-5'' else Inr (take (nat d * 4) (sa_bytes a)))"

definition toHex :: "semantic_address \<Rightarrow> string" where
  "toHex a = hex_of (sa_bytes a)"

text \<open>The loop of \<open>toShortString\<close> calls \<open>segment(i)\<close> for \<open>i\<close> below the depth and below 5.\<close>

definition short_segments :: "semantic_address \<Rightarrow> int \<Rightarrow> bytes list" where
  "short_segments a d =
     map (\<lambda>i. case segment a (int i) of Inl _ \<Rightarrow> [] | Inr s \<Rightarrow> s) [0..<nat (min d 5)]"

definition toShortString :: "semantic_address \<Rightarrow> int option \<Rightarrow> string" where
  "toShortString a d =
     join '':'' (map hex_of (short_segments a (case d of None \<Rightarrow> int (depth a) | Some n \<Rightarrow> n)))"

text \<open>The comparison loops; an index past the end reads \<open>undefined\<close>, which differs from every byte.\<close>

fun bytes_match :: "bytes \<Rightarrow> bytes \<Rightarrow> bool" where
  "bytes_match bs [] = True"
| "bytes_match [] (p # ps) = False"
| "bytes_match (b # bs) (p # ps) = (if b \<noteq> p then False else bytes_match bs ps)"

definition startsWith :: "semantic_address \<Rightarrow> partial_address \<Rightarrow> bool" where
  "startsWith a p =
     (if length (sa_bytes a) < length (pa_bytes p) then False
      else bytes_match (sa_bytes a) (pa_bytes p))"

definition prefixMatch :: "semantic_address \<Rightarrow> partial_address \<Rightarrow> bool" where
  "prefixMatch a p = (if pa_depth p = 0 then True else bytes_match (sa_bytes a) (pa_bytes p))"

text \<open>
  \<open>parseInt(s, 16)\<close> (\<^const>\<open>None\<close> for \<open>NaN\<close>): leading white space, a sign and \<open>0x\<close> are skipped, then
  the longest run of hexadecimal digits of either case counts.  Storing the number in a
  \<open>Uint8Array\<close> takes it modulo 256, and \<open>NaN\<close> as 0.
\<close>

definition hex_digit_value :: "char \<Rightarrow> nat option" where
  "hex_digit_value c = (let n = code c in
     if 48 \<le> n \<and> n \<le> 57 then Some (n - 48)
     else if 97 \<le> n \<and> n \<le> 102 then Some (n - 87)
     else if 65 \<le> n \<and> n \<le> 70 then Some (n - 55) else None)"

definition strip_sign :: "string \<Rightarrow> bool \<times> string" where
  "strip_sign s = (case s of [] \<Rightarrow> (False, [])
     | c # r \<Rightarrow> if c = CHR ''-'' then (True, r) else if c = CHR ''+'' then (False, r) else (False, s))"

definition strip_0x :: "string \<Rightarrow> string" where
  "strip_0x s = (if take 2 s = ''0x'' \<or> take 2 s = ''0X'' then drop 2 s else s)"

definition parseInt16 :: "string \<Rightarrow> int option" where
  "parseInt16 s = (let (neg, r) = strip_sign (dropWhile is_space s);
                       ds = takeWhile (\<lambda>c. hex_digit_value c \<noteq> None) (strip_0x r);
                       v = foldl (\<lambda>v c. 16 * v + int (the (hex_digit_value c))) 0 ds
     in if ds = [] then None else Some (if neg then - v else v))"

definition to_uint8 :: "int option \<Rightarrow> byte" where
  "to_uint8 n = (case n of None \<Rightarrow> 0 | Some i \<Rightarrow> word_of_int i)"

definition fromHex :: "string \<Rightarrow> semantic_address result" where
  "fromHex h =
     (if length h \<noteq> 64 then Inl (''Expected 64 hex chars, got '' @ dec (length h))
      else mk_address (map (\<lambda>i. to_uint8 (parseInt16 (take 2 (drop (i * 2) h)))) [0..<32]))"

subsection \<open>Deriving addresses\<close>

text \<open>\<open>dst.set(src, off)\<close> within the bounds of \<open>dst\<close>.\<close>

definition set_at :: "bytes \<Rightarrow> bytes \<Rightarrow> nat \<Rightarrow> bytes" where
  "set_at dst src off = take off dst @ src @ drop (off + length src) dst"

fun text_bytes :: "blob \<Rightarrow> bytes" where
  "text_bytes (Str s) = utf8 s"
| "text_bytes (Buf b) = b"

definition facet_hash :: "noble \<Rightarrow> string \<Rightarrow> bytes" where
  "facet_hash lib s = take 4 (n_sha256 lib (utf8 s))"

definition derive_step :: "noble \<Rightarrow> grammar \<Rightarrow> bytes \<times> nat \<Rightarrow> nat \<Rightarrow> bytes \<times> nat" where
  "derive_step lib g st i =
     (case facet_text g (FACET_ORDER ! i) of
        None \<Rightarrow> st
      | Some s \<Rightarrow> (set_at (fst st) (facet_hash lib s) (i * 4), i + 1))"

definition derive :: "noble \<Rightarrow> grammar \<Rightarrow> blob \<Rightarrow> semantic_address result" where
  "derive lib g content =
     (let (addr, d) = foldl (derive_step lib g) (replicate 32 0, 0) [0..<length FACET_ORDER];
          addr = addr[20 := and (word_of_nat d) 0x0f];
          addr = set_at addr (take 11 (n_sha256 lib (text_bytes content))) 21
      in mk_address addr)"

fun partial_segments :: "noble \<Rightarrow> grammar \<Rightarrow> facet list \<Rightarrow> (bytes \<times> string) list" where
  "partial_segments lib g [] = []"
| "partial_segments lib g (f # fs) =
     (case facet_text g f of
        None \<Rightarrow> []
      | Some s \<Rightarrow> (facet_hash lib s, facet_name f) # partial_segments lib g fs)"

definition place_segments :: "bytes list \<Rightarrow> bytes" where
  "place_segments segs =
     foldl (\<lambda>bs i. set_at bs (segs ! i) (i * 4)) (replicate (length segs * 4) 0) [0..<length segs]"

definition derivePartial :: "noble \<Rightarrow> grammar \<Rightarrow> partial_address" where
  "derivePartial lib g =
     (let ps = partial_segments lib g FACET_ORDER; bs = place_segments (map fst ps)
      in \<lparr>pa_bytes = bs, pa_depth = length ps, pa_facets = map snd ps, pa_hex = hex_of bs\<rparr>)"

subsection \<open>Distance\<close>

text \<open>\<open>while (n) { count += n & 1; n >>>= 1; }\<close> on 32-bit integers.\<close>

function popcount_loop :: "32 word \<Rightarrow> nat \<Rightarrow> nat" where
  "popcount_loop n cnt =
     (if n = 0 then cnt else popcount_loop (drop_bit 1 n) (cnt + unat (and n 1)))"
  by pat_completeness auto
termination
proof (relation "measure (\<lambda>(n, cnt). unat n)")
  fix n :: "32 word"
  assume "n \<noteq> 0"
  then show "((drop_bit 1 n, cnt + unat (and n 1)), n, cnt) \<in> measure (\<lambda>(n, cnt). unat n)" for cnt
    by (simp add: drop_bit_eq_div unat_div word_neq_0_conv unat_gt_0)
qed simp

declare popcount_loop.simps [simp del]

definition popcount :: "32 word \<Rightarrow> nat" where
  "popcount n = popcount_loop n 0"

definition prefixDistance :: "semantic_address \<Rightarrow> semantic_address \<Rightarrow> int \<Rightarrow> nat" where
  "prefixDistance a b d =
     foldl (\<lambda>dist i. dist + popcount (ucast (xor (sa_bytes a ! i) (sa_bytes b ! i)))) 0
       [0..<nat (min (d * 4) 20)]"

subsection \<open>The layout of a derived address\<close>

definition facet_seg :: "noble \<Rightarrow> grammar \<Rightarrow> nat \<Rightarrow> bytes" where
  "facet_seg lib g i =
     (case facet_text g (FACET_ORDER ! i) of None \<Rightarrow> replicate 4 0 | Some s \<Rightarrow> facet_hash lib s)"

definition filled :: "grammar \<Rightarrow> nat \<Rightarrow> nat list" where
  "filled g n = filter (\<lambda>i. facet_text g (FACET_ORDER ! i) \<noteq> None) [0..<n]"

lemma length_FACET_ORDER [simp]: "length FACET_ORDER = 5"
  by (simp add: FACET_ORDER_def)

lemma length_facet_hash [hash_simps]: "noble_ok lib \<Longrightarrow> length (facet_hash lib s) = 4"
  by (simp add: facet_hash_def hash_simps)

lemma length_facet_seg [hash_simps]: "noble_ok lib \<Longrightarrow> length (facet_seg lib g i) = 4"
  by (simp add: facet_seg_def hash_simps split: option.splits)

lemma set_at_zeros:
  "length xs = off \<Longrightarrow> length src \<le> m \<Longrightarrow>
   set_at (xs @ replicate m 0) src off = xs @ src @ replicate (m - length src) 0"
  by (simp add: set_at_def)

lemma length_concat4:
  "(\<And>x. x \<in> set xs \<Longrightarrow> length x = 4) \<Longrightarrow> length (concat xs) = 4 * length xs"
  by (induction xs) auto

lemma length_segs [hash_simps]:
  "noble_ok lib \<Longrightarrow> length (concat (map (facet_seg lib g) [0..<n])) = 4 * n"
  by (subst length_concat4) (auto simp: hash_simps)

lemma filled_Suc:
  "filled g (Suc n) = filled g n @ (if facet_text g (FACET_ORDER ! n) = None then [] else [n])"
  by (simp add: filled_def)

lemma derive_fold:
  assumes "noble_ok lib" "n \<le> 5"
  shows "foldl (derive_step lib g) (replicate 32 0, 0) [0..<n] =
    (concat (map (facet_seg lib g) [0..<n]) @ replicate (32 - 4 * n) 0,
     if filled g n = [] then 0 else last (filled g n) + 1)"
  using assms(2)
proof (induction n)
  case 0
  then show ?case by (simp add: filled_def)
next
  case (Suc n)
  let ?xs = "concat (map (facet_seg lib g) [0..<n])"
  have l: "length ?xs = n * 4" using assms(1) by (simp add: hash_simps)
  have r: "replicate (32 - 4 * n) (0::byte) = replicate 4 0 @ replicate (32 - 4 * Suc n) 0"
    using Suc.prems by (simp flip: replicate_add)
  show ?case
  proof (cases "facet_text g (FACET_ORDER ! n)")
    case None
    then have "facet_seg lib g n = replicate 4 0" by (simp add: facet_seg_def)
    with Suc r None show ?thesis by (simp add: derive_step_def filled_Suc)
  next
    case (Some s)
    have "set_at (?xs @ replicate (32 - 4 * n) 0) (facet_hash lib s) (n * 4) =
        ?xs @ facet_hash lib s @ replicate (32 - 4 * n - length (facet_hash lib s)) 0"
      using l Suc.prems assms(1) by (intro set_at_zeros) (simp_all add: hash_simps)
    moreover have "facet_seg lib g n = facet_hash lib s" using Some by (simp add: facet_seg_def)
    ultimately show ?thesis using Suc Some assms(1) by (simp add: derive_step_def filled_Suc hash_simps)
  qed
qed

definition top_level :: "grammar \<Rightarrow> nat" where
  "top_level g = (if filled g 5 = [] then 0 else last (filled g 5) + 1)"

lemma top_level_le: "top_level g \<le> 5"
proof -
  have "filled g 5 \<noteq> [] \<Longrightarrow> last (filled g 5) \<in> set (filled g 5)" by (rule last_in_set)
  then show ?thesis by (auto simp: top_level_def filled_def)
qed

lemma finish_address:
  assumes "length xs = 20" "length fp = 11"
  shows "set_at ((xs @ replicate 12 0)[20 := d]) fp 21 = xs @ d # fp"
proof -
  have "(replicate 12 0)[0 := d] = d # replicate 11 0" by (simp add: eval_nat_numeral)
  with assms have "(xs @ replicate 12 0)[20 := d] = (xs @ [d]) @ replicate 11 0"
    by (simp add: list_update_append)
  with set_at_zeros [of "xs @ [d]" 21 fp 11] assms show ?thesis by simp
qed

lemma derive_bytes:
  assumes "noble_ok lib"
  shows "derive lib g c = Inr \<lparr>sa_bytes = concat (map (facet_seg lib g) [0..<5]) @
     word_of_nat (top_level g) # take 11 (n_sha256 lib (text_bytes c))\<rparr>"
proof -
  let ?xs = "concat (map (facet_seg lib g) [0..<5])"
  let ?d = "word_of_nat (top_level g) :: byte"
  have l: "length ?xs = 20" using assms by (simp add: hash_simps)
  have "top_level g = 0 \<or> top_level g = 1 \<or> top_level g = 2 \<or> top_level g = 3 \<or> top_level g = 4 \<or> top_level g = 5"
    using top_level_le [of g] by linarith
  then have d: "and ?d 0x0f = ?d" by auto
  have "set_at ((?xs @ replicate 12 0)[20 := ?d]) (take 11 (n_sha256 lib (text_bytes c))) 21 =
      ?xs @ ?d # take 11 (n_sha256 lib (text_bytes c))"
    using l assms by (intro finish_address) (simp_all add: hash_simps)
  with derive_fold [OF assms, of 5 g] d l assms show ?thesis
    by (simp add: derive_def mk_address_def top_level_def hash_simps)
qed

lemma take4_concat:
  "(\<And>x. x \<in> set xs \<Longrightarrow> length x = 4) \<Longrightarrow> i < length xs \<Longrightarrow> take 4 (drop (i * 4) (concat xs @ r)) = xs ! i"
proof (induction xs arbitrary: i)
  case (Cons x xs)
  then have "length x = 4" by simp
  with Cons show ?case by (cases i) simp_all
qed simp

lemma derived_depth:
  assumes "noble_ok lib" "derive lib g c = Inr a"
  shows "depth a = top_level g"
proof -
  have "length (concat (map (facet_seg lib g) [0..<5])) = 20" using assms(1) by (simp add: hash_simps)
  then have "sa_bytes a ! 20 = word_of_nat (top_level g)"
    using assms by (auto simp: derive_bytes nth_append)
  moreover have "top_level g = 0 \<or> top_level g = 1 \<or> top_level g = 2 \<or> top_level g = 3 \<or> top_level g = 4 \<or> top_level g = 5"
    using top_level_le [of g] by linarith
  ultimately show ?thesis by (auto simp: depth_def)
qed

text \<open>C12: deriving an address never fails; it has 32 bytes, segment \<open>i\<close> is the truncated digest of the
  text of facet \<open>i\<close> (zeros where the facet says nothing), the depth is one more than the highest facet
  that says something, and the last eleven bytes are the fingerprint of the content.\<close>

theorem derive_layout:
  assumes "noble_ok lib" "i < 5"
  shows "\<exists>a. derive lib g c = Inr a \<and> length (sa_bytes a) = 32 \<and>
     segment a (int i) = Inr (facet_seg lib g i) \<and> depth a = top_level g \<and>
     drop 21 (sa_bytes a) = take 11 (n_sha256 lib (text_bytes c))"
proof -
  obtain a where a: "derive lib g c = Inr a" "sa_bytes a = concat (map (facet_seg lib g) [0..<5]) @
     word_of_nat (top_level g) # take 11 (n_sha256 lib (text_bytes c))"
    using derive_bytes [OF assms(1), of g c] by (metis semantic_address.select_convs(1))
  have l: "length (concat (map (facet_seg lib g) [0..<5])) = 20" using assms(1) by (simp add: hash_simps)
  have "segment a (int i) = Inr (map (facet_seg lib g) [0..<5] ! i)"
    using assms unfolding segment_def a(2)
    by (subst take4_concat) (auto simp: hash_simps)
  moreover have "drop 21 (sa_bytes a) = take 11 (n_sha256 lib (text_bytes c))"
    using l unfolding a(2) by (simp only: drop_append) simp
  moreover have "length (sa_bytes a) = 32" using l assms(1) by (simp add: a(2) hash_simps)
  ultimately show ?thesis using a(1) derived_depth [OF assms(1) a(1)] assms(2)
    by (intro exI [of _ a]) (simp del: upt_Suc)
qed

theorem derive_layout_witness:
  "\<exists>a. derive demo_noble (empty_grammar\<lparr>g_relation := Some (One ''Follows'')\<rparr>) (Str ''rain'') = Inr a \<and>
     length (sa_bytes a) = 32 \<and> segment a 2 = Inr (utf8 ''rela'') \<and> depth a = 3"
proof -
  let ?g = "empty_grammar\<lparr>g_relation := Some (One ''Follows'')\<rparr>"
  have "facet_seg demo_noble ?g 2 = utf8 ''rela''" by code_simp
  moreover have "top_level ?g = 3" by code_simp
  ultimately show ?thesis
    using derive_layout [OF noble_ok_demo, of 2 ?g "Str ''rain''"] by auto
qed

subsection \<open>Partial addresses and matching\<close>

lemma bytes_match_prefix: "bytes_match bs ps \<longleftrightarrow> prefix ps bs"
  by (induction bs ps rule: bytes_match.induct) auto

lemma prefix_concat4:
  "(\<And>x. x \<in> set xs \<union> set ys \<Longrightarrow> length x = 4) \<Longrightarrow> length xs \<le> length ys \<Longrightarrow>
   prefix (concat xs) (concat ys @ r) \<longleftrightarrow> xs = take (length xs) ys"
proof (induction xs arbitrary: ys)
  case (Cons x xs)
  then obtain y ys' where [simp]: "ys = y # ys'" by (cases ys) auto
  have "length x = length y" using Cons.prems(1) [of x] Cons.prems(1) [of y] by simp
  then have "prefix (x @ concat xs) (y @ concat ys' @ r) \<longleftrightarrow> x = y \<and> prefix (concat xs) (concat ys' @ r)"
    by (auto simp: prefix_def)
  with Cons show ?case by simp
qed simp

lemma place_segments_concat:
  assumes "\<And>s. s \<in> set segs \<Longrightarrow> length s = 4"
  shows "place_segments segs = concat segs"
proof -
  have "n \<le> length segs \<Longrightarrow>
    foldl (\<lambda>bs i. set_at bs (segs ! i) (i * 4)) (replicate (length segs * 4) 0) [0..<n] =
    concat (take n segs) @ replicate ((length segs - n) * 4) 0" for n
  proof (induction n)
    case (Suc n)
    have l: "length (concat (take n segs)) = n * 4"
      using Suc.prems assms by (subst length_concat4) (auto dest: in_set_takeD)
    have "length (segs ! n) = 4" using Suc.prems assms by simp
    with l Suc.prems have "set_at (concat (take n segs) @ replicate ((length segs - n) * 4) 0) (segs ! n) (n * 4) =
        concat (take n segs) @ segs ! n @ replicate ((length segs - n) * 4 - 4) 0"
      by (subst set_at_zeros) auto
    moreover have "(length segs - n) * 4 - 4 = (length segs - Suc n) * 4"
      using Suc.prems by (simp add: diff_mult_distrib)
    ultimately show ?case using Suc by (simp add: take_Suc_conv_app_nth)
  qed simp
  then show ?thesis by (simp add: place_segments_def)
qed

text \<open>How many leading facets say something, and the segments a query consists of.\<close>

definition lead :: "grammar \<Rightarrow> nat" where
  "lead g = length (takeWhile (\<lambda>f. facet_text g f \<noteq> None) FACET_ORDER)"

lemma lead_le: "lead g \<le> 5"
  using length_takeWhile_le [of "\<lambda>f. facet_text g f \<noteq> None" FACET_ORDER] by (simp add: lead_def)

lemma lead_present: "i < lead g \<Longrightarrow> facet_text g (FACET_ORDER ! i) \<noteq> None"
proof -
  assume i: "i < lead g"
  then have "takeWhile (\<lambda>f. facet_text g f \<noteq> None) FACET_ORDER ! i \<in> set (takeWhile (\<lambda>f. facet_text g f \<noteq> None) FACET_ORDER)"
    by (simp add: lead_def)
  with takeWhile_nth [OF i [unfolded lead_def]] show ?thesis by (auto dest: set_takeWhileD)
qed

lemma partial_segments_takeWhile:
  "partial_segments lib g fs =
   map (\<lambda>f. (facet_hash lib (the (facet_text g f)), facet_name f)) (takeWhile (\<lambda>f. facet_text g f \<noteq> None) fs)"
  by (induction fs) (auto split: option.splits)

lemma derivePartial_bytes:
  assumes "noble_ok lib"
  shows "pa_bytes (derivePartial lib g) = concat (map (facet_seg lib g) [0..<lead g])"
    and "pa_depth (derivePartial lib g) = lead g"
    and "pa_hex (derivePartial lib g) = hex_of (pa_bytes (derivePartial lib g))"
proof -
  let ?ps = "partial_segments lib g FACET_ORDER"
  have n: "length ?ps = lead g" by (simp add: partial_segments_takeWhile lead_def)
  have "map fst ?ps = map (facet_seg lib g) [0..<lead g]"
  proof (rule nth_equalityI)
    fix i assume "i < length (map fst ?ps)"
    then have i: "i < lead g" using n by simp
    then have "takeWhile (\<lambda>f. facet_text g f \<noteq> None) FACET_ORDER ! i = FACET_ORDER ! i"
      unfolding lead_def by (rule takeWhile_nth)
    with i lead_present [OF i] show "map fst ?ps ! i = map (facet_seg lib g) [0..<lead g] ! i"
      by (auto simp: partial_segments_takeWhile facet_seg_def lead_def)
  qed (use n in simp)
  then have "place_segments (map fst ?ps) = concat (map (facet_seg lib g) [0..<lead g])"
    using assms by (subst place_segments_concat) (auto simp: hash_simps)
  with n show "pa_bytes (derivePartial lib g) = concat (map (facet_seg lib g) [0..<lead g])"
    and "pa_depth (derivePartial lib g) = lead g"
    and "pa_hex (derivePartial lib g) = hex_of (pa_bytes (derivePartial lib g))"
    by (simp_all add: derivePartial_def Let_def)
qed

lemma segs_prefix:
  assumes "noble_ok lib" "n \<le> 5"
  shows "prefix (concat (map (facet_seg lib q) [0..<n])) (concat (map (facet_seg lib g) [0..<5]) @ r) \<longleftrightarrow>
         (\<forall>i<n. facet_seg lib g i = facet_seg lib q i)"
proof -
  have "take n [0..<5] = [0..<n]" using assms(2) by (simp add: take_upt)
  moreover have "prefix (concat (map (facet_seg lib q) [0..<n])) (concat (map (facet_seg lib g) [0..<5]) @ r) \<longleftrightarrow>
      map (facet_seg lib q) [0..<n] = take (length (map (facet_seg lib q) [0..<n])) (map (facet_seg lib g) [0..<5])"
    using assms by (intro prefix_concat4) (auto simp: hash_simps)
  ultimately show ?thesis by (auto simp: take_map simp del: upt_Suc)
qed

lemma match_partial:
  assumes "noble_ok lib" "derive lib g c = Inr a"
  shows "prefixMatch a (derivePartial lib q) \<longleftrightarrow> (\<forall>i<lead q. facet_seg lib g i = facet_seg lib q i)"
proof -
  have "sa_bytes a = concat (map (facet_seg lib g) [0..<5]) @
      word_of_nat (top_level g) # take 11 (n_sha256 lib (text_bytes c))"
    using assms by (auto simp: derive_bytes)
  then have "bytes_match (sa_bytes a) (pa_bytes (derivePartial lib q)) \<longleftrightarrow>
      (\<forall>i<lead q. facet_seg lib g i = facet_seg lib q i)"
    using segs_prefix [OF assms(1) lead_le [of q]] by (simp add: bytes_match_prefix derivePartial_bytes [OF assms(1)])
  then show ?thesis by (simp add: prefixMatch_def derivePartial_bytes [OF assms(1)])
qed

text \<open>C13: an address matches the partial address of a query exactly if it carries the same segment as
  the query at every leading facet of the query, whatever its other facets and its content are; the two
  matching routines \<open>prefixMatch\<close> and \<open>startsWith\<close> agree on it.\<close>

theorem derive_partial_neighbourhood:
  assumes "noble_ok lib" "derive lib g c = Inr a"
  shows "(prefixMatch a (derivePartial lib q) \<longleftrightarrow> (\<forall>i<lead q. facet_seg lib g i = facet_seg lib q i)) \<and>
    startsWith a (derivePartial lib q) = prefixMatch a (derivePartial lib q) \<and>
    pa_depth (derivePartial lib q) = lead q \<and> length (pa_bytes (derivePartial lib q)) = 4 * lead q"
proof -
  have "length (pa_bytes (derivePartial lib q)) = 4 * lead q"
    using assms(1) by (simp add: derivePartial_bytes hash_simps)
  moreover have "length (sa_bytes a) = 32" using assms by (auto simp: derive_bytes hash_simps)
  moreover have "pa_depth (derivePartial lib q) = lead q" by (rule derivePartial_bytes [OF assms(1)])
  ultimately have "startsWith a (derivePartial lib q) = prefixMatch a (derivePartial lib q)"
    using lead_le [of q] by (auto simp: startsWith_def prefixMatch_def)
  with match_partial [OF assms] \<open>length (pa_bytes _) = _\<close> \<open>pa_depth _ = _\<close> show ?thesis by blast
qed

theorem derive_partial_neighbourhood_witness:
  "\<exists>a. derive demo_noble (empty_grammar\<lparr>g_domain := Some (One ''action''), g_relation := Some (One ''follows'')\<rparr>) (Str ''x'') = Inr a \<and>
     prefixMatch a (derivePartial demo_noble (empty_grammar\<lparr>g_domain := Some (One '' Action '')\<rparr>))"
proof -
  let ?g = "empty_grammar\<lparr>g_domain := Some (One ''action''), g_relation := Some (One ''follows'')\<rparr>"
  let ?q = "empty_grammar\<lparr>g_domain := Some (One '' Action '')\<rparr>"
  obtain a where a: "derive demo_noble ?g (Str ''x'') = Inr a" using derive_bytes [OF noble_ok_demo] by blast
  have "lead ?q = 1" "facet_seg demo_noble ?g 0 = facet_seg demo_noble ?q 0" by code_simp+
  with derive_partial_neighbourhood [OF noble_ok_demo a, of ?q] a show ?thesis by auto
qed

text \<open>The grammar that keeps the first \<open>k\<close> facets of a grammar.\<close>

definition keep_facets :: "nat \<Rightarrow> grammar \<Rightarrow> grammar" where
  "keep_facets k g =
     \<lparr>g_domain = (if 0 < k then g_domain g else None), g_entity = (if 1 < k then g_entity g else None),
      g_relation = (if 2 < k then g_relation g else None), g_temporal = (if 3 < k then g_temporal g else None),
      g_qualifier = (if 4 < k then g_qualifier g else None)\<rparr>"

lemma less_5_cases: "i < (5::nat) \<Longrightarrow> i = 0 \<or> i = 1 \<or> i = 2 \<or> i = 3 \<or> i = 4"
  by auto

lemma facet_text_keep:
  "i < 5 \<Longrightarrow> facet_text (keep_facets k g) (FACET_ORDER ! i) = (if i < k then facet_text g (FACET_ORDER ! i) else None)"
  by (drule less_5_cases) (auto simp: FACET_ORDER_def facet_text_def keep_facets_def)

lemma lead_iff: "n \<le> 5 \<Longrightarrow> n \<le> lead g \<longleftrightarrow> (\<forall>i<n. facet_text g (FACET_ORDER ! i) \<noteq> None)"
proof
  assume n: "n \<le> 5" and a: "\<forall>i<n. facet_text g (FACET_ORDER ! i) \<noteq> None"
  show "n \<le> lead g"
  proof (rule ccontr)
    assume "\<not> n \<le> lead g"
    then have "lead g < n" "lead g < length FACET_ORDER" using n by simp_all
    with nth_length_takeWhile [of "\<lambda>f. facet_text g f \<noteq> None" FACET_ORDER] a show False
      by (auto simp: lead_def)
  qed
qed (use lead_present in force)

lemma lead_keep: "lead (keep_facets k g) = min k (lead g)"
proof (rule antisym)
  have "\<forall>i<lead (keep_facets k g). i < k \<and> facet_text g (FACET_ORDER ! i) \<noteq> None"
    using lead_present [of _ "keep_facets k g"] lead_le [of "keep_facets k g"]
    by (metis facet_text_keep order_less_le_trans)
  then show "lead (keep_facets k g) \<le> min k (lead g)"
    using lead_iff [OF lead_le, of "keep_facets k g" g] by (metis min.bounded_iff not_less order_refl)
  show "min k (lead g) \<le> lead (keep_facets k g)"
    using lead_le [of g] lead_present [of _ g] by (subst lead_iff) (auto simp: facet_text_keep)
qed

lemma facet_seg_keep: "i < k \<Longrightarrow> i < 5 \<Longrightarrow> facet_seg lib (keep_facets k g) i = facet_seg lib g i"
  by (simp add: facet_seg_def facet_text_keep)

lemma sorted_le_last: "x \<in> set xs \<Longrightarrow> sorted xs \<Longrightarrow> x \<le> last (xs :: nat list)"
  by (induction xs) auto

lemma lead_le_top: "lead g \<le> top_level g"
proof (cases "lead g")
  case (Suc n)
  then have "n < 5" "facet_text g (FACET_ORDER ! n) \<noteq> None"
    using lead_le [of g] lead_present [of n g] by auto
  then have n: "n \<in> set (filled g 5)" by (simp add: filled_def)
  have "sorted (filled g 5)" unfolding filled_def by (intro sorted_wrt_filter) simp
  with n have "n \<le> last (filled g 5)" by (rule sorted_le_last)
  moreover have "filled g 5 \<noteq> []" using n by auto
  ultimately show ?thesis using Suc by (simp add: top_level_def)
qed simp

text \<open>A memory is found under every shortened form of its own grammar; its routing depth is at least
  the number of leading facets; and shortening a query never loses a match, so progressively deeper
  queries narrow the result.\<close>

lemma partial_query_refinement:
  assumes "noble_ok lib" "derive lib g c = Inr a"
  shows "prefixMatch a (derivePartial lib (keep_facets k g)) \<and>
     pa_depth (derivePartial lib (keep_facets k g)) = min k (lead g) \<and> lead g \<le> depth a \<and>
     (prefixMatch a (derivePartial lib q) \<longrightarrow> prefixMatch a (derivePartial lib (keep_facets k q)))"
  using lead_le [of g] lead_le [of q] lead_le_top [of g]
  by (auto simp: match_partial [OF assms] lead_keep facet_seg_keep derivePartial_bytes [OF assms(1)]
      derived_depth [OF assms])

lemma partial_query_refinement_witness:
  "\<exists>a. derive demo_noble (empty_grammar\<lparr>g_domain := Some (One ''action''), g_entity := Some (One ''bob'')\<rparr>) (Str ''x'') = Inr a \<and>
     prefixMatch a (derivePartial demo_noble
       (keep_facets 1 (empty_grammar\<lparr>g_domain := Some (One ''action''), g_entity := Some (One ''bob'')\<rparr>)))"
proof -
  let ?g = "empty_grammar\<lparr>g_domain := Some (One ''action''), g_entity := Some (One ''bob'')\<rparr>"
  obtain a where a: "derive demo_noble ?g (Str ''x'') = Inr a" using derive_bytes [OF noble_ok_demo] by blast
  with partial_query_refinement [OF noble_ok_demo a, of 1] show ?thesis by auto
qed

subsection \<open>Prefix distance\<close>

lemma popcount_loop_add: "popcount_loop n (c + d) = popcount_loop n c + d"
proof (induction n c rule: popcount_loop.induct)
  case (1 n c)
  show ?case
  proof (cases "n = 0")
    case False
    with 1 show ?thesis
      by (simp add: popcount_loop.simps [of n "c + d"] popcount_loop.simps [of n c] ac_simps)
  qed (simp add: popcount_loop.simps)
qed

lemma popcount_step: "popcount n = (if n = 0 then 0 else popcount (drop_bit 1 n) + unat (and n 1))"
proof -
  have "popcount_loop (drop_bit 1 n) (0 + unat (and n 1)) = popcount_loop (drop_bit 1 n) 0 + unat (and n 1)"
    by (rule popcount_loop_add)
  then show ?thesis by (simp add: popcount_def popcount_loop.simps [of n 0])
qed

lemma bits_split:
  fixes n :: "32 word"
  shows "{i. bit n i} = (if bit n 0 then {0} else {}) \<union> Suc ` {i. bit (drop_bit 1 n) i}"
proof (rule set_eqI)
  show "i \<in> {i. bit n i} \<longleftrightarrow> i \<in> (if bit n 0 then {0} else {}) \<union> Suc ` {i. bit (drop_bit 1 n) i}" for i
    by (cases i) (auto simp: bit_drop_bit_eq)
qed

lemma finite_bits [simp]: "finite (Collect (bit (n :: 'a::len word)))"
  by (rule finite_subset [of _ "{..<LENGTH('a)}"]) (auto dest: bit_imp_le_length)

lemma popcount_0 [simp]: "popcount 0 = 0"
  by (simp add: popcount_step [of 0])

lemma Collect_bot [simp]: "Collect (bot :: nat \<Rightarrow> bool) = {}"
  by auto

lemma popcount_card: "popcount n = card {i. bit n i}"
proof (induction "unat n" arbitrary: n rule: less_induct)
  case less
  show ?case
  proof (cases "n = 0")
    case False
    then have "unat (drop_bit 1 n) < unat n"
      by (simp add: drop_bit_eq_div unat_div word_neq_0_conv unat_gt_0)
    with less have "popcount (drop_bit 1 n) = card {i. bit (drop_bit 1 n) i}" by simp
    moreover have "card {i. bit n i} = (if bit n 0 then 1 else 0) + card {i. bit (drop_bit 1 n) i}"
      by (subst bits_split, subst card_Un_disjoint) (auto simp: card_image)
    moreover have "unat (and n 1) = (if bit n 0 then 1 else 0)"
      by (simp add: and_one_eq bit_0 mod_2_eq_odd)
    ultimately show ?thesis using False by (simp add: popcount_step [of n])
  qed simp
qed

definition byte_dist :: "byte \<Rightarrow> byte \<Rightarrow> nat" where
  "byte_dist x y = popcount (ucast (xor x y))"

lemma byte_dist_card: "byte_dist x y = card {i. bit x i \<noteq> bit y i}"
proof -
  have "{i. bit (ucast (xor x y) :: 32 word) i} = {i. bit x i \<noteq> bit y i}"
    by (auto simp: bit_ucast_iff bit_xor_iff dest: bit_imp_le_length)
  then show ?thesis by (simp add: byte_dist_def popcount_card)
qed

lemma finite_differing [simp]: "finite {i. bit (x :: byte) i = (\<not> bit (y :: byte) i)}"
  by (rule finite_subset [of _ "Collect (bit x) \<union> Collect (bit y)"]) auto

lemma byte_dist_sym: "byte_dist x y = byte_dist y x"
  unfolding byte_dist_card by (rule arg_cong [where f = card]) auto

lemma byte_dist_zero: "byte_dist x y = 0 \<longleftrightarrow> x = y"
  by (auto simp: byte_dist_card card_eq_0_iff intro!: bit_eqI)

lemma byte_dist_triangle: "byte_dist x z \<le> byte_dist x y + byte_dist y z"
proof -
  have "{i. bit x i \<noteq> bit z i} \<subseteq> {i. bit x i \<noteq> bit y i} \<union> {i. bit y i \<noteq> bit z i}" by auto
  then have "byte_dist x z \<le> card ({i. bit x i \<noteq> bit y i} \<union> {i. bit y i \<noteq> bit z i})"
    unfolding byte_dist_card by (intro card_mono) auto
  also have "\<dots> \<le> byte_dist x y + byte_dist y z"
    unfolding byte_dist_card by (rule card_Un_le)
  finally show ?thesis .
qed

lemma byte_dist_le: "byte_dist x y \<le> 8"
proof -
  have "{i. bit x i \<noteq> bit y i} \<subseteq> {..<8}" by (auto dest: bit_imp_le_length)
  then show ?thesis unfolding byte_dist_card using card_mono [of "{..<8::nat}"] by fastforce
qed

lemma foldl_sum: "foldl (\<lambda>s i. s + (f i :: nat)) 0 [0..<n] = (\<Sum>i<n. f i)"
  by (induction n) simp_all

lemma prefixDistance_sum:
  "prefixDistance a b d = (\<Sum>i<nat (min (d * 4) 20). byte_dist (sa_bytes a ! i) (sa_bytes b ! i))"
  by (simp add: prefixDistance_def byte_dist_def foldl_sum)

lemma take_eq_nth: "n \<le> length xs \<Longrightarrow> n \<le> length ys \<Longrightarrow> take n xs = take n ys \<longleftrightarrow> (\<forall>i<n. xs ! i = ys ! i)"
  by (auto simp: list_eq_iff_nth_eq)

text \<open>On well-formed addresses the prefix distance at a depth from 1 to 5 is a metric on the routing
  prefixes (zero exactly on equal prefixes, symmetric, with the triangle inequality), at most 32 bits per
  level; going deeper never makes two addresses closer, and levels past the fifth add nothing.\<close>

lemma prefix_distance_metric:
  assumes "length (sa_bytes a) = 32" "length (sa_bytes b) = 32" "1 \<le> d" "d \<le> 5"
  shows "(prefixDistance a b d = 0 \<longleftrightarrow> prefix_bytes a d = prefix_bytes b d) \<and>
    prefixDistance a b d = prefixDistance b a d \<and>
    prefixDistance a c d \<le> prefixDistance a b d + prefixDistance b c d \<and>
    int (prefixDistance a b d) \<le> 32 * d \<and>
    prefixDistance a b d \<le> prefixDistance a b (d + int e) \<and>
    prefixDistance a b (5 + int e) = prefixDistance a b 5"
proof -
  let ?n = "nat (min (d * 4) 20)"
  have n: "?n \<le> 32" "?n = nat d * 4" using assms(3,4) by auto
  have z: "prefixDistance a b d = 0 \<longleftrightarrow> prefix_bytes a d = prefix_bytes b d"
    using assms n take_eq_nth [of ?n "sa_bytes a" "sa_bytes b"]
    by (auto simp: prefixDistance_sum prefix_bytes_def byte_dist_zero)
  have t: "prefixDistance a c d \<le> prefixDistance a b d + prefixDistance b c d"
    by (auto simp: prefixDistance_sum byte_dist_triangle simp flip: sum.distrib intro!: sum_mono)
  have "prefixDistance a b d \<le> of_nat (card {..<?n}) * 8"
    unfolding prefixDistance_sum using byte_dist_le by (rule sum_bounded_above)
  then have u: "int (prefixDistance a b d) \<le> 32 * d" using n assms(3) by simp
  have m: "prefixDistance a b d \<le> prefixDistance a b (d + int e)"
    unfolding prefixDistance_sum by (intro sum_mono2) auto
  have s: "prefixDistance a b d = prefixDistance b a d"
    by (simp add: prefixDistance_sum byte_dist_sym)
  have f: "prefixDistance a b (5 + int e) = prefixDistance a b 5"
    by (simp add: prefixDistance_sum)
  from z t u m s f show ?thesis by blast
qed

lemma prefix_distance_metric_witness:
  "\<exists>a b. length (sa_bytes a) = 32 \<and> length (sa_bytes b) = 32 \<and>
     prefixDistance a b 2 = prefixDistance b a 2 \<and> prefixDistance a b 2 \<noteq> 0 \<and>
     prefix_bytes a 2 \<noteq> prefix_bytes b 2"
proof -
  let ?a = "\<lparr>sa_bytes = replicate 32 (5 :: byte)\<rparr>" and ?b = "\<lparr>sa_bytes = replicate 7 5 @ replicate 25 (9 :: byte)\<rparr>"
  have "prefix_bytes ?a 2 \<noteq> prefix_bytes ?b 2" by code_simp
  moreover have "length (sa_bytes ?a) = 32" "length (sa_bytes ?b) = 32" by simp_all
  moreover from prefix_distance_metric [OF this, of 2 ?a 0]
  have "(prefixDistance ?a ?b 2 = 0 \<longleftrightarrow> prefix_bytes ?a 2 = prefix_bytes ?b 2) \<and>
      prefixDistance ?a ?b 2 = prefixDistance ?b ?a 2"
    using one_le_numeral [of "num.Bit0 num.One", where 'a = int] by fastforce
  ultimately show ?thesis by blast
qed

subsection \<open>Hexadecimal form\<close>

lemma hex_digit_cases: "n < 16 \<Longrightarrow> hex_digit_value (hex_digit n) = Some n"
  by (auto simp: hex_digit_value_def code_def hex_digit_code Let_def)

lemma hex_digit_plain:
  "n < 16 \<Longrightarrow> hex_digit n \<noteq> CHR ''-'' \<and> hex_digit n \<noteq> CHR ''+'' \<and> hex_digit n \<noteq> CHR ''x'' \<and>
    hex_digit n \<noteq> CHR ''X'' \<and> \<not> is_space (hex_digit n)"
proof -
  assume n: "n < 16"
  have "c = hex_digit n \<Longrightarrow> 48 \<le> (of_char c :: nat) \<and> (of_char c :: nat) \<le> 102 \<and> (of_char c :: nat) \<noteq> 88" for c
    using n by (simp add: hex_digit_code)
  then have "48 \<le> (of_char (hex_digit n) :: nat) \<and> (of_char (hex_digit n) :: nat) \<le> 102 \<and> (of_char (hex_digit n) :: nat) \<noteq> 88"
    by blast
  then show ?thesis by (auto simp: is_space_def code_def Let_def)
qed

lemma parseInt16_hex_byte: "parseInt16 (hex_byte b) = Some (int (unat b))"
proof -
  let ?h = "unat b div 16" and ?l = "unat b mod 16"
  have "?h < 16" "?l < 16" by simp_all
  note [simp] = hex_digit_plain [OF this(1)] hex_digit_plain [OF this(2)]
    hex_digit_cases [OF this(1)] hex_digit_cases [OF this(2)]
  have "int ?h * 16 + int ?l = int (unat b)"
    by (metis div_mult_mod_eq of_nat_add of_nat_mult of_nat_numeral)
  then show ?thesis
    by (simp add: parseInt16_def hex_byte_def strip_sign_def strip_0x_def ac_simps del: of_nat_mod)
qed

lemma take2_hex_of: "i < length bs \<Longrightarrow> take 2 (drop (i * 2) (hex_of bs)) = hex_byte (bs ! i)"
proof (induction bs arbitrary: i)
  case (Cons b bs)
  then show ?case by (cases i) simp_all
qed simp

lemma fromHex_of_toHex:
  assumes "length (sa_bytes a) = 32"
  shows "fromHex (toHex a) = Inr a"
proof -
  have "map (\<lambda>i. to_uint8 (parseInt16 (take 2 (drop (i * 2) (toHex a))))) [0..<32] = sa_bytes a"
    using assms by (intro nth_equalityI)
      (simp_all add: toHex_def take2_hex_of parseInt16_hex_byte to_uint8_def)
  then show ?thesis
    using assms by (simp add: fromHex_def toHex_def mk_address_def)
qed

text \<open>\<open>fromHex\<close> inverts \<open>toHex\<close>, so equal hexadecimal forms are equal addresses; it fails on exactly
  the strings whose length is not 64, and on any other string, hexadecimal or not, it returns some
  32-byte address.\<close>

lemma fromHex_toHex:
  assumes "length (sa_bytes a) = 32"
  shows "fromHex (toHex a) = Inr a \<and>
    (length h = 64 \<longrightarrow> (\<exists>a'. fromHex h = Inr a' \<and> length (sa_bytes a') = 32)) \<and>
    (length h \<noteq> 64 \<longrightarrow> fromHex h = Inl (''Expected 64 hex chars, got '' @ dec (length h)))"
  using fromHex_of_toHex [OF assms] by (simp add: fromHex_def mk_address_def)

lemma fromHex_toHex_witness:
  "\<exists>a. length (sa_bytes a) = 32 \<and> fromHex (toHex a) = Inr a"
  using fromHex_toHex [of "\<lparr>sa_bytes = replicate 32 171\<rparr>"]
  by (intro exI [of _ "\<lparr>sa_bytes = replicate 32 (171 :: byte)\<rparr>"]) simp

text \<open>\<open>fromHex\<close> accepts a string with no hexadecimal digit in it and reads it as the all-zero
  address, so an accepted string is not evidence of an address anyone printed.\<close>

lemma fromHex_accepts_garbage:
  "fromHex (replicate 64 CHR ''z'') = Inr \<lparr>sa_bytes = replicate 32 0\<rparr> \<and>
   toHex \<lparr>sa_bytes = replicate 32 0\<rparr> \<noteq> replicate 64 CHR ''z''"
proof
  have "take 2 (drop (i * 2) (replicate 64 CHR ''z'')) = ''zz''" if "i < 32" for i
  proof -
    have "min 2 (64 - i * 2) = 2" using that by arith
    then have "take 2 (drop (i * 2) (replicate 64 CHR ''z'')) = replicate 2 CHR ''z''"
      by (simp only: drop_replicate take_replicate)
    then show ?thesis by (simp add: numeral_2_eq_2)
  qed
  moreover have "to_uint8 (parseInt16 ''zz'') = 0" by code_simp
  ultimately have "map (\<lambda>i. to_uint8 (parseInt16 (take 2 (drop (i * 2) (replicate 64 CHR ''z''))))) [0..<32] =
      replicate 32 0"
    by (intro nth_equalityI) simp_all
  then show "fromHex (replicate 64 CHR ''z'') = Inr \<lparr>sa_bytes = replicate 32 0\<rparr>"
    by (simp add: fromHex_def mk_address_def)
  show "toHex \<lparr>sa_bytes = replicate 32 0\<rparr> \<noteq> replicate 64 CHR ''z''" by code_simp
qed

end
