(* ===== verification/Book.thy ===== *)
theory Book
  imports Address "HOL-Library.AList"
begin

text \<open>
  \<^verbatim>\<open>packages/semantic-address/src/book.ts\<close>: the in-memory address book.  A JavaScript \<open>Map\<close> is the list
  of its pairs in insertion order: \<open>set\<close> is \<^const>\<open>AList.update\<close> (an existing key keeps its place) and
  \<open>delete\<close> is \<^const>\<open>AList.delete\<close>.
  The locale \<open>address_index\<close> is what the memory store relies on, and the book is shown to provide it.
\<close>

subsection \<open>The book\<close>

record 'v entry =
  en_address :: semantic_address
  en_value :: 'v

type_synonym 'v book = "(string \<times> 'v entry) list"

definition book_put :: "semantic_address \<Rightarrow> 'v \<Rightarrow> 'v book \<Rightarrow> 'v book" where
  "book_put a v b = AList.update (toHex a) \<lparr>en_address = a, en_value = v\<rparr> b"

definition getByHex :: "'v book \<Rightarrow> string \<Rightarrow> 'v option" where
  "getByHex b h = map_option en_value (map_of b h)"

definition book_get :: "'v book \<Rightarrow> semantic_address \<Rightarrow> 'v option" where
  "book_get b a = map_option en_value (map_of b (toHex a))"

definition book_query :: "'v book \<Rightarrow> partial_address \<Rightarrow> 'v entry list" where
  "book_query b p = filter (\<lambda>e. prefixMatch (en_address e) p) (map snd b)"

definition queryByHexPrefix :: "'v book \<Rightarrow> string \<Rightarrow> 'v entry list" where
  "queryByHexPrefix b h = map snd (filter (\<lambda>(k, e). take (length h) k = h) b)"

definition book_size :: "'v book \<Rightarrow> nat" where
  "book_size b = length b"

definition book_delete :: "semantic_address \<Rightarrow> 'v book \<Rightarrow> bool \<times> 'v book" where
  "book_delete a b = (map_of b (toHex a) \<noteq> None, AList.delete (toHex a) b)"

definition addresses :: "'v book \<Rightarrow> semantic_address list" where
  "addresses b = map (\<lambda>e. en_address e) (map snd b)"

subsection \<open>Invariant\<close>

text \<open>Keys are distinct, and every entry is filed under the hexadecimal form of its address.\<close>

definition book_inv :: "'v book \<Rightarrow> bool" where
  "book_inv b \<longleftrightarrow> distinct (map fst b) \<and> list_all (\<lambda>(k, e). k = toHex (en_address e)) b"

lemma toHex_inj [simp]: "toHex a = toHex b \<longleftrightarrow> a = b"
  by (cases a; cases b) (simp add: toHex_def)

lemma set_update_subset: "set (AList.update k v xs) \<subseteq> insert (k, v) (set xs)"
  by (induction xs) auto

lemma book_inv_Nil [simp]: "book_inv []"
  by (simp add: book_inv_def)

lemma book_inv_put: "book_inv b \<Longrightarrow> book_inv (book_put a v b)"
  using set_update_subset [of "toHex a" "\<lparr>en_address = a, en_value = v\<rparr>" b]
  by (auto simp: book_inv_def book_put_def distinct_update list_all_iff)

lemma book_inv_delete: "book_inv b \<Longrightarrow> book_inv (snd (book_delete a b))"
  by (auto simp: book_inv_def book_delete_def distinct_delete list_all_iff AList.delete_eq distinct_map_filter)

lemma get_put: "book_get (book_put a v b) a' = (if a' = a then Some v else book_get b a')"
  by (simp add: book_get_def book_put_def update_conv')

lemma get_delete: "book_get (snd (book_delete a b)) a' = (if a' = a then None else book_get b a')"
  by (simp add: book_get_def book_delete_def delete_conv')

lemma getByHex_toHex: "getByHex b (toHex a) = book_get b a"
  by (simp add: getByHex_def book_get_def)

lemma book_inv_key: "book_inv b \<Longrightarrow> (k, e) \<in> set b \<Longrightarrow> k = toHex (en_address e)"
  by (auto simp: book_inv_def list_all_iff)

lemma get_iff_entry:
  assumes "book_inv b"
  shows "book_get b a = Some v \<longleftrightarrow> \<lparr>en_address = a, en_value = v\<rparr> \<in> set (map snd b)"
proof
  assume "book_get b a = Some v"
  then obtain e where "(toHex a, e) \<in> set b" "en_value e = v"
    by (auto simp: book_get_def dest: map_of_SomeD)
  moreover from this have "en_address e = a"
    using assms by (auto simp: book_inv_def list_all_iff)
  ultimately show "\<lparr>en_address = a, en_value = v\<rparr> \<in> set (map snd b)"
    by (cases e) force
next
  assume "\<lparr>en_address = a, en_value = v\<rparr> \<in> set (map snd b)"
  then obtain k where "(k, \<lparr>en_address = a, en_value = v\<rparr>) \<in> set b" by auto
  with assms have "map_of b (toHex a) = Some \<lparr>en_address = a, en_value = v\<rparr>"
    by (auto simp: book_inv_def list_all_iff)
  then show "book_get b a = Some v" by (simp add: book_get_def)
qed

lemma addresses_distinct: "book_inv b \<Longrightarrow> distinct (addresses b)"
proof -
  assume i: "book_inv b"
  then have "map fst b = map (\<lambda>ke. toHex (en_address (snd ke))) b"
    by (auto simp: book_inv_def list_all_iff)
  with i have "distinct (map toHex (addresses b))"
    by (simp add: book_inv_def addresses_def comp_def)
  then show ?thesis by (simp add: distinct_map)
qed

lemma addresses_get: "book_inv b \<Longrightarrow> a \<in> set (addresses b) \<longleftrightarrow> book_get b a \<noteq> None"
proof -
  assume i: "book_inv b"
  have "e \<in> set (map snd b) \<Longrightarrow> en_address e = a \<Longrightarrow> \<lparr>en_address = a, en_value = en_value e\<rparr> \<in> set (map snd b)" for e
    by (cases e) auto
  then have "a \<in> set (addresses b) \<longleftrightarrow> (\<exists>v. \<lparr>en_address = a, en_value = v\<rparr> \<in> set (map snd b))"
    unfolding addresses_def by (metis (no_types, lifting) entry.select_convs(1) imageE image_eqI list.set_map)
  then show ?thesis using get_iff_entry [OF i] by simp
qed

lemma query_iff:
  assumes "book_inv b"
  shows "\<lparr>en_address = a, en_value = v\<rparr> \<in> set (book_query b p) \<longleftrightarrow> book_get b a = Some v \<and> prefixMatch a p"
  by (auto simp: book_query_def get_iff_entry [OF assms])

lemma hex_prefix: "prefix (hex_of xs) (hex_of ys) \<longleftrightarrow> prefix xs ys"
proof (induction xs arbitrary: ys)
  case (Cons x xs)
  show ?case
  proof (cases ys)
    case (Cons y ys')
    have "prefix (hex_byte x @ s) (hex_byte y @ t) \<longleftrightarrow> x = y \<and> prefix s t" for s t
      by (auto simp: prefix_def)
    with Cons Cons.IH show ?thesis by simp
  qed (simp add: hex_byte_def)
qed simp

lemma take_prefix: "take (length h) k = h \<longleftrightarrow> prefix h k"
  by (metis append_eq_conv_conj prefix_def)

lemma query_by_hex:
  assumes "book_inv b" "pa_hex p = hex_of (pa_bytes p)" "pa_depth p = 0 \<Longrightarrow> pa_bytes p = []"
  shows "queryByHexPrefix b (pa_hex p) = book_query b p"
proof -
  have *: "k = toHex (en_address e) \<Longrightarrow> take (length (pa_hex p)) k = pa_hex p \<longleftrightarrow> prefixMatch (en_address e) p" for k e
    using assms(2,3) unfolding take_prefix by (auto simp: toHex_def hex_prefix prefixMatch_def bytes_match_prefix)
  have "filter (\<lambda>(k, e). take (length (pa_hex p)) k = pa_hex p) b = filter (\<lambda>ke. prefixMatch (en_address (snd ke)) p) b"
  proof (intro filter_cong refl)
    fix ke assume "ke \<in> set b"
    then have "fst ke = toHex (en_address (snd ke))" using book_inv_key [OF assms(1), of "fst ke" "snd ke"] by simp
    from * [OF this] show "(case ke of (k, e) \<Rightarrow> take (length (pa_hex p)) k = pa_hex p) = prefixMatch (en_address (snd ke)) p"
      by (simp add: case_prod_beta)
  qed
  then show ?thesis by (simp add: queryByHexPrefix_def book_query_def filter_map comp_def)
qed

subsection \<open>The interface the memory store uses\<close>

text \<open>
  An index from addresses to values: \<open>put\<close> overwrites, \<open>get\<close> reads what was put, and \<open>query\<close> returns
  exactly the stored pairs whose address matches.
\<close>

locale address_index =
  fixes put :: "'a \<Rightarrow> 'v \<Rightarrow> 'b \<Rightarrow> 'b"
    and get :: "'b \<Rightarrow> 'a \<Rightarrow> 'v option"
    and query :: "'b \<Rightarrow> 'p \<Rightarrow> ('a \<times> 'v) list"
    and matches :: "'a \<Rightarrow> 'p \<Rightarrow> bool"
    and inv :: "'b \<Rightarrow> bool"
  assumes inv_put: "inv b \<Longrightarrow> inv (put a v b)"
    and get_put: "inv b \<Longrightarrow> get (put a v b) a' = (if a' = a then Some v else get b a')"
    and query_iff: "inv b \<Longrightarrow> (a, v) \<in> set (query b p) \<longleftrightarrow> get b a = Some v \<and> matches a p"
begin

lemma inv_puts: "inv b \<Longrightarrow> inv (foldl (\<lambda>b (a, v). put a v b) b xs)"
  by (induction xs arbitrary: b) (auto simp: inv_put)

lemma get_puts:
  "inv b \<Longrightarrow> get (foldl (\<lambda>b (a, v). put a v b) b xs) a =
     (case map_of (rev xs) a of None \<Rightarrow> get b a | Some v \<Rightarrow> Some v)"
  by (induction xs arbitrary: b) (auto simp: inv_put get_put map_add_def split: option.splits)

lemma query_put: "inv b \<Longrightarrow> matches a p \<Longrightarrow> (a, v) \<in> set (query (put a v b) p)"
  by (simp add: query_iff inv_put get_put)

lemma query_put_other:
  "inv b \<Longrightarrow> a' \<noteq> a \<Longrightarrow> (a', v') \<in> set (query (put a v b) p) \<longleftrightarrow> (a', v') \<in> set (query b p)"
  by (simp add: query_iff inv_put get_put)

lemma query_puts_miss:
  assumes "inv b" "query b p = []"
  shows "(a, v) \<in> set (query (foldl (\<lambda>b (a, v). put a v b) b xs) p) \<longleftrightarrow>
         map_of (rev xs) a = Some v \<and> matches a p"
proof -
  have "\<not> (get b a = Some v \<and> matches a p)" using query_iff [OF assms(1), of a v p] assms(2) by simp
  then show ?thesis
    using assms(1) by (auto simp: query_iff inv_puts get_puts split: option.splits)
qed

end

text \<open>The pairs of address and value of the entries of a query.\<close>

definition query_pairs :: "'v book \<Rightarrow> partial_address \<Rightarrow> (semantic_address \<times> 'v) list" where
  "query_pairs b p = map (\<lambda>e. (en_address e, en_value e)) (book_query b p)"

lemma query_pairs_iff:
  assumes "book_inv b"
  shows "(a, v) \<in> set (query_pairs b p) \<longleftrightarrow> book_get b a = Some v \<and> prefixMatch a p"
proof -
  have "(a, v) \<in> set (query_pairs b p) \<longleftrightarrow> \<lparr>en_address = a, en_value = v\<rparr> \<in> set (book_query b p)"
  proof
    assume "(a, v) \<in> set (query_pairs b p)"
    then obtain e where "e \<in> set (book_query b p)" "en_address e = a" "en_value e = v"
      by (auto simp: query_pairs_def)
    moreover from this have "e = \<lparr>en_address = a, en_value = v\<rparr>" by (intro entry.equality) simp_all
    ultimately show "\<lparr>en_address = a, en_value = v\<rparr> \<in> set (book_query b p)" by (simp only:)
  qed (force simp: query_pairs_def)
  then show ?thesis by (simp add: query_iff [OF assms])
qed

interpretation index: address_index book_put book_get query_pairs prefixMatch book_inv
  by unfold_locales (auto simp: book_inv_put get_put query_pairs_iff)

subsection \<open>Properties\<close>

text \<open>The operations that change a book, and the book a sequence of them makes of the empty one.\<close>

datatype 'v book_op = Put semantic_address 'v | Delete semantic_address

fun book_step :: "'v book \<Rightarrow> 'v book_op \<Rightarrow> 'v book" where
  "book_step b (Put a v) = book_put a v b"
| "book_step b (Delete a) = snd (book_delete a b)"

fun spec_step :: "(semantic_address \<Rightarrow> 'v option) \<Rightarrow> 'v book_op \<Rightarrow> semantic_address \<Rightarrow> 'v option" where
  "spec_step m (Put a v) = m(a := Some v)"
| "spec_step m (Delete a) = m(a := None)"

lemma book_step_inv: "book_inv b \<Longrightarrow> book_inv (book_step b op)"
  by (cases op) (simp_all add: book_inv_put book_inv_delete)

lemma book_steps_inv: "book_inv b \<Longrightarrow> book_inv (foldl book_step b ops)"
  by (induction ops arbitrary: b) (simp_all add: book_step_inv)

lemma book_step_abs: "book_get (book_step b op) = spec_step (book_get b) op"
  by (cases op) (auto simp: get_put get_delete)

lemma book_steps_abs: "book_get (foldl book_step b ops) = foldl spec_step (book_get b) ops"
  by (induction ops arbitrary: b) (simp_all add: book_step_abs)

lemma book_get_Nil [simp]: "book_get [] = Map.empty"
  by (auto simp: book_get_def)

lemma dom_addresses: "book_inv b \<Longrightarrow> dom (book_get b) = set (addresses b)"
  by (rule set_eqI) (simp add: addresses_get dom_def)

lemma distinct_addresses_size: "book_inv b \<Longrightarrow> book_size b = card (dom (book_get b))"
proof -
  assume i: "book_inv b"
  then show ?thesis
    using distinct_card [OF addresses_distinct [OF i]] dom_addresses [OF i] by (simp add: book_size_def addresses_def)
qed

text \<open>C11: after any sequence of puts and deletes the book is the finite map the sequence describes:
  looking up an address (by value or by hexadecimal form) gives the last value put there and not deleted
  since, the size counts the addresses that have one, and the address list names each of them once.\<close>

theorem book_refines_map:
  "book_get (foldl book_step [] ops) = foldl spec_step Map.empty ops \<and>
   getByHex (foldl book_step [] ops) (toHex a) = foldl spec_step Map.empty ops a \<and>
   book_size (foldl book_step [] ops) = card (dom (foldl spec_step Map.empty ops)) \<and>
   set (addresses (foldl book_step [] ops)) = dom (foldl spec_step Map.empty ops) \<and>
   distinct (addresses (foldl book_step [] ops))"
proof -
  let ?b = "foldl book_step [] ops"
  have i: "book_inv ?b" by (rule book_steps_inv) simp
  have "book_get ?b = foldl spec_step Map.empty ops" by (simp add: book_steps_abs)
  with i show ?thesis
    by (auto simp: getByHex_toHex distinct_addresses_size addresses_distinct addresses_get)
qed

text \<open>On every book the operations can make, a query by the partial address of a grammar returns each
  stored memory in that region once, in the order the memories were first put, and the query by the
  hexadecimal prefix returns the same list.\<close>

lemma book_query_exact:
  assumes "noble_ok lib"
  shows "((a, v) \<in> set (query_pairs (foldl book_step [] ops) (derivePartial lib g)) \<longleftrightarrow>
      foldl spec_step Map.empty ops a = Some v \<and> prefixMatch a (derivePartial lib g)) \<and>
    distinct (map fst (query_pairs (foldl book_step [] ops) (derivePartial lib g))) \<and>
    subseq (map fst (query_pairs (foldl book_step [] ops) (derivePartial lib g))) (addresses (foldl book_step [] ops)) \<and>
    queryByHexPrefix (foldl book_step [] ops) (pa_hex (derivePartial lib g)) =
      book_query (foldl book_step [] ops) (derivePartial lib g)"
proof -
  let ?b = "foldl book_step [] ops" and ?p = "derivePartial lib g"
  have i: "book_inv ?b" by (rule book_steps_inv) simp
  have "map fst (query_pairs ?b ?p) = filter (\<lambda>a. prefixMatch a ?p) (addresses ?b)"
    by (simp add: query_pairs_def book_query_def addresses_def filter_map comp_def)
  then have "subseq (map fst (query_pairs ?b ?p)) (addresses ?b)" "distinct (map fst (query_pairs ?b ?p))"
    using addresses_distinct [OF i] by simp_all
  moreover have "queryByHexPrefix ?b (pa_hex ?p) = book_query ?b ?p"
    using i assms by (intro query_by_hex) (simp_all add: derivePartial_bytes)
  ultimately show ?thesis
    using query_pairs_iff [OF i, of a v ?p] by (simp add: book_steps_abs)
qed

lemma book_query_exact_witness:
  "\<exists>a. derive demo_noble (empty_grammar\<lparr>g_domain := Some (One ''goal'')\<rparr>) (Str ''tea'') = Inr a \<and>
     (a, 7 :: nat) \<in> set (query_pairs (foldl book_step [] [Put a 3, Put a 7])
        (derivePartial demo_noble (empty_grammar\<lparr>g_domain := Some (One '' GOAL'')\<rparr>)))"
proof -
  let ?g = "empty_grammar\<lparr>g_domain := Some (One ''goal'')\<rparr>"
  let ?q = "empty_grammar\<lparr>g_domain := Some (One '' GOAL'')\<rparr>"
  obtain a where a: "derive demo_noble ?g (Str ''tea'') = Inr a" using derive_bytes [OF noble_ok_demo] by blast
  have "lead ?q = 1" "facet_seg demo_noble ?g 0 = facet_seg demo_noble ?q 0" by code_simp+
  then have "prefixMatch a (derivePartial demo_noble ?q)"
    using match_partial [OF noble_ok_demo a] by simp
  with book_query_exact [OF noble_ok_demo, of a "7 :: nat" "[Put a 3, Put a 7]" ?q] a show ?thesis by auto
qed

end
