(* ===== verification/MemoryStore.thy ===== *)
theory MemoryStore
  imports Complex_Main Book
begin

text \<open>
  \<^verbatim>\<open>services/agent-runtime/src/memory-store.ts\<close>: the memory store, a client of the address book and of the
  hippocampus service.  The service is reached over HTTP and is a parameter \<open>dag\<close>: the reply to each
  request, or the exception of a failed \<open>fetch\<close> or of an unreadable body.  Every operation returns its
  result, the new store and the requests it made.  \<open>clock i\<close> is the \<open>i\<close>-th reading of \<open>Date.now()\<close>.
  Entries are shared objects in the code, so stamping the access time of a cached entry stamps it in the
  cache too; here both are written out.
\<close>

subsection \<open>Data\<close>

record mem_entry =
  me_address :: string
  me_grammar :: grammar
  me_content :: string
  me_embedding :: "rat list option"
  me_createdAt :: nat
  me_accessedAt :: nat
  me_score :: "rat option"

record mem_query =
  q_grammar :: "grammar option"
  q_text :: "string option"
  q_limit :: "int option"
  q_minDepth :: "int option"

record store_config =
  hippocampusUrl :: string
  defaultLimit :: int
  localCache :: bool

text \<open>The defaults, for a process without \<open>HIPPOCAMPUS_URL\<close>.\<close>

definition DEFAULT_CONFIG :: store_config where
  "DEFAULT_CONFIG = \<lparr>hippocampusUrl = ''http://hippocampus-dag:5001'', defaultLimit = 20, localCache = True\<rparr>"

record memory_store =
  ms_config :: store_config
  ms_cache :: "mem_entry book"

definition new_store :: "store_config \<Rightarrow> memory_store" where
  "new_store cfg = \<lparr>ms_config = cfg, ms_cache = []\<rparr>"

subsection \<open>Transport\<close>

datatype dag_request =
    PostPut string string nat mem_entry
  | PostQuery string string nat "string list" int
  | GetEntry string

record dag_reply =
  r_ok :: bool
  r_status :: nat
  r_text :: string
  r_entries :: "mem_entry list option"
  r_entry :: mem_entry

type_synonym dag = "dag_request \<Rightarrow> dag_reply result"

definition put_request :: "store_config \<Rightarrow> semantic_address \<Rightarrow> mem_entry \<Rightarrow> dag_request" where
  "put_request cfg a e = PostPut (hippocampusUrl cfg @ ''/api/v1/put'') (toHex a) (depth a) e"

definition query_request :: "store_config \<Rightarrow> partial_address \<Rightarrow> int \<Rightarrow> dag_request" where
  "query_request cfg p limit =
     PostQuery (hippocampusUrl cfg @ ''/api/v1/query'') (pa_hex p) (pa_depth p) (pa_facets p) limit"

definition get_request :: "store_config \<Rightarrow> string \<Rightarrow> dag_request" where
  "get_request cfg h = GetEntry (hippocampusUrl cfg @ ''/api/v1/get/'' @ h)"

definition dagPut :: "dag \<Rightarrow> store_config \<Rightarrow> semantic_address \<Rightarrow> mem_entry \<Rightarrow> unit result" where
  "dagPut dag cfg a e = bindE (dag (put_request cfg a e))
     (\<lambda>r. if \<not> r_ok r then Inl (''hippocampus PUT failed: '' @ dec (r_status r) @ '' '' @ r_text r) else Inr ())"

definition dagQuery :: "dag \<Rightarrow> store_config \<Rightarrow> partial_address \<Rightarrow> int \<Rightarrow> mem_entry list result" where
  "dagQuery dag cfg p limit = bindE (dag (query_request cfg p limit))
     (\<lambda>r. if \<not> r_ok r then Inr [] else Inr (case r_entries r of None \<Rightarrow> [] | Some es \<Rightarrow> es))"

definition dagGet :: "dag \<Rightarrow> store_config \<Rightarrow> string \<Rightarrow> mem_entry option result" where
  "dagGet dag cfg h = bindE (dag (get_request cfg h))
     (\<lambda>r. if \<not> r_ok r then Inr None else Inr (Some (r_entry r)))"

subsection \<open>Operations\<close>

type_synonym 'a outcome = "'a result \<times> memory_store \<times> dag_request list"

definition made_entry ::
  "semantic_address \<Rightarrow> grammar \<Rightarrow> string \<Rightarrow> rat list option \<Rightarrow> nat \<Rightarrow> mem_entry" where
  "made_entry a g content emb now =
     \<lparr>me_address = toHex a, me_grammar = g, me_content = content, me_embedding = emb,
      me_createdAt = now, me_accessedAt = now, me_score = None\<rparr>"

definition store ::
  "noble \<Rightarrow> dag \<Rightarrow> memory_store \<Rightarrow> grammar \<Rightarrow> string \<Rightarrow> rat list option \<Rightarrow> nat \<Rightarrow> mem_entry outcome" where
  "store lib dag ms g content emb now =
     (case derive lib g (Str content) of
        Inl err \<Rightarrow> (Inl err, ms, [])
      | Inr a \<Rightarrow>
          (let e = made_entry a g content emb now; req = put_request (ms_config ms) a e in
           case dagPut dag (ms_config ms) a e of
             Inl err \<Rightarrow> (Inl err, ms, [req])
           | Inr _ \<Rightarrow>
               (Inr e,
                if localCache (ms_config ms) then ms\<lparr>ms_cache := book_put a e (ms_cache ms)\<rparr> else ms,
                [req])))"

text \<open>Stamping the access time of every cached entry that matches, in the order of the cache.\<close>

definition stamp :: "nat \<Rightarrow> mem_entry entry \<Rightarrow> mem_entry entry" where
  "stamp now e = e\<lparr>en_value := (en_value e)\<lparr>me_accessedAt := now\<rparr>\<rparr>"

fun touch_matches :: "partial_address \<Rightarrow> (nat \<Rightarrow> nat) \<Rightarrow> nat \<Rightarrow> mem_entry book \<Rightarrow> mem_entry book" where
  "touch_matches p clock i [] = []"
| "touch_matches p clock i ((k, e) # b) =
     (if prefixMatch (en_address e) p then (k, stamp (clock i) e) # touch_matches p clock (i + 1) b
      else (k, e) # touch_matches p clock i b)"

definition touch_key :: "string \<Rightarrow> nat \<Rightarrow> mem_entry book \<Rightarrow> mem_entry book" where
  "touch_key h now b = map (\<lambda>(k, e). if k = h then (k, stamp now e) else (k, e)) b"

text \<open>The loop that fills the cache; \<open>fromHex\<close> may throw, and what was cached before stays.\<close>

fun populate :: "mem_entry book \<Rightarrow> mem_entry list \<Rightarrow> mem_entry book \<times> string option" where
  "populate b [] = (b, None)"
| "populate b (e # es) =
     (case fromHex (me_address e) of
        Inl err \<Rightarrow> (b, Some err)
      | Inr a \<Rightarrow> populate (book_put a e b) es)"

definition query_grammar :: "mem_query \<Rightarrow> grammar option" where
  "query_grammar q =
     (case q_grammar q of
        Some g \<Rightarrow> Some g
      | None \<Rightarrow> (case q_text q of
            None \<Rightarrow> None
          | Some t \<Rightarrow> if t = [] then None else Some (parseDescription t)))"

definition recall ::
  "noble \<Rightarrow> dag \<Rightarrow> memory_store \<Rightarrow> mem_query \<Rightarrow> (nat \<Rightarrow> nat) \<Rightarrow> mem_entry list outcome" where
  "recall lib dag ms q clock =
     (let limit = (case q_limit q of None \<Rightarrow> defaultLimit (ms_config ms) | Some l \<Rightarrow> l) in
      case query_grammar q of
        None \<Rightarrow> (Inr [], ms, [])
      | Some g \<Rightarrow>
          (let p = derivePartial lib g in
           if localCache (ms_config ms) \<and> book_query (ms_cache ms) p \<noteq> [] then
             (let b = touch_matches p clock 0 (ms_cache ms)
              in (Inr (slice0 (map en_value (book_query b p)) limit), ms\<lparr>ms_cache := b\<rparr>, []))
           else
             (let req = query_request (ms_config ms) p limit in
              case dagQuery dag (ms_config ms) p limit of
                Inl err \<Rightarrow> (Inl err, ms, [req])
              | Inr es \<Rightarrow>
                  (if localCache (ms_config ms) then
                     (case populate (ms_cache ms) es of
                        (b, None) \<Rightarrow> (Inr es, ms\<lparr>ms_cache := b\<rparr>, [req])
                      | (b, Some err) \<Rightarrow> (Inl err, ms\<lparr>ms_cache := b\<rparr>, [req]))
                   else (Inr es, ms, [req])))))"

definition getMemory :: "dag \<Rightarrow> memory_store \<Rightarrow> string \<Rightarrow> nat \<Rightarrow> mem_entry option outcome" where
  "getMemory dag ms h now =
     (case (if localCache (ms_config ms) then getByHex (ms_cache ms) h else None) of
        Some e \<Rightarrow> (Inr (Some (e\<lparr>me_accessedAt := now\<rparr>)), ms\<lparr>ms_cache := touch_key h now (ms_cache ms)\<rparr>, [])
      | None \<Rightarrow> (dagGet dag (ms_config ms) h, ms, [get_request (ms_config ms) h]))"

definition cacheSize :: "memory_store \<Rightarrow> nat" where
  "cacheSize ms = book_size (ms_cache ms)"

subsection \<open>Access times aside\<close>

definition untimed :: "mem_entry \<Rightarrow> mem_entry" where
  "untimed e = e\<lparr>me_accessedAt := 0\<rparr>"

definition untimed_entry :: "mem_entry entry \<Rightarrow> mem_entry entry" where
  "untimed_entry e = e\<lparr>en_value := untimed (en_value e)\<rparr>"

definition untimed_book :: "mem_entry book \<Rightarrow> mem_entry book" where
  "untimed_book b = map (\<lambda>(k, e). (k, untimed_entry e)) b"

lemma untimed_simps [simp]:
  "untimed (e\<lparr>me_accessedAt := t\<rparr>) = untimed e"
  "en_address (untimed_entry x) = en_address x"
  "en_value (untimed_entry x) = untimed (en_value x)"
  "untimed_entry (stamp t x) = untimed_entry x"
  "en_address (stamp t x) = en_address x"
  by (simp_all add: untimed_def untimed_entry_def stamp_def)

lemma untimed_touch [simp]:
  "untimed_book (touch_matches p clock i b) = untimed_book b"
  "untimed_book (touch_key h t b) = untimed_book b"
proof -
  show "untimed_book (touch_matches p clock i b) = untimed_book b"
    unfolding untimed_book_def by (induction p clock i b rule: touch_matches.induct) auto
  show "untimed_book (touch_key h t b) = untimed_book b"
    by (auto simp: untimed_book_def touch_key_def)
qed

lemma inv_untimed: "book_inv (untimed_book b) = book_inv b"
proof -
  have "map fst (untimed_book b) = map fst b" by (auto simp: untimed_book_def)
  moreover have "list_all (\<lambda>(k, e). k = toHex (en_address e)) (untimed_book b) =
      list_all (\<lambda>(k, e). k = toHex (en_address e)) b"
    by (auto simp: untimed_book_def list_all_iff)
  ultimately show ?thesis by (simp add: book_inv_def)
qed

lemma inv_touch [simp]:
  "book_inv (touch_matches p clock i b) = book_inv b"
  "book_inv (touch_key h t b) = book_inv b"
  by (metis inv_untimed untimed_touch)+

lemma query_untimed: "book_query (untimed_book b) p = map untimed_entry (book_query b p)"
  by (induction b) (auto simp: book_query_def untimed_book_def)

lemma values_untimed: "map untimed (map en_value (book_query b p)) = map en_value (book_query (untimed_book b) p)"
  by (simp add: query_untimed)

lemma values_touch:
  "map untimed (map en_value (book_query (touch_matches p clock i b) q)) = map untimed (map en_value (book_query b q))"
  by (simp only: values_untimed untimed_touch)

lemma map_of_untimed: "map_of (untimed_book b) k = map_option untimed_entry (map_of b k)"
  by (induction b) (auto simp: untimed_book_def)

lemma get_untimed: "book_get (untimed_book b) a = map_option untimed (book_get b a)"
  by (cases "map_of b (toHex a)") (simp_all add: book_get_def map_of_untimed)

lemma get_touch:
  "map_option untimed (book_get (touch_matches p clock i b) a) = map_option untimed (book_get b a)"
  "map_option untimed (book_get (touch_key h t b) a) = map_option untimed (book_get b a)"
  by (simp_all flip: get_untimed)

lemma length_query_le: "length (book_query b p) \<le> book_size b"
  using length_filter_le [of "\<lambda>e. prefixMatch (en_address e) p" "map snd b"]
  by (simp add: book_query_def book_size_def)

lemma slice0_all: "int (length xs) \<le> n \<Longrightarrow> slice0 xs n = xs"
  by (simp add: slice0_def)

subsection \<open>Filling the cache\<close>

text \<open>The entries whose address can be read, up to the first that cannot, with their addresses.\<close>

fun readable :: "mem_entry list \<Rightarrow> (semantic_address \<times> mem_entry) list" where
  "readable [] = []"
| "readable (e # es) = (case fromHex (me_address e) of Inl _ \<Rightarrow> [] | Inr a \<Rightarrow> (a, e) # readable es)"

lemma populate_puts: "fst (populate b es) = foldl (\<lambda>b (a, v). book_put a v b) b (readable es)"
  by (induction b es rule: populate.induct) (auto split: sum.splits)

lemma populate_error: "snd (populate b es) = None \<longleftrightarrow> list_all (\<lambda>e. \<exists>a. fromHex (me_address e) = Inr a) es"
  by (induction b es rule: populate.induct) (auto split: sum.splits)

lemma populate_inv: "book_inv b \<Longrightarrow> book_inv (fst (populate b es))"
  by (simp add: populate_puts index.inv_puts)

lemma populate_keeps: "book_inv b \<Longrightarrow> book_get b a \<noteq> None \<Longrightarrow> book_get (fst (populate b es)) a \<noteq> None"
  by (auto simp: populate_puts index.get_puts split: option.splits)

subsection \<open>Properties\<close>

lemma store_cases:
  assumes "noble_ok lib"
  obtains a where "derive lib g (Str c) = Inr a"
    "store lib dag ms g c emb now =
      (case dagPut dag (ms_config ms) a (made_entry a g c emb now) of
         Inl err \<Rightarrow> (Inl err, ms, [put_request (ms_config ms) a (made_entry a g c emb now)])
       | Inr _ \<Rightarrow> (Inr (made_entry a g c emb now),
           if localCache (ms_config ms) then ms\<lparr>ms_cache := book_put a (made_entry a g c emb now) (ms_cache ms)\<rparr> else ms,
           [put_request (ms_config ms) a (made_entry a g c emb now)]))"
  using derive_bytes [OF assms, of g "Str c"] by (simp add: store_def Let_def)

text \<open>C24: storing makes exactly one request, a PUT of the entry under its own address and depth.  If the
  service refuses or cannot be reached the call fails and the store is unchanged; otherwise the entry is
  returned and, with a cache, can be read back at once without another request.\<close>

theorem store_atomic:
  assumes "noble_ok lib" "store lib dag ms g c emb now = (r, ms', reqs)"
  shows "\<exists>a e. derive lib g (Str c) = Inr a \<and> me_address e = toHex a \<and> me_content e = c \<and> me_grammar e = g \<and>
     reqs = [PostPut (hippocampusUrl (ms_config ms) @ ''/api/v1/put'') (toHex a) (top_level g) e] \<and>
     (case dag (hd reqs) of
        Inl err \<Rightarrow> r = Inl err \<and> ms' = ms
      | Inr reply \<Rightarrow>
          (if r_ok reply
           then r = Inr e \<and> ms_config ms' = ms_config ms \<and>
                (localCache (ms_config ms) \<longrightarrow>
                   fst (getMemory dag' ms' (toHex a) t) = Inr (Some (e\<lparr>me_accessedAt := t\<rparr>)) \<and>
                   snd (snd (getMemory dag' ms' (toHex a) t)) = [])
           else r = Inl (''hippocampus PUT failed: '' @ dec (r_status reply) @ '' '' @ r_text reply) \<and> ms' = ms))"
proof -
  obtain a where a: "derive lib g (Str c) = Inr a"
    and s: "store lib dag ms g c emb now =
      (case dagPut dag (ms_config ms) a (made_entry a g c emb now) of
         Inl err \<Rightarrow> (Inl err, ms, [put_request (ms_config ms) a (made_entry a g c emb now)])
       | Inr _ \<Rightarrow> (Inr (made_entry a g c emb now),
           if localCache (ms_config ms) then ms\<lparr>ms_cache := book_put a (made_entry a g c emb now) (ms_cache ms)\<rparr> else ms,
           [put_request (ms_config ms) a (made_entry a g c emb now)]))"
    by (rule store_cases [OF assms(1)])
  have "depth a = top_level g" by (rule derived_depth [OF assms(1) a])
  with a s assms(2) show ?thesis
    by (intro exI [of _ a] exI [of _ "made_entry a g c emb now"])
      (auto simp: dagPut_def put_request_def made_entry_def getMemory_def getByHex_toHex get_put
        split: sum.splits if_splits)
qed

definition sample_dag :: dag where
  "sample_dag req = Inr \<lparr>r_ok = True, r_status = 200, r_text = '''', r_entries = Some [],
     r_entry = \<lparr>me_address = '''', me_grammar = empty_grammar, me_content = '''', me_embedding = None,
        me_createdAt = 0, me_accessedAt = 0, me_score = None\<rparr>\<rparr>"

theorem store_atomic_witness:
  "\<exists>r ms' reqs. store demo_noble sample_dag (new_store DEFAULT_CONFIG) empty_grammar ''tea'' None 5 = (r, ms', reqs) \<and>
     (\<exists>e. r = Inr e \<and> me_content e = ''tea'')"
proof -
  obtain r ms' reqs where s: "store demo_noble sample_dag (new_store DEFAULT_CONFIG) empty_grammar ''tea'' None 5 = (r, ms', reqs)"
    by (metis prod.collapse)
  from store_atomic [OF noble_ok_demo s, of sample_dag 9] obtain e where
    "me_content e = ''tea''" "r = Inr e" by (auto simp: sample_dag_def)
  with s show ?thesis by blast
qed

lemma recall_hit:
  assumes "query_grammar q = Some g" "localCache (ms_config ms)" "book_query (ms_cache ms) (derivePartial lib g) \<noteq> []"
  shows "recall lib dag ms q clock =
    (Inr (slice0 (map en_value (book_query (touch_matches (derivePartial lib g) clock 0 (ms_cache ms)) (derivePartial lib g)))
        (case q_limit q of None \<Rightarrow> defaultLimit (ms_config ms) | Some l \<Rightarrow> l)),
     ms\<lparr>ms_cache := touch_matches (derivePartial lib g) clock 0 (ms_cache ms)\<rparr>, [])"
  using assms by (simp add: recall_def Let_def)

lemma store_success:
  assumes "noble_ok lib" "store lib dag ms g c emb now = (Inr e, ms', reqs)"
  shows "\<exists>a. derive lib g (Str c) = Inr a \<and> e = made_entry a g c emb now \<and>
     ms' = (if localCache (ms_config ms) then ms\<lparr>ms_cache := book_put a e (ms_cache ms)\<rparr> else ms)"
proof -
  obtain a where "derive lib g (Str c) = Inr a"
    and s: "store lib dag ms g c emb now =
      (case dagPut dag (ms_config ms) a (made_entry a g c emb now) of
         Inl err \<Rightarrow> (Inl err, ms, [put_request (ms_config ms) a (made_entry a g c emb now)])
       | Inr _ \<Rightarrow> (Inr (made_entry a g c emb now),
           if localCache (ms_config ms) then ms\<lparr>ms_cache := book_put a (made_entry a g c emb now) (ms_cache ms)\<rparr> else ms,
           [put_request (ms_config ms) a (made_entry a g c emb now)]))"
    by (rule store_cases [OF assms(1)])
  then show ?thesis
    using assms(2) by (cases "dagPut dag (ms_config ms) a (made_entry a g c emb now)") auto
qed

text \<open>What was stored is recalled.  After a successful store with a cache, a recall by any shortened form
  of the grammar (or the whole) whose limit is at least the size of the cache returns, without a request,
  the stored entry, up to its access time.\<close>

lemma store_then_recall:
  assumes "noble_ok lib" "book_inv (ms_cache ms)" "localCache (ms_config ms)"
    and "store lib dag ms g c emb now = (Inr e, ms', reqs)"
    and "q_grammar q = Some (keep_facets k g)" "q_limit q = Some l" "int (cacheSize ms') \<le> l"
  shows "\<exists>es ms''. recall lib dag' ms' q clock = (Inr es, ms'', []) \<and> untimed e \<in> set (map untimed es)"
proof -
  let ?p = "derivePartial lib (keep_facets k g)"
  obtain a where a: "derive lib g (Str c) = Inr a"
    and e: "e = made_entry a g c emb now" and m: "ms' = ms\<lparr>ms_cache := book_put a e (ms_cache ms)\<rparr>"
    using store_success [OF assms(1,4)] assms(3) by auto
  have "prefixMatch a ?p"
    using lead_le [of g] by (simp add: match_partial [OF assms(1) a] lead_keep facet_seg_keep)
  then have q: "(a, e) \<in> set (query_pairs (ms_cache ms') ?p)"
    using index.query_put [OF assms(2)] by (simp add: m)
  then have ne: "book_query (ms_cache ms') ?p \<noteq> []" by (auto simp: query_pairs_def)
  have g: "query_grammar q = Some (keep_facets k g)" by (simp add: query_grammar_def assms(5))
  let ?b = "touch_matches ?p clock 0 (ms_cache ms')"
  let ?vs = "map en_value (book_query ?b ?p)"
  have u: "map untimed ?vs = map untimed (map en_value (book_query (ms_cache ms') ?p))" by (rule values_touch)
  then have "length ?vs = length (book_query (ms_cache ms') ?p)" by (metis length_map)
  then have "int (length ?vs) \<le> l"
    using assms(7) length_query_le [of "ms_cache ms'" ?p] by (simp add: cacheSize_def)
  then have s: "slice0 ?vs l = ?vs" by (rule slice0_all)
  have i: "untimed e \<in> set (map untimed ?vs)"
    unfolding u using q by (force simp: query_pairs_def)
  have "localCache (ms_config ms')" using assms(3) m by simp
  from recall_hit [OF g this ne, of dag' clock] assms(6) s
  have "recall lib dag' ms' q clock = (Inr ?vs, ms'\<lparr>ms_cache := ?b\<rparr>, [])" by simp
  with i show ?thesis by blast
qed

lemma store_then_recall_witness:
  "\<exists>e ms' reqs es ms''. store demo_noble sample_dag (new_store DEFAULT_CONFIG)
      (empty_grammar\<lparr>g_domain := Some (One ''goal''), g_entity := Some (One ''tea'')\<rparr>) ''brew'' None 5 = (Inr e, ms', reqs) \<and>
     recall demo_noble sample_dag ms'
       \<lparr>q_grammar = Some (keep_facets 1 (empty_grammar\<lparr>g_domain := Some (One ''goal''), g_entity := Some (One ''tea'')\<rparr>)),
        q_text = None, q_limit = Some 3, q_minDepth = None\<rparr> (\<lambda>i. 9) = (Inr es, ms'', []) \<and>
     untimed e \<in> set (map untimed es) \<and> me_content e = ''brew''"
proof -
  let ?g = "empty_grammar\<lparr>g_domain := Some (One ''goal''), g_entity := Some (One ''tea'')\<rparr>"
  let ?q = "\<lparr>q_grammar = Some (keep_facets 1 ?g), q_text = None, q_limit = Some 3, q_minDepth = None\<rparr>"
  let ?ms = "new_store DEFAULT_CONFIG"
  obtain a where a: "derive demo_noble ?g (Str ''brew'') = Inr a" using derive_bytes [OF noble_ok_demo] by blast
  let ?e = "made_entry a ?g ''brew'' None 5"
  have s: "store demo_noble sample_dag ?ms ?g ''brew'' None 5 =
      (Inr ?e, ?ms\<lparr>ms_cache := book_put a ?e []\<rparr>, [put_request DEFAULT_CONFIG a ?e])"
    using a by (simp add: store_def dagPut_def sample_dag_def new_store_def DEFAULT_CONFIG_def Let_def)
  have "book_inv (ms_cache ?ms)" "localCache (ms_config ?ms)"
    by (simp_all add: new_store_def DEFAULT_CONFIG_def)
  from store_then_recall [OF noble_ok_demo this s, of ?q 1 3 sample_dag "\<lambda>i. 9"]
  obtain es ms'' where "recall demo_noble sample_dag (?ms\<lparr>ms_cache := book_put a ?e []\<rparr>) ?q (\<lambda>i. 9) = (Inr es, ms'', [])"
    "untimed ?e \<in> set (map untimed es)"
    by (auto simp: cacheSize_def book_size_def book_put_def)
  moreover have "me_content ?e = ''brew''" by (simp add: made_entry_def)
  ultimately show ?thesis using s by blast
qed

text \<open>A cached match hides the service.  If any cached memory matches the query, \<open>recall\<close> makes no
  request, its result does not depend on the service at all and holds only cached memories; and a query
  whose grammar names no domain is answered with the first cached memories of any kind.\<close>

lemma recall_cache_shadows_dag:
  assumes "noble_ok lib" "query_grammar q = Some g" "localCache (ms_config ms)"
    and "book_get (ms_cache ms) a = Some v" "book_inv (ms_cache ms)" "prefixMatch a (derivePartial lib g)"
  shows "recall lib dag ms q clock = recall lib dag' ms q clock \<and> snd (snd (recall lib dag ms q clock)) = [] \<and>
    (\<exists>es. fst (recall lib dag ms q clock) = Inr es \<and>
       set (map untimed es) \<subseteq> untimed ` en_value ` snd ` set (ms_cache ms) \<and>
       (g_domain g = None \<longrightarrow> map untimed es = slice0 (map untimed (map (en_value \<circ> snd) (ms_cache ms)))
          (case q_limit q of None \<Rightarrow> defaultLimit (ms_config ms) | Some l \<Rightarrow> l)))"
proof -
  let ?p = "derivePartial lib g"
  let ?l = "case q_limit q of None \<Rightarrow> defaultLimit (ms_config ms) | Some l \<Rightarrow> l"
  let ?vs = "map en_value (book_query (touch_matches ?p clock 0 (ms_cache ms)) ?p)"
  have "(a, v) \<in> set (query_pairs (ms_cache ms) ?p)" using assms(4-6) by (simp add: query_pairs_iff)
  then have ne: "book_query (ms_cache ms) ?p \<noteq> []" by (auto simp: query_pairs_def)
  have u: "map untimed ?vs = map untimed (map en_value (book_query (ms_cache ms) ?p))" by (rule values_touch)
  have sl: "map untimed (slice0 ?vs ?l) = slice0 (map untimed ?vs) ?l" by (simp add: slice0_def take_map)
  have "set (map untimed (slice0 ?vs ?l)) \<subseteq> set (map untimed ?vs)"
    unfolding sl by (rule set_slice0)
  also have "\<dots> \<subseteq> untimed ` en_value ` snd ` set (ms_cache ms)"
    unfolding u by (auto simp: book_query_def)
  finally have sub: "set (map untimed (slice0 ?vs ?l)) \<subseteq> untimed ` en_value ` snd ` set (ms_cache ms)" .
  have all: "map untimed (slice0 ?vs ?l) = slice0 (map untimed (map (en_value \<circ> snd) (ms_cache ms))) ?l"
    if "g_domain g = None"
  proof -
    have "lead g = 0" using that by (simp add: lead_def FACET_ORDER_def facet_text_def)
    then have "book_query (ms_cache ms) ?p = map snd (ms_cache ms)"
      by (simp add: book_query_def prefixMatch_def derivePartial_bytes(2) [OF assms(1)])
    then show ?thesis unfolding sl u by simp
  qed
  have r: "recall lib d ms q clock = (Inr (slice0 ?vs ?l), ms\<lparr>ms_cache := touch_matches ?p clock 0 (ms_cache ms)\<rparr>, [])" for d
    by (rule recall_hit [OF assms(2,3) ne])
  show ?thesis unfolding r using sub all by simp
qed

lemma recall_cache_shadows_dag_witness:
  "\<exists>a v. recall demo_noble sample_dag \<lparr>ms_config = DEFAULT_CONFIG, ms_cache = book_put a v []\<rparr>
        \<lparr>q_grammar = Some (empty_grammar\<lparr>g_entity := Some (One ''bob'')\<rparr>), q_text = None, q_limit = None, q_minDepth = None\<rparr> (\<lambda>i. 9) =
      recall demo_noble (\<lambda>req. Inl ''offline'') \<lparr>ms_config = DEFAULT_CONFIG, ms_cache = book_put a v []\<rparr>
        \<lparr>q_grammar = Some (empty_grammar\<lparr>g_entity := Some (One ''bob'')\<rparr>), q_text = None, q_limit = None, q_minDepth = None\<rparr> (\<lambda>i. 9)"
proof -
  let ?g = "empty_grammar\<lparr>g_entity := Some (One ''bob'')\<rparr>"
  let ?q = "\<lparr>q_grammar = Some ?g, q_text = None, q_limit = None, q_minDepth = None\<rparr>"
  let ?a = "\<lparr>sa_bytes = replicate 32 (1 :: byte)\<rparr>"
  let ?v = "made_entry ?a empty_grammar ''x'' None 0"
  let ?ms = "\<lparr>ms_config = DEFAULT_CONFIG, ms_cache = book_put ?a ?v []\<rparr>"
  have "query_grammar ?q = Some ?g" "localCache (ms_config ?ms)"
    "book_get (ms_cache ?ms) ?a = Some ?v" "book_inv (ms_cache ?ms)"
    by (simp_all add: query_grammar_def DEFAULT_CONFIG_def get_put book_inv_put)
  moreover have "lead ?g = 0" by code_simp
  then have "prefixMatch ?a (derivePartial demo_noble ?g)"
    by (simp add: prefixMatch_def derivePartial_bytes(2))
  ultimately show ?thesis
    using recall_cache_shadows_dag [OF noble_ok_demo, of ?q ?g ?ms ?a ?v sample_dag "\<lambda>i. 9" "\<lambda>req. Inl ''offline''"] by blast
qed

lemma put_query_new:
  assumes "book_get b a = None" "book_inv b"
  shows "book_query (book_put a v b) p =
    book_query b p @ (if prefixMatch a p then [\<lparr>en_address = a, en_value = v\<rparr>] else [])"
proof -
  have "map_of b (toHex a) = None" using assms(1) by (simp add: book_get_def)
  then have "AList.update (toHex a) x b = b @ [(toHex a, x)]" for x
    by (induction b) (auto split: if_splits)
  then show ?thesis by (simp add: book_put_def book_query_def)
qed

lemma populate_query:
  assumes "book_inv b" "list_all (\<lambda>e. \<exists>a. fromHex (me_address e) = Inr a \<and> prefixMatch a p \<and> book_get b a = None) es"
    and "distinct (map (\<lambda>e. fromHex (me_address e)) es)"
  shows "map en_value (book_query (fst (populate b es)) p) = map en_value (book_query b p) @ es \<and>
    snd (populate b es) = None"
  using assms
proof (induction es arbitrary: b)
  case (Cons e es)
  then obtain a where a: "fromHex (me_address e) = Inr a" "prefixMatch a p" "book_get b a = None" by auto
  have "list_all (\<lambda>x. \<exists>a'. fromHex (me_address x) = Inr a' \<and> prefixMatch a' p \<and> book_get (book_put a e b) a' = None) es"
    unfolding list_all_iff
  proof
    fix x assume x: "x \<in> set es"
    with Cons.prems(2) obtain a' where a': "fromHex (me_address x) = Inr a'" "prefixMatch a' p" "book_get b a' = None"
      by (auto simp: list_all_iff)
    moreover have "a' \<noteq> a" using Cons.prems(3) x a(1) a'(1) by force
    ultimately show "\<exists>a'. fromHex (me_address x) = Inr a' \<and> prefixMatch a' p \<and> book_get (book_put a e b) a' = None"
      by (simp add: get_put)
  qed
  from Cons.IH [OF book_inv_put [OF Cons.prems(1)] this] Cons.prems(3) a show ?case
    by (simp add: put_query_new Cons.prems(1))
qed simp

text \<open>A recall that misses the cache and is answered by the service fills the cache so that the same
  recall asked again is answered from the cache: without a request, with the same memories in the same
  order.\<close>

lemma recall_miss_then_hit:
  assumes "query_grammar q = Some g" "localCache (ms_config ms)" "book_inv (ms_cache ms)"
    and "book_query (ms_cache ms) (derivePartial lib g) = []" "q_limit q = Some l" "int (length es) \<le> l" "es \<noteq> []"
    and "dagQuery dag (ms_config ms) (derivePartial lib g) l = Inr es"
    and "list_all (\<lambda>e. \<exists>a. fromHex (me_address e) = Inr a \<and> prefixMatch a (derivePartial lib g)) es"
    and "distinct (map (\<lambda>e. fromHex (me_address e)) es)"
  shows "\<exists>ms' ms'' es'. recall lib dag ms q clock =
        (Inr es, ms', [query_request (ms_config ms) (derivePartial lib g) l]) \<and>
     recall lib dag' ms' q clock' = (Inr es', ms'', []) \<and> map untimed es' = map untimed es"
proof -
  let ?p = "derivePartial lib g"
  have "book_get (ms_cache ms) a = None" if "prefixMatch a ?p" for a
    using query_pairs_iff [OF assms(3), of a _ ?p] that assms(4) by (auto simp: query_pairs_def)
  then have "list_all (\<lambda>e. \<exists>a. fromHex (me_address e) = Inr a \<and> prefixMatch a ?p \<and> book_get (ms_cache ms) a = None) es"
    using assms(9) by (auto simp: list_all_iff)
  from populate_query [OF assms(3) this assms(10)] assms(4) obtain b where
    b: "populate (ms_cache ms) es = (b, None)" "map en_value (book_query b ?p) = es"
    by (cases "populate (ms_cache ms) es") auto
  have r1: "recall lib dag ms q clock =
      (Inr es, ms\<lparr>ms_cache := b\<rparr>, [query_request (ms_config ms) ?p l])"
    using assms(1,2,4,5,8) b(1) by (simp add: recall_def Let_def)
  have ne: "book_query (ms_cache (ms\<lparr>ms_cache := b\<rparr>)) ?p \<noteq> []" using b(2) assms(7) by auto
  let ?vs = "map en_value (book_query (touch_matches ?p clock' 0 b) ?p)"
  have u: "map untimed ?vs = map untimed es" using values_touch [of ?p clock' 0 b ?p] b(2) by simp
  then have "length ?vs = length es" by (metis length_map)
  then have s: "slice0 ?vs l = ?vs" using assms(6) by (intro slice0_all) simp
  have "recall lib dag' (ms\<lparr>ms_cache := b\<rparr>) q clock' =
      (Inr ?vs, ms\<lparr>ms_cache := touch_matches ?p clock' 0 b\<rparr>, [])"
    using recall_hit [OF assms(1) _ ne, of dag' clock'] assms(2,5) s by simp
  with r1 u show ?thesis by blast
qed

text \<open>The operations on a store, and the store a sequence of them makes; each meets its own service.\<close>

datatype mem_op = Store grammar string "rat list option" nat | Recall mem_query "nat \<Rightarrow> nat" | Get string nat

fun mem_step :: "noble \<Rightarrow> memory_store \<Rightarrow> dag \<times> mem_op \<Rightarrow> memory_store" where
  "mem_step lib ms (dag, Store g c emb now) = fst (snd (store lib dag ms g c emb now))"
| "mem_step lib ms (dag, Recall q clock) = fst (snd (recall lib dag ms q clock))"
| "mem_step lib ms (dag, Get h now) = fst (snd (getMemory dag ms h now))"

text \<open>Keys stay under their addresses, the configuration stays, nothing cached is lost, and without the
  cache option nothing is cached.\<close>

definition step_ok :: "memory_store \<Rightarrow> memory_store \<Rightarrow> bool" where
  "step_ok ms ms' \<longleftrightarrow> book_inv (ms_cache ms') \<and> ms_config ms' = ms_config ms \<and>
     (\<forall>a. book_get (ms_cache ms) a \<noteq> None \<longrightarrow> book_get (ms_cache ms') a \<noteq> None) \<and>
     (\<not> localCache (ms_config ms) \<longrightarrow> ms_cache ms' = ms_cache ms)"

lemma get_touch_keeps:
  "book_get b a \<noteq> None \<Longrightarrow> book_get (touch_matches p clock i b) a \<noteq> None"
  "book_get b a \<noteq> None \<Longrightarrow> book_get (touch_key h t b) a \<noteq> None"
  using get_touch(1) [of p clock i b a] get_touch(2) [of h t b a] by auto

lemma step_ok_store:
  assumes "book_inv (ms_cache ms)"
  shows "step_ok ms (fst (snd (store lib dag ms g c emb now)))"
  using assms by (auto simp: step_ok_def store_def Let_def get_put book_inv_put split: sum.splits)

lemma step_ok_recall:
  assumes "book_inv (ms_cache ms)"
  shows "step_ok ms (fst (snd (recall lib dag ms q clock)))"
proof (cases "query_grammar q")
  case (Some g)
  have "step_ok ms (ms\<lparr>ms_cache := fst (populate (ms_cache ms) es)\<rparr>)" if "localCache (ms_config ms)" for es
    using assms that populate_keeps [OF assms, of _ es] by (auto simp: step_ok_def populate_inv)
  then have p: "populate (ms_cache ms) es = (b, r) \<Longrightarrow> localCache (ms_config ms) \<Longrightarrow> step_ok ms (ms\<lparr>ms_cache := b\<rparr>)" for es b r
    by (metis fst_conv)
  have t: "localCache (ms_config ms) \<Longrightarrow> step_ok ms (ms\<lparr>ms_cache := touch_matches p clock 0 (ms_cache ms)\<rparr>)" for p
    using assms get_touch_keeps(1) [of "ms_cache ms" _ p clock 0] by (auto simp: step_ok_def)
  show ?thesis
    using assms Some by (auto simp: recall_def Let_def t p step_ok_def [of ms ms] split: sum.splits option.splits prod.splits)
qed (use assms in \<open>simp add: recall_def step_ok_def Let_def\<close>)

lemma step_ok_get:
  assumes "book_inv (ms_cache ms)"
  shows "step_ok ms (fst (snd (getMemory dag ms h now)))"
  using assms get_touch_keeps(2) [of "ms_cache ms" _ h now]
  by (auto simp: getMemory_def step_ok_def split: option.splits if_splits)

lemma step_ok_step: "book_inv (ms_cache ms) \<Longrightarrow> step_ok ms (mem_step lib ms op)"
  by (cases "(lib, ms, op)" rule: mem_step.cases) (auto simp: step_ok_store step_ok_recall step_ok_get)

lemma step_okD:
  "step_ok ms ms' \<Longrightarrow> dom (book_get (ms_cache ms)) \<subseteq> dom (book_get (ms_cache ms'))"
  "step_ok ms ms' \<Longrightarrow> book_inv (ms_cache ms')"
  by (auto simp: step_ok_def)

lemma step_ok_trans: "step_ok a b \<Longrightarrow> step_ok b c \<Longrightarrow> step_ok a c"
  by (auto simp: step_ok_def)

lemma step_ok_run: "book_inv (ms_cache ms) \<Longrightarrow> step_ok ms (foldl (mem_step lib) ms ops)"
proof (induction ops rule: rev_induct)
  case (snoc op ops)
  then have "step_ok ms (foldl (mem_step lib) ms ops)" by simp
  moreover from this have "step_ok (foldl (mem_step lib) ms ops) (foldl (mem_step lib) ms (ops @ [op]))"
    by (simp add: step_ok_step step_ok_def [of ms])
  ultimately show ?case by (rule step_ok_trans)
qed (simp add: step_ok_def)

text \<open>Whatever the services answer, or fail to answer, after any sequence of stores, recalls and gets
  the cache is a well-formed book, and an address that is cached stays cached: the cache never shrinks.\<close>

lemma cache_never_evicts:
  "book_inv (ms_cache (foldl (mem_step lib) (new_store cfg) ops)) \<and>
   ms_config (foldl (mem_step lib) (new_store cfg) ops) = cfg \<and>
   dom (book_get (ms_cache (foldl (mem_step lib) (new_store cfg) ops))) \<subseteq>
     dom (book_get (ms_cache (foldl (mem_step lib) (new_store cfg) (ops @ ops')))) \<and>
   cacheSize (foldl (mem_step lib) (new_store cfg) ops) \<le> cacheSize (foldl (mem_step lib) (new_store cfg) (ops @ ops'))"
proof -
  let ?m = "foldl (mem_step lib) (new_store cfg) ops" and ?n = "foldl (mem_step lib) (new_store cfg) (ops @ ops')"
  have m: "step_ok (new_store cfg) ?m" by (rule step_ok_run) (simp add: new_store_def)
  then have i: "book_inv (ms_cache ?m)" by (simp add: step_ok_def)
  from step_ok_run [OF this, of lib ops'] have n: "step_ok ?m ?n" by (simp only: foldl_append)
  then have sub: "dom (book_get (ms_cache ?m)) \<subseteq> dom (book_get (ms_cache ?n))" and j: "book_inv (ms_cache ?n)"
    by (rule step_okD)+
  have "finite (dom (book_get (ms_cache ?n)))"
    unfolding dom_addresses [OF j] by simp
  with sub have "cacheSize ?m \<le> cacheSize ?n"
    unfolding cacheSize_def distinct_addresses_size [OF i] distinct_addresses_size [OF j] by (intro card_mono)
  moreover have "ms_config ?m = cfg" using m by (simp add: step_ok_def new_store_def)
  ultimately show ?thesis using sub i by blast
qed

definition sample_entry :: "semantic_address \<Rightarrow> mem_entry" where
  "sample_entry a = made_entry a empty_grammar ''brew'' None 0"

lemma recall_miss_then_hit_witness:
  "\<exists>e dag ms' ms'' es'. recall demo_noble dag (new_store DEFAULT_CONFIG)
       \<lparr>q_grammar = Some empty_grammar, q_text = None, q_limit = Some 2, q_minDepth = None\<rparr> (\<lambda>i. 1) =
       (Inr [e], ms', [query_request DEFAULT_CONFIG (derivePartial demo_noble empty_grammar) 2]) \<and>
     recall demo_noble sample_dag ms'
       \<lparr>q_grammar = Some empty_grammar, q_text = None, q_limit = Some 2, q_minDepth = None\<rparr> (\<lambda>i. 2) = (Inr es', ms'', []) \<and>
     map untimed es' = map untimed [e]"
proof -
  let ?q = "\<lparr>q_grammar = Some empty_grammar, q_text = None, q_limit = Some 2, q_minDepth = None\<rparr>"
  let ?ms = "new_store DEFAULT_CONFIG"
  let ?a = "\<lparr>sa_bytes = replicate 32 (1 :: byte)\<rparr>"
  let ?e = "sample_entry ?a"
  let ?dag = "\<lambda>req. Inr \<lparr>r_ok = True, r_status = 200, r_text = '''', r_entries = Some [?e], r_entry = ?e\<rparr>"
  have "lead empty_grammar = 0" by code_simp
  then have p: "prefixMatch ?a (derivePartial demo_noble empty_grammar)"
    by (simp add: prefixMatch_def derivePartial_bytes(2))
  have f: "fromHex (me_address ?e) = Inr ?a" 
    by (simp add: sample_entry_def made_entry_def fromHex_of_toHex)
  have d: "dagQuery ?dag (ms_config ?ms) (derivePartial demo_noble empty_grammar) 2 = Inr [?e]"
    by (simp add: dagQuery_def)
  have "query_grammar ?q = Some empty_grammar" "localCache (ms_config ?ms)" "book_inv (ms_cache ?ms)"
    "book_query (ms_cache ?ms) (derivePartial demo_noble empty_grammar) = []" "q_limit ?q = Some 2"
    "int (length [?e]) \<le> 2" "[?e] \<noteq> []"
    by (simp_all add: query_grammar_def new_store_def DEFAULT_CONFIG_def book_query_def)
  note hyps = this
  have "list_all (\<lambda>e. \<exists>a. fromHex (me_address e) = Inr a \<and> prefixMatch a (derivePartial demo_noble empty_grammar)) [?e]"
    "distinct (map (\<lambda>e. fromHex (me_address e)) [?e])" using f p by simp_all
  from recall_miss_then_hit [OF hyps d this, of "\<lambda>i. 1" sample_dag "\<lambda>i. 2"]
  have "\<exists>ms' ms'' es'. recall demo_noble ?dag ?ms ?q (\<lambda>i. 1) =
        (Inr [?e], ms', [query_request (ms_config ?ms) (derivePartial demo_noble empty_grammar) 2]) \<and>
     recall demo_noble sample_dag ms' ?q (\<lambda>i. 2) = (Inr es', ms'', []) \<and> map untimed es' = map untimed [?e]"
 .
  moreover have "ms_config ?ms = DEFAULT_CONFIG" by (simp add: new_store_def)
  ultimately show ?thesis by metis
qed

end
