(* ===== verification/Agent.thy ===== *)
theory Agent
  imports MemoryStore
begin

text \<open>
  \<^verbatim>\<open>services/agent-runtime/src/agent.ts\<close>: the agent loop.  The model behind \<open>inference.complete\<close>, the
  handler of external tools and the hippocampus service are parameters (\<open>env\<close>): the answer of the model
  to its \<open>n\<close>-th call, the text an external tool returns or throws, and the service and the clock that
  the \<open>n\<close>-th memory operation meets.  An exception is the left value of a result and carries
  \<open>String(err)\<close>.  Logging is left out; the dash U+2014 in texts is outside the range of the model and
  written as a hyphen.
\<close>

subsection \<open>Arguments of tool calls\<close>

text \<open>JSON values; numbers are integers here.\<close>

datatype json = JNull | JBool bool | JNum int | JStr string | JArr "json list" | JObj "(string \<times> json) list"

definition dec_int :: "int \<Rightarrow> string" where
  "dec_int n = (if n < 0 then ''-'' @ dec (nat (- n)) else dec (nat n))"

text \<open>\<open>String(v)\<close>; inside an array \<open>null\<close> prints as nothing.\<close>

fun js_String :: "json \<Rightarrow> string" where
  "js_String JNull = ''null''"
| "js_String (JBool b) = (if b then ''true'' else ''false'')"
| "js_String (JNum n) = dec_int n"
| "js_String (JStr s) = s"
| "js_String (JArr vs) = join '','' (map (\<lambda>v. if v = JNull then [] else js_String v) vs)"
| "js_String (JObj ps) = ''[object Object]''"

fun truthy :: "json \<Rightarrow> bool" where
  "truthy JNull = False"
| "truthy (JBool b) = b"
| "truthy (JNum n) = (n \<noteq> 0)"
| "truthy (JStr s) = (s \<noteq> [])"
| "truthy (JArr vs) = True"
| "truthy (JObj ps) = True"

type_synonym args = "(string \<times> json) list"

text \<open>
  The properties of a value that are read from \<open>call.arguments\<close>: reading one of \<open>null\<close> throws, and values
  other than objects have none of the names the tools read.  ECMAScript leaves the message of a
  \<open>TypeError\<close> to the implementation; only its name is kept.
\<close>

definition type_error :: string where
  "type_error = ''TypeError''"

fun properties :: "json \<Rightarrow> args" where
  "properties (JObj ps) = ps"
| "properties _ = []"

text \<open>\<open>if (args.k) grammar.k = String(args.k)\<close>, \<open>String(args.k ?? '')\<close> and the limit.\<close>

definition arg_facet :: "args \<Rightarrow> string \<Rightarrow> facet_value option" where
  "arg_facet as k = (case map_of as k of
     None \<Rightarrow> None | Some v \<Rightarrow> if truthy v then Some (One (js_String v)) else None)"

definition arg_grammar :: "args \<Rightarrow> grammar" where
  "arg_grammar as = \<lparr>g_domain = arg_facet as ''domain'', g_entity = arg_facet as ''entity'',
     g_relation = arg_facet as ''relation'', g_temporal = arg_facet as ''temporal'',
     g_qualifier = arg_facet as ''qualifier''\<rparr>"

definition arg_text :: "args \<Rightarrow> string \<Rightarrow> string" where
  "arg_text as k = (case map_of as k of None \<Rightarrow> [] | Some JNull \<Rightarrow> [] | Some v \<Rightarrow> js_String v)"

definition arg_limit :: "args \<Rightarrow> int" where
  "arg_limit as = (case map_of as ''limit'' of Some (JNum n) \<Rightarrow> n | _ \<Rightarrow> 10)"

subsection \<open>State\<close>

datatype role = System | User | Assistant | Tool

record message =
  m_role :: role
  m_content :: string
  m_name :: "string option"
  m_tool_call_id :: "string option"

record tool_definition =
  td_name :: string
  td_description :: string
  td_parameters :: json

record tool_call =
  tc_id :: string
  tc_name :: string
  tc_arguments :: json

record inference_result =
  ir_content :: string
  ir_toolCalls :: "tool_call list"
  ir_promptTokens :: nat
  ir_completionTokens :: nat
  ir_finishReason :: string

record agent_config =
  ac_id :: string
  ac_name :: string
  ac_systemPrompt :: string
  ac_maxSteps :: nat
  ac_tokenBudget :: nat
  ac_tools :: "tool_definition list"

datatype agent_status = Idle | Running | Completed | Error | BudgetExhausted

record agent =
  ag_config :: agent_config
  ag_memory :: memory_store
  ag_messages :: "message list"
  ag_totalTokens :: nat
  ag_step :: nat
  ag_status :: agent_status
  ag_memoriesStored :: nat
  ag_memoriesRecalled :: nat
  ag_ops :: nat

record agent_result =
  ar_output :: string
  ar_memoriesStored :: nat
  ar_memoriesRecalled :: nat
  ar_steps :: nat
  ar_tokensUsed :: nat
  ar_status :: agent_status

text \<open>What the agent meets; \<^const>\<open>ag_ops\<close> counts the memory operations and only indexes \<open>env_dag\<close>
  and \<open>env_clock\<close>.\<close>

record env =
  env_noble :: noble
  env_complete :: "nat \<Rightarrow> message list \<Rightarrow> tool_definition list \<Rightarrow> inference_result result"
  env_toolHandler :: "tool_call \<Rightarrow> string result"
  env_dag :: "nat \<Rightarrow> dag"
  env_clock :: "nat \<Rightarrow> nat \<Rightarrow> nat"

definition typed :: "string \<Rightarrow> json" where
  "typed ty = JObj [(''type'', JStr ty)]"

definition described :: "string \<Rightarrow> string \<Rightarrow> json" where
  "described ty d = JObj [(''type'', JStr ty), (''description'', JStr d)]"

definition MEMORY_TOOLS :: "tool_definition list" where
  "MEMORY_TOOLS =
    [\<lparr>td_name = ''remember'',
      td_description = ''Store a memory in the distributed semantic memory store. Provide a grammar (domain, entity, relation, temporal, qualifier) describing WHAT this memory IS, and the content to store.'',
      td_parameters = JObj [(''type'', JStr ''object''),
        (''properties'', JObj
          [(''domain'', described ''string'' ''Broad category: reasoning, conversation, perception, action, learning, storage, retrieval, navigation, affect, goal''),
           (''entity'', described ''string'' ''The specific thing/concept this memory is about''),
           (''relation'', described ''string'' ''How this relates: caused-by, contains, depends-on, contradicts, supports, associated-with, precedes, follows''),
           (''temporal'', described ''string'' ''When: immediate, recent, session, prior-session, historical, permanent''),
           (''qualifier'', described ''string'' ''Priority/confidence: high-priority, uncertain, confirmed, private, shared''),
           (''content'', described ''string'' ''The actual memory content to store'')]),
        (''required'', JArr [JStr ''domain'', JStr ''content''])]\<rparr>,
     \<lparr>td_name = ''recall'',
      td_description = ''Retrieve memories from the distributed store by semantic prefix. Provide as many grammar facets as you know - fewer facets = broader search, more facets = precise lookup.'',
      td_parameters = JObj [(''type'', JStr ''object''),
        (''properties'', JObj
          [(''domain'', typed ''string''), (''entity'', typed ''string''), (''relation'', typed ''string''),
           (''temporal'', typed ''string''), (''qualifier'', typed ''string''),
           (''limit'', described ''number'' ''Max results (default 10)'')])]\<rparr>,
     \<lparr>td_name = ''reflect'',
      td_description = ''Parse a natural language description and recall related memories. Use when you want to find memories but are unsure of the exact grammar facets.'',
      td_parameters = JObj [(''type'', JStr ''object''),
        (''properties'', JObj
          [(''text'', described ''string'' ''Natural language description of what you want to recall''),
           (''limit'', described ''number'' ''Max results (default 10)'')]),
        (''required'', JArr [JStr ''text''])]\<rparr>]"

definition message_of :: "role \<Rightarrow> string \<Rightarrow> message" where
  "message_of r c = \<lparr>m_role = r, m_content = c, m_name = None, m_tool_call_id = None\<rparr>"

definition new_agent :: "agent_config \<Rightarrow> memory_store \<Rightarrow> agent" where
  "new_agent cfg ms = \<lparr>ag_config = cfg, ag_memory = ms,
     ag_messages = [message_of System (ac_systemPrompt cfg)], ag_totalTokens = 0, ag_step = 0,
     ag_status = Idle, ag_memoriesStored = 0, ag_memoriesRecalled = 0, ag_ops = 0\<rparr>"

definition buildResult :: "agent \<Rightarrow> string \<Rightarrow> agent_result" where
  "buildResult ag out = \<lparr>ar_output = out, ar_memoriesStored = ag_memoriesStored ag,
     ar_memoriesRecalled = ag_memoriesRecalled ag, ar_steps = ag_step ag,
     ar_tokensUsed = ag_totalTokens ag, ar_status = ag_status ag\<rparr>"

definition push :: "message \<Rightarrow> agent \<Rightarrow> agent" where
  "push m ag = ag\<lparr>ag_messages := ag_messages ag @ [m]\<rparr>"

subsection \<open>Memory tools\<close>

definition nl :: string where
  "nl = [CHR 0x0A]"

definition memory_line :: "mem_entry \<Rightarrow> string" where
  "memory_line e = ''['' @ take 16 (me_address e) @ ''...] '' @ me_content e"

definition agent_recall :: "env \<Rightarrow> agent \<Rightarrow> mem_query \<Rightarrow> mem_entry list result \<times> agent" where
  "agent_recall env ag q =
     (let (r, ms, _) = recall (env_noble env) (env_dag env (ag_ops ag)) (ag_memory ag) q (env_clock env (ag_ops ag));
          ag = ag\<lparr>ag_memory := ms, ag_ops := ag_ops ag + 1\<rparr>
      in case r of
           Inl e \<Rightarrow> (Inl e, ag)
         | Inr es \<Rightarrow> (Inr es, ag\<lparr>ag_memoriesRecalled := ag_memoriesRecalled ag + length es\<rparr>))"

definition grammar_keys :: "grammar \<Rightarrow> nat" where
  "grammar_keys g = length (filter (\<lambda>f. get_facet g f \<noteq> None) FACET_ORDER)"

definition handleRemember :: "env \<Rightarrow> agent \<Rightarrow> args \<Rightarrow> string result \<times> agent" where
  "handleRemember env ag as =
     (let g = arg_grammar as; content = arg_text as ''content'' in
      if content = [] then (Inr ''Error: content is required'', ag)
      else
        (let (r, ms, _) = store (env_noble env) (env_dag env (ag_ops ag)) (ag_memory ag) g content None
               (env_clock env (ag_ops ag) 0);
             ag = ag\<lparr>ag_memory := ms, ag_ops := ag_ops ag + 1\<rparr>
         in case r of
              Inl e \<Rightarrow> (Inl e, ag)
            | Inr e \<Rightarrow>
                (Inr (''Stored at address '' @ take 16 (me_address e) @ ''... (depth='' @
                   dec (grammar_keys g) @ '')''),
                 ag\<lparr>ag_memoriesStored := ag_memoriesStored ag + 1\<rparr>)))"

definition recall_text :: "string \<Rightarrow> mem_entry list \<Rightarrow> string" where
  "recall_text none es = (if es = [] then none else join nl (map memory_line es))"

definition handleRecall :: "env \<Rightarrow> agent \<Rightarrow> args \<Rightarrow> string result \<times> agent" where
  "handleRecall env ag as =
     (let (r, ag) = agent_recall env ag \<lparr>q_grammar = Some (arg_grammar as), q_text = None,
            q_limit = Some (arg_limit as), q_minDepth = None\<rparr>
      in (bindE r (\<lambda>es. Inr (recall_text ''No memories found for this query.'' es)), ag))"

definition handleReflect :: "env \<Rightarrow> agent \<Rightarrow> args \<Rightarrow> string result \<times> agent" where
  "handleReflect env ag as =
     (if arg_text as ''text'' = [] then (Inr ''Error: text is required'', ag)
      else
        (let (r, ag) = agent_recall env ag \<lparr>q_grammar = None, q_text = Some (arg_text as ''text''),
               q_limit = Some (arg_limit as), q_minDepth = None\<rparr>
         in (bindE r (\<lambda>es. Inr (recall_text ''No memories found for this reflection.'' es)), ag)))"

definition handleToolCall :: "env \<Rightarrow> agent \<Rightarrow> tool_call \<Rightarrow> string result \<times> agent" where
  "handleToolCall env ag call =
     (if tc_name call = ''remember'' then
        (if tc_arguments call = JNull then (Inl type_error, ag)
         else handleRemember env ag (properties (tc_arguments call)))
      else if tc_name call = ''recall'' then
        (if tc_arguments call = JNull then (Inl type_error, ag)
         else handleRecall env ag (properties (tc_arguments call)))
      else if tc_name call = ''reflect'' then
        (if tc_arguments call = JNull then (Inl type_error, ag)
         else handleReflect env ag (properties (tc_arguments call)))
      else case env_toolHandler env call of
             Inr s \<Rightarrow> (Inr s, ag)
           | Inl e \<Rightarrow> (Inr (''Error calling '' @ tc_name call @ '': '' @ e), ag))"

text \<open>\<open>for (const call of result.toolCalls)\<close>: an exception leaves the loop and \<open>run\<close>.\<close>

fun handle_calls :: "env \<Rightarrow> agent \<Rightarrow> tool_call list \<Rightarrow> unit result \<times> agent" where
  "handle_calls env ag [] = (Inr (), ag)"
| "handle_calls env ag (call # calls) =
     (case handleToolCall env ag call of
        (Inl e, ag) \<Rightarrow> (Inl e, ag)
      | (Inr txt, ag) \<Rightarrow>
          handle_calls env (push \<lparr>m_role = Tool, m_content = txt, m_name = Some (tc_name call),
            m_tool_call_id = Some (tc_id call)\<rparr> ag) calls)"

subsection \<open>The loop\<close>

text \<open>One iteration: it ends the run (left: what \<open>run\<close> returns or throws) or goes on (right).\<close>

definition agent_step :: "env \<Rightarrow> agent \<Rightarrow> (agent_result result \<times> agent) + agent" where
  "agent_step env ag0 =
     (let ag = ag0\<lparr>ag_step := ag_step ag0 + 1\<rparr> in
      case env_complete env (ag_step ag) (ag_messages ag) (MEMORY_TOOLS @ ac_tools (ag_config ag)) of
        Inl err \<Rightarrow> (let ag = ag\<lparr>ag_status := Error\<rparr> in Inl (Inr (buildResult ag err), ag))
      | Inr r \<Rightarrow>
          (let ag = ag\<lparr>ag_totalTokens := ag_totalTokens ag + (ir_promptTokens r + ir_completionTokens r)\<rparr> in
           if ir_finishReason r = ''stop'' \<or> (ir_toolCalls r = [] \<and> ir_content r \<noteq> []) then
             (let ag = (push (message_of Assistant (ir_content r)) ag)\<lparr>ag_status := Completed\<rparr>
              in Inl (Inr (buildResult ag (ir_content r)), ag))
           else if ir_toolCalls r \<noteq> [] then
             (case handle_calls env (push (message_of Assistant (ir_content r)) ag) (ir_toolCalls r) of
                (Inl e, ag) \<Rightarrow> Inl (Inl e, ag)
              | (Inr _, ag) \<Rightarrow> Inr ag)
           else if ir_finishReason r = ''length'' then Inr (push (message_of Assistant (ir_content r)) ag)
           else Inr ag))"

definition last_assistant :: "message list \<Rightarrow> message option" where
  "last_assistant ms = (case rev (filter (\<lambda>m. m_role m = Assistant) ms) of [] \<Rightarrow> None | m # _ \<Rightarrow> Some m)"

text \<open>The dash of the last message is U+2014 in the code, outside the range of the model; it is written -.\<close>

definition finish_budget :: "agent \<Rightarrow> agent_result result \<times> agent" where
  "finish_budget ag =
     (let ag' = ag\<lparr>ag_status := (if ac_tokenBudget (ag_config ag) \<le> ag_totalTokens ag then BudgetExhausted else Completed)\<rparr>
      in (Inr (buildResult ag' (case last_assistant (ag_messages ag') of
            None \<Rightarrow> ''(no output - budget exhausted)'' | Some m \<Rightarrow> m_content m)), ag'))"

text \<open>What the tool handlers leave alone.\<close>

definition frame :: "agent \<Rightarrow> agent_config \<times> nat \<times> nat \<times> agent_status" where
  "frame ag = (ag_config ag, ag_step ag, ag_totalTokens ag, ag_status ag)"

lemma frame_simps [simp]:
  "frame (push m ag) = frame ag"
  "frame (ag\<lparr>ag_memory := ms\<rparr>) = frame ag"
  "frame (ag\<lparr>ag_ops := n\<rparr>) = frame ag"
  "frame (ag\<lparr>ag_memoriesStored := n\<rparr>) = frame ag"
  "frame (ag\<lparr>ag_memoriesRecalled := n\<rparr>) = frame ag"
  by (simp_all add: frame_def push_def)

lemma frame_agent_recall: "frame (snd (agent_recall env ag q)) = frame ag"
  by (auto simp: agent_recall_def Let_def split: prod.splits sum.splits)

lemma frame_handleToolCall: "frame (snd (handleToolCall env ag call)) = frame ag"
  using frame_agent_recall [of env ag]
  by (auto simp: handleToolCall_def handleRemember_def handleRecall_def handleReflect_def Let_def
      split: prod.splits sum.splits) (metis snd_conv)+

lemma frame_handle_calls: "frame (snd (handle_calls env ag calls)) = frame ag"
proof (induction env ag calls rule: handle_calls.induct)
  case (2 env ag call calls)
  then show ?case
    using frame_handleToolCall [of env ag call] by (auto split: prod.splits sum.splits)
qed simp

lemma handle_calls_keeps:
  "handle_calls env ag calls = (r, ag') \<Longrightarrow>
   ag_step ag' = ag_step ag \<and> ag_config ag' = ag_config ag \<and> ag_status ag' = ag_status ag \<and>
   ag_totalTokens ag' = ag_totalTokens ag"
  using frame_handle_calls [of env ag calls] by (simp add: frame_def)

lemma agent_step_progress:
  "agent_step env ag = Inr ag' \<Longrightarrow> ag_step ag' = ag_step ag + 1 \<and> ag_config ag' = ag_config ag \<and> ag_status ag' = ag_status ag"
  by (auto simp: agent_step_def Let_def push_def split: sum.splits if_splits prod.splits
      dest!: handle_calls_keeps)

function run_loop :: "env \<Rightarrow> agent \<Rightarrow> agent_result result \<times> agent" where
  "run_loop env ag =
     (if ag_step ag < ac_maxSteps (ag_config ag) \<and> ag_totalTokens ag < ac_tokenBudget (ag_config ag)
      then (case agent_step env ag of Inl out \<Rightarrow> out | Inr ag' \<Rightarrow> run_loop env ag')
      else finish_budget ag)"
  by pat_completeness auto
termination
  by (relation "measure (\<lambda>(env, ag). ac_maxSteps (ag_config ag) - ag_step ag)")
    (auto dest!: agent_step_progress)

declare run_loop.simps [simp del]

definition context_block :: "mem_entry list \<Rightarrow> string" where
  "context_block es =
     (if es = [] then []
      else nl @ nl @ ''<relevant_memories>'' @ nl @ join nl (map memory_line es) @ nl @ ''</relevant_memories>'')"

definition run :: "env \<Rightarrow> agent \<Rightarrow> string \<Rightarrow> agent_result result \<times> agent" where
  "run env ag task =
     (let ag = ag\<lparr>ag_status := Running\<rparr> in
      case agent_recall env ag \<lparr>q_grammar = Some (parseDescription task), q_text = None,
             q_limit = Some 5, q_minDepth = None\<rparr> of
        (Inl e, ag) \<Rightarrow> (Inl e, ag)
      | (Inr seeds, ag) \<Rightarrow> run_loop env (push (message_of User (task @ context_block seeds)) ag))"

subsection \<open>What one iteration does\<close>

definition guard :: "agent \<Rightarrow> bool" where
  "guard ag \<longleftrightarrow> ag_step ag < ac_maxSteps (ag_config ag) \<and> ag_totalTokens ag < ac_tokenBudget (ag_config ag)"

lemma run_loop_rule:
  assumes "I ag"
    and step: "\<And>ag ag'. I ag \<Longrightarrow> guard ag \<Longrightarrow> agent_step env ag = Inr ag' \<Longrightarrow> I ag'"
    and out: "\<And>ag out. I ag \<Longrightarrow> guard ag \<Longrightarrow> agent_step env ag = Inl out \<Longrightarrow> Q out"
    and fin: "\<And>ag. I ag \<Longrightarrow> \<not> guard ag \<Longrightarrow> Q (finish_budget ag)"
  shows "Q (run_loop env ag)"
  using assms
proof (induction env ag rule: run_loop.induct)
  case (1 env ag)
  show ?case
  proof (cases "guard ag")
    case True
    then have u: "run_loop env ag = (case agent_step env ag of Inl out \<Rightarrow> out | Inr ag' \<Rightarrow> run_loop env ag')"
      by (subst run_loop.simps) (simp add: guard_def)
    show ?thesis
    proof (cases "agent_step env ag")
      case (Inl out)
      with 1(4) [OF 1(2) True] u show ?thesis by simp
    next
      case (Inr ag')
      have "Q (run_loop env ag')"
        by (rule 1(1) [OF True [unfolded guard_def] Inr 1(3) [OF 1(2) True Inr]]) (fact 1(3) 1(4) 1(5))+
      with u Inr show ?thesis by simp
    qed
  next
    case False
    with 1(5) [OF 1(2)] show ?thesis by (subst run_loop.simps) (auto simp: guard_def)
  qed
qed

lemma agent_step_out:
  assumes "agent_step env ag = Inl (r, ag')"
  shows "ag_step ag' = ag_step ag + 1 \<and> ag_config ag' = ag_config ag \<and>
    (case r of Inl e \<Rightarrow> ag_status ag' = ag_status ag
     | Inr res \<Rightarrow> res = buildResult ag' (ar_output res) \<and> (ag_status ag' = Completed \<or> ag_status ag' = Error))"
  using assms
  by (auto simp: agent_step_def Let_def push_def buildResult_def split: sum.splits if_splits prod.splits
      dest!: handle_calls_keeps)

definition usage_bounded :: "env \<Rightarrow> nat \<Rightarrow> bool" where
  "usage_bounded env u \<longleftrightarrow>
     (\<forall>n ms ts r. env_complete env n ms ts = Inr r \<longrightarrow> ir_promptTokens r + ir_completionTokens r \<le> u)"

lemma agent_step_tokens:
  assumes "usage_bounded env u"
  shows "agent_step env ag = Inr ag' \<Longrightarrow> ag_totalTokens ag' \<le> ag_totalTokens ag + u"
    and "agent_step env ag = Inl (r, ag') \<Longrightarrow> ag_totalTokens ag' \<le> ag_totalTokens ag + u"
  using assms unfolding usage_bounded_def
  by (auto simp: agent_step_def Let_def push_def split: sum.splits if_splits prod.splits
      dest!: handle_calls_keeps)

text \<open>How an agent relates to itself later: the memory is only extended, messages are only appended and
  the counters only grow.\<close>

definition later :: "agent \<Rightarrow> agent \<Rightarrow> bool" where
  "later ag ag' \<longleftrightarrow> step_ok (ag_memory ag) (ag_memory ag') \<and> prefix (ag_messages ag) (ag_messages ag') \<and>
     ag_config ag' = ag_config ag \<and>
     ag_memoriesStored ag \<le> ag_memoriesStored ag' \<and> ag_memoriesRecalled ag \<le> ag_memoriesRecalled ag' \<and>
     ag_totalTokens ag \<le> ag_totalTokens ag' \<and> ag_step ag \<le> ag_step ag'"

lemma later_trans: "later a b \<Longrightarrow> later b c \<Longrightarrow> later a c"
  unfolding later_def by (auto intro: step_ok_trans prefix_order.trans)

lemma later_inv: "later a b \<Longrightarrow> book_inv (ms_cache (ag_memory b))"
  unfolding later_def by (blast dest: step_okD)

lemma step_ok_refl: "book_inv (ms_cache ms) \<Longrightarrow> step_ok ms ms"
  by (simp add: step_ok_def)

lemma later_agent_recall:
  assumes "book_inv (ms_cache (ag_memory ag))"
  shows "later ag (snd (agent_recall env ag q))"
  using step_ok_recall [OF assms, of "env_noble env" "env_dag env (ag_ops ag)" q "env_clock env (ag_ops ag)"]
  by (auto simp: agent_recall_def later_def Let_def split: prod.splits sum.splits)

lemma later_handleRemember:
  assumes "book_inv (ms_cache (ag_memory ag))"
  shows "later ag (snd (handleRemember env ag as))"
  using step_ok_store [OF assms, of "env_noble env" "env_dag env (ag_ops ag)" "arg_grammar as"
      "arg_text as ''content''" None "env_clock env (ag_ops ag) 0"] step_ok_refl [OF assms]
  by (auto simp: handleRemember_def later_def Let_def split: prod.splits sum.splits)

lemma later_handleToolCall:
  assumes "book_inv (ms_cache (ag_memory ag))"
  shows "later ag (snd (handleToolCall env ag call))"
proof -
  have "later ag ag" using assms by (simp add: later_def step_ok_refl)
  moreover have "later ag (snd (handleRecall env ag as))" for as
    using later_agent_recall [OF assms, of env] by (auto simp: handleRecall_def split: prod.splits) (metis snd_conv)
  moreover have "later ag (snd (handleReflect env ag as))" for as
    using later_agent_recall [OF assms, of env] \<open>later ag ag\<close>
    by (auto simp: handleReflect_def split: prod.splits) (metis snd_conv)
  ultimately show ?thesis
    using later_handleRemember [OF assms]
    by (auto simp: handleToolCall_def split: sum.splits)
qed

lemma later_push: "book_inv (ms_cache (ag_memory ag)) \<Longrightarrow> later ag (push m ag)"
  by (simp add: later_def push_def step_ok_refl)

lemma later_handle_calls:
  "book_inv (ms_cache (ag_memory ag)) \<Longrightarrow> later ag (snd (handle_calls env ag calls))"
proof (induction env ag calls rule: handle_calls.induct)
  case (2 env ag call calls)
  from later_handleToolCall [OF 2(2), of env call] have l: "later ag (snd (handleToolCall env ag call))" .
  show ?case
  proof (cases "handleToolCall env ag call")
    case (Pair r ag1)
    with l have l1: "later ag ag1" by simp
    show ?thesis
    proof (cases r)
      case (Inr s)
      let ?m = "\<lparr>m_role = Tool, m_content = s, m_name = Some (tc_name call), m_tool_call_id = Some (tc_id call)\<rparr>"
      from l1 have l2: "later ag (push ?m ag1)" by (meson later_inv later_push later_trans)
      from 2(1) [OF Pair [symmetric] Inr later_inv [OF l2]] l2
      have "later ag (snd (handle_calls env (push ?m ag1) calls))" by (rule later_trans [rotated])
      then show ?thesis using Pair Inr by simp
    qed (use Pair l1 in simp)
  qed
qed (simp add: later_def step_ok_refl)

lemma later_agent_step:
  assumes "book_inv (ms_cache (ag_memory ag))"
  shows "case agent_step env ag of Inl out \<Rightarrow> later ag (snd out) | Inr ag' \<Rightarrow> later ag ag'"
proof -
  define a1 where "a1 = ag\<lparr>ag_step := ag_step ag + 1\<rparr>"
  have l1: "later ag (a1\<lparr>ag_status := st\<rparr>)" for st
    using assms by (simp add: a1_def later_def step_ok_refl)
  show ?thesis
  proof (cases "env_complete env (ag_step a1) (ag_messages a1) (MEMORY_TOOLS @ ac_tools (ag_config a1))")
    case (Inl err)
    then show ?thesis using l1 [of Error] by (simp add: agent_step_def Let_def a1_def)
  next
    case (Inr r)
    define a2 where "a2 = a1\<lparr>ag_totalTokens := ag_totalTokens a1 + (ir_promptTokens r + ir_completionTokens r)\<rparr>"
    define a3 where "a3 = push (message_of Assistant (ir_content r)) a2"
    have l2: "later ag a2" using assms by (simp add: a2_def a1_def later_def step_ok_refl)
    have l3: "later ag a3" using assms by (simp add: a3_def a2_def a1_def later_def push_def step_ok_refl)
    then have l4: "later ag (a3\<lparr>ag_status := Completed\<rparr>)" by (simp add: later_def)
    have l5: "later ag (snd (handle_calls env a3 (ir_toolCalls r)))"
      using l3 later_handle_calls [OF later_inv [OF l3]] by (rule later_trans)
    have "agent_step env ag =
       (if ir_finishReason r = ''stop'' \<or> (ir_toolCalls r = [] \<and> ir_content r \<noteq> []) then
          Inl (Inr (buildResult (a3\<lparr>ag_status := Completed\<rparr>) (ir_content r)), a3\<lparr>ag_status := Completed\<rparr>)
        else if ir_toolCalls r \<noteq> [] then
          (case handle_calls env a3 (ir_toolCalls r) of (Inl e, ag) \<Rightarrow> Inl (Inl e, ag) | (Inr _, ag) \<Rightarrow> Inr ag)
        else if ir_finishReason r = ''length'' then Inr a3 else Inr a2)"
      using Inr by (simp add: agent_step_def Let_def a3_def a2_def a1_def)
    then show ?thesis using l2 l3 l4 l5 by (auto split: prod.splits sum.splits)
  qed
qed

lemma later_run_loop:
  assumes "book_inv (ms_cache (ag_memory ag))"
  shows "later ag (snd (run_loop env ag))"
proof (rule run_loop_rule [where I = "later ag" and Q = "\<lambda>out. later ag (snd out)"])
  show "later ag ag" using assms by (simp add: later_def step_ok_refl)
next
  fix a a' assume "later ag a" "agent_step env a = Inr a'"
  with later_agent_step [OF later_inv, of ag a env] show "later ag a'"
    by (auto intro: later_trans)
next
  fix a out assume "later ag a" "agent_step env a = Inl out"
  with later_agent_step [OF later_inv, of ag a env] show "later ag (snd out)"
    by (auto intro: later_trans)
next
  fix a assume "later ag a"
  then show "later ag (snd (finish_budget a))" by (simp add: finish_budget_def later_def Let_def)
qed

subsection \<open>Properties\<close>

lemma agent_recall_keeps:
  "agent_recall env ag q = (r, ag') \<Longrightarrow>
   ag_step ag' = ag_step ag \<and> ag_config ag' = ag_config ag \<and> ag_status ag' = ag_status ag \<and>
   ag_totalTokens ag' = ag_totalTokens ag"
  using frame_agent_recall [of env ag q] by (simp add: frame_def)

lemma run_starts:
  obtains e ag1 where "run env ag task = (Inl e, ag1)" "ag_status ag1 = Running" "ag_step ag1 = ag_step ag"
  | ag1 where "run env ag task = run_loop env ag1" "ag_status ag1 = Running" "ag_step ag1 = ag_step ag"
      "ag_config ag1 = ag_config ag" "ag_totalTokens ag1 = ag_totalTokens ag"
proof -
  let ?q = "\<lparr>q_grammar = Some (parseDescription task), q_text = None, q_limit = Some 5, q_minDepth = None\<rparr>"
  let ?a0 = "ag\<lparr>ag_status := Running\<rparr>"
  obtain r a where a: "agent_recall env ?a0 ?q = (r, a)" by (cases "agent_recall env ?a0 ?q")
  have k: "ag_step a = ag_step ag" "ag_config a = ag_config ag" "ag_status a = Running" "ag_totalTokens a = ag_totalTokens ag"
    using agent_recall_keeps [OF a] by simp_all
  show thesis
  proof (cases r)
    case (Inl e)
    with a k show thesis by (intro that(1) [of e a]) (simp_all add: run_def)
  next
    case (Inr seeds)
    let ?a1 = "push (message_of User (task @ context_block seeds)) a"
    show thesis
    proof (rule that(2))
      show "run env ag task = run_loop env ?a1" using a Inr by (simp add: run_def)
    qed (use k in \<open>simp_all add: push_def\<close>)
  qed
qed

lemma later_run:
  assumes "book_inv (ms_cache (ag_memory ag))"
  shows "later ag (snd (run env ag task))"
proof -
  let ?q = "\<lparr>q_grammar = Some (parseDescription task), q_text = None, q_limit = Some 5, q_minDepth = None\<rparr>"
  let ?a0 = "ag\<lparr>ag_status := Running\<rparr>"
  have l: "later ag (snd (agent_recall env ?a0 ?q))"
    using later_agent_recall [of ?a0 env ?q] assms by (simp add: later_def)
  obtain r a where a: "agent_recall env ?a0 ?q = (r, a)" by (cases "agent_recall env ?a0 ?q")
  show ?thesis
  proof (cases r)
    case (Inr seeds)
    let ?a1 = "push (message_of User (task @ context_block seeds)) a"
    have l1: "later ag ?a1" using l a later_push later_inv later_trans by (metis snd_conv)
    have "later ag (snd (run_loop env ?a1))"
      using l1 later_run_loop [OF later_inv [OF l1]] by (rule later_trans)
    then show ?thesis using a Inr by (simp add: run_def)
  qed (use l a in \<open>simp add: run_def\<close>)
qed

lemma buildResult_simps [simp]:
  "ar_steps (buildResult ag out) = ag_step ag"
  "ar_tokensUsed (buildResult ag out) = ag_totalTokens ag"
  "ar_status (buildResult ag out) = ag_status ag"
  by (simp_all add: buildResult_def)

lemma run_bounded:
  assumes "run env ag task = (Inr res, ag')" "ag_step ag \<le> ac_maxSteps (ag_config ag)"
  shows "res = buildResult ag' (ar_output res) \<and> ar_steps res \<le> ac_maxSteps (ag_config ag) \<and>
    (usage_bounded env u \<and> ag_totalTokens ag < ac_tokenBudget (ag_config ag) + u \<longrightarrow>
       ar_tokensUsed res < ac_tokenBudget (ag_config ag) + u) \<and>
    (ar_status res = Completed \<or> ar_status res = Error \<or>
     ar_status res = BudgetExhausted \<and> ac_tokenBudget (ag_config ag) \<le> ar_tokensUsed res)"
proof -
  let ?c = "ag_config ag"
  let ?B = "\<lambda>a. usage_bounded env u \<and> ag_totalTokens ag < ac_tokenBudget ?c + u \<longrightarrow> ag_totalTokens a < ac_tokenBudget ?c + u"
  let ?I = "\<lambda>a. ag_config a = ?c \<and> ag_step a \<le> ac_maxSteps ?c \<and> ?B a"
  let ?Q = "\<lambda>(r, a). case r of Inl e \<Rightarrow> True | Inr res \<Rightarrow> res = buildResult a (ar_output res) \<and>
     ag_step a \<le> ac_maxSteps ?c \<and> ?B a \<and>
     (ag_status a = Completed \<or> ag_status a = Error \<or> ag_status a = BudgetExhausted \<and> ac_tokenBudget ?c \<le> ag_totalTokens a)"
  obtain ag1 where r: "run env ag task = run_loop env ag1" "?I ag1"
  proof (cases rule: run_starts [of env ag task])
    case (2 ag1)
    with assms that [of ag1] show thesis by simp
  qed (use assms(1) in simp)
  have "?Q (run_loop env ag1)"
  proof (rule run_loop_rule [where I = ?I])
    show "?I ag1" by (rule r)
  next
    fix a a' assume "?I a" "guard a" "agent_step env a = Inr a'"
    with agent_step_progress [of env a a'] agent_step_tokens(1) [of env u a a']
    show "?I a'" by (auto simp: guard_def)
  next
    fix a out assume "?I a" "guard a" "agent_step env a = Inl out"
    with agent_step_out [of env a "fst out" "snd out"] agent_step_tokens(2) [of env u a "fst out" "snd out"]
    show "?Q out" by (auto simp: guard_def split: sum.splits)
  next
    fix a assume "?I a" "\<not> guard a"
    then show "?Q (finish_budget a)" by (auto simp: finish_budget_def Let_def buildResult_def)
  qed
  with assms(1) r(1) have q: "?Q (Inr res, ag')" by simp
  then have e: "res = buildResult ag' (ar_output res)" by simp
  have f: "ar_steps res = ag_step ag'" "ar_tokensUsed res = ag_totalTokens ag'" "ar_status res = ag_status ag'"
    by (subst e, simp)+
  from q show ?thesis unfolding f by auto
qed

lemma run_throws_running:
  assumes "run env ag task = (Inl e, ag')"
  shows "ag_status ag' = Running"
proof -
  have q: "case fst (run_loop env a) of Inl e \<Rightarrow> ag_status (snd (run_loop env a)) = Running | Inr res \<Rightarrow> True"
    if "ag_status a = Running" for a
  proof (rule run_loop_rule [where I = "\<lambda>a. ag_status a = Running"])
    show "ag_status a = Running" by (rule that)
  next
    fix b out assume "ag_status b = Running" "agent_step env b = Inl out"
    with agent_step_out [of env b "fst out" "snd out"]
    show "case fst out of Inl e \<Rightarrow> ag_status (snd out) = Running | Inr res \<Rightarrow> True"
      by (auto split: sum.splits)
  qed (auto dest: agent_step_progress simp: finish_budget_def Let_def)
  show ?thesis
    using assms q by (cases rule: run_starts [of env ag task]) fastforce+
qed


text \<open>A small environment: the model calls \<open>remember\<close> once and then answers.\<close>

definition sample_call :: tool_call where
  "sample_call = \<lparr>tc_id = ''c1'', tc_name = ''remember'',
     tc_arguments = JObj [(''domain'', JStr ''goal''), (''content'', JStr ''brew tea'')]\<rparr>"

definition sample_env :: "dag \<Rightarrow> env" where
  "sample_env dag = \<lparr>env_noble = demo_noble,
     env_complete = (\<lambda>n ms ts. Inr (if n = 1
       then \<lparr>ir_content = '''', ir_toolCalls = [sample_call], ir_promptTokens = 7, ir_completionTokens = 2, ir_finishReason = ''tool_calls''\<rparr>
       else \<lparr>ir_content = ''done'', ir_toolCalls = [], ir_promptTokens = 9, ir_completionTokens = 1, ir_finishReason = ''stop''\<rparr>)),
     env_toolHandler = (\<lambda>call. Inl ''Error: none''), env_dag = (\<lambda>n. dag), env_clock = (\<lambda>n i. n + i)\<rparr>"

definition sample_agent :: agent where
  "sample_agent = new_agent \<lparr>ac_id = ''a1'', ac_name = ''ada'', ac_systemPrompt = ''help'', ac_maxSteps = 5,
     ac_tokenBudget = 100, ac_tools = []\<rparr> (new_store DEFAULT_CONFIG)"

lemma sample_seed:
  "agent_recall (sample_env sample_dag) (sample_agent\<lparr>ag_status := Running\<rparr>)
     \<lparr>q_grammar = Some g, q_text = None, q_limit = Some 5, q_minDepth = None\<rparr> =
   (Inr [], sample_agent\<lparr>ag_status := Running, ag_ops := 1\<rparr>)"
  by (simp add: agent_recall_def recall_def query_grammar_def sample_env_def sample_agent_def new_agent_def
      new_store_def DEFAULT_CONFIG_def book_query_def dagQuery_def sample_dag_def Let_def)

lemma sample_run_returns: "\<exists>res ag'. run (sample_env sample_dag) sample_agent ''tea'' = (Inr res, ag')"
proof -
  let ?env = "sample_env sample_dag"
  let ?a = "push (message_of User (''tea'' @ context_block [])) (sample_agent\<lparr>ag_status := Running, ag_ops := 1\<rparr>)"
  have r: "run ?env sample_agent ''tea'' = run_loop ?env ?a"
    by (simp add: run_def sample_seed)
  obtain a where a: "derive demo_noble (arg_grammar (properties (tc_arguments sample_call))) (Str ''brew tea'') = Inr a"
    using derive_bytes [OF noble_ok_demo] by blast
  have "\<exists>b. agent_step ?env ?a = Inr b \<and> ag_step b = 1 \<and> ag_totalTokens b = 9 \<and> ag_config b = ag_config sample_agent"
    using a by (simp add: agent_step_def Let_def sample_env_def sample_agent_def new_agent_def push_def
        sample_call_def handleToolCall_def handleRemember_def arg_text_def store_def dagPut_def sample_dag_def)
  then obtain b where b: "agent_step ?env ?a = Inr b" "ag_step b = 1" "ag_totalTokens b = 9" "ag_config b = ag_config sample_agent"
    by blast
  have "run_loop ?env ?a = run_loop ?env b"
    using b(1) by (subst run_loop.simps) (simp add: push_def sample_agent_def new_agent_def)
  moreover have "\<exists>res ag'. agent_step ?env b = Inl (Inr res, ag')"
    using b(2) by (simp add: agent_step_def Let_def sample_env_def)
  then have "\<exists>res ag'. run_loop ?env b = (Inr res, ag')"
    using b by (subst run_loop.simps) (auto simp: sample_agent_def new_agent_def)
  ultimately show ?thesis using r by metis
qed


text \<open>When a run throws (the memory service failed during a recall or a store), the agent is left with
  the status running, and whatever it had stored and every message stays.\<close>

lemma agent_exception_leaves_running:
  assumes "run env ag task = (Inl e, ag')" "book_inv (ms_cache (ag_memory ag))"
  shows "ag_status ag' = Running \<and> step_ok (ag_memory ag) (ag_memory ag') \<and> prefix (ag_messages ag) (ag_messages ag')"
  using later_run [OF assms(2), of env task] run_throws_running [OF assms(1)] assms(1) by (simp add: later_def)

lemma agent_exception_leaves_running_witness:
  "\<exists>ag'. run (sample_env (\<lambda>req. Inl ''offline'')) sample_agent ''tea'' = (Inl ''offline'', ag') \<and> ag_status ag' = Running"
proof -
  have "\<exists>ag'. run (sample_env (\<lambda>req. Inl ''offline'')) sample_agent ''tea'' = (Inl ''offline'', ag')"
    by (simp add: run_def agent_recall_def recall_def query_grammar_def sample_env_def sample_agent_def new_agent_def
        new_store_def DEFAULT_CONFIG_def book_query_def dagQuery_def Let_def)
  then obtain ag' where r: "run (sample_env (\<lambda>req. Inl ''offline'')) sample_agent ''tea'' = (Inl ''offline'', ag')" by blast
  have "book_inv (ms_cache (ag_memory sample_agent))" by (simp add: sample_agent_def new_agent_def new_store_def)
  from agent_exception_leaves_running [OF r this] r show ?thesis by blast
qed

lemma agent_recall_messages: "agent_recall env ag q = (r, ag') \<Longrightarrow> ag_messages ag' = ag_messages ag"
  by (auto simp: agent_recall_def Let_def split: prod.splits sum.splits)

lemma handleToolCall_messages: "handleToolCall env ag call = (r, ag') \<Longrightarrow> ag_messages ag' = ag_messages ag"
  by (auto simp: handleToolCall_def handleRemember_def handleRecall_def handleReflect_def Let_def
      split: prod.splits sum.splits if_splits dest: agent_recall_messages)

definition answers :: "tool_call list \<Rightarrow> message list \<Rightarrow> bool" where
  "answers calls ms \<longleftrightarrow> list_all2 (\<lambda>call m. m_role m = Tool \<and> m_name m = Some (tc_name call) \<and>
     m_tool_call_id m = Some (tc_id call)) calls ms"

lemma handle_calls_messages:
  "handle_calls env ag calls = (r, ag') \<Longrightarrow>
   \<exists>ms n. ag_messages ag' = ag_messages ag @ ms \<and> answers (take n calls) ms \<and> (r = Inr () \<longrightarrow> n = length calls)"
proof (induction env ag calls arbitrary: r ag' rule: handle_calls.induct)
  case (1 env ag)
  then show ?case by (auto simp: answers_def)
next
  case (2 env ag call calls)
  obtain t a where t: "handleToolCall env ag call = (t, a)" by (cases "handleToolCall env ag call")
  have m: "ag_messages a = ag_messages ag" by (rule handleToolCall_messages [OF t])
  show ?case
  proof (cases t)
    case (Inl e)
    with 2(2) t m show ?thesis by (intro exI [of _ "[]"] exI [of _ 0]) (auto simp: answers_def)
  next
    case (Inr s)
    let ?m = "\<lparr>m_role = Tool, m_content = s, m_name = Some (tc_name call), m_tool_call_id = Some (tc_id call)\<rparr>"
    have "handle_calls env (push ?m a) calls = (r, ag')" using 2(2) t Inr by simp
    from 2(1) [OF t [symmetric] Inr this] obtain ms n where
      "ag_messages ag' = ag_messages (push ?m a) @ ms" "answers (take n calls) ms" "r = Inr () \<longrightarrow> n = length calls"
      by blast
    with m show ?thesis
      by (intro exI [of _ "?m # ms"] exI [of _ "Suc n"]) (auto simp: answers_def push_def)
  qed
qed

text \<open>In an iteration that goes on after tool calls, the message log grows by the assistant's message
  and exactly one tool message per call, in the order of the calls and carrying their names and ids, so
  the model is always shown an answer to every call it made.\<close>

lemma tool_calls_answered:
  assumes "agent_step env ag = Inr ag'"
    and "env_complete env (ag_step ag + 1) (ag_messages ag) (MEMORY_TOOLS @ ac_tools (ag_config ag)) = Inr r"
    and "ir_toolCalls r \<noteq> []"
  shows "\<exists>ms. ag_messages ag' = ag_messages ag @ message_of Assistant (ir_content r) # ms \<and> answers (ir_toolCalls r) ms"
proof -
  let ?a = "push (message_of Assistant (ir_content r))
     (ag\<lparr>ag_step := ag_step ag + 1, ag_totalTokens := ag_totalTokens ag + (ir_promptTokens r + ir_completionTokens r)\<rparr>)"
  obtain s a where h: "handle_calls env ?a (ir_toolCalls r) = (s, a)" by (cases "handle_calls env ?a (ir_toolCalls r)")
  then have "s = Inr () \<and> a = ag'"
    using assms by (auto simp: agent_step_def Let_def split: if_splits sum.splits prod.splits)
  with handle_calls_messages [OF h] show ?thesis by (auto simp: push_def)
qed

lemma tool_calls_answered_witness:
  "\<exists>b ms. agent_step (sample_env sample_dag) sample_agent = Inr b \<and>
     ag_messages b = ag_messages sample_agent @ message_of Assistant '''' # ms \<and> answers [sample_call] ms"
proof -
  let ?env = "sample_env sample_dag"
  obtain a where a: "derive demo_noble (arg_grammar (properties (tc_arguments sample_call))) (Str ''brew tea'') = Inr a"
    using derive_bytes [OF noble_ok_demo] by blast
  have "\<exists>b. agent_step ?env sample_agent = Inr b"
    using a by (simp add: agent_step_def Let_def sample_env_def sample_agent_def new_agent_def push_def
        sample_call_def handleToolCall_def handleRemember_def arg_text_def store_def dagPut_def sample_dag_def)
  then obtain b where b: "agent_step ?env sample_agent = Inr b" by blast
  have "env_complete ?env (ag_step sample_agent + 1) (ag_messages sample_agent) (MEMORY_TOOLS @ ac_tools (ag_config sample_agent)) =
     Inr \<lparr>ir_content = '''', ir_toolCalls = [sample_call], ir_promptTokens = 7, ir_completionTokens = 2, ir_finishReason = ''tool_calls''\<rparr>"
    by (simp add: sample_env_def sample_agent_def new_agent_def)
  from tool_calls_answered [OF b this] b show ?thesis by auto
qed

text \<open>A model answer whose finish reason is stop ends the run at once, even if it carries tool calls:
  none of them is executed, no memory is stored or recalled, and the result is the text of the answer.\<close>

lemma stop_drops_tool_calls:
  assumes "env_complete env (ag_step ag + 1) (ag_messages ag) (MEMORY_TOOLS @ ac_tools (ag_config ag)) = Inr r"
    and "ir_finishReason r = ''stop''"
  shows "\<exists>res ag'. agent_step env ag = Inl (Inr res, ag') \<and> ar_output res = ir_content r \<and> ar_status res = Completed \<and>
    ag_memory ag' = ag_memory ag \<and> ag_ops ag' = ag_ops ag \<and>
    ag_messages ag' = ag_messages ag @ [message_of Assistant (ir_content r)]"
  using assms by (simp add: agent_step_def Let_def push_def buildResult_def)

lemma stop_drops_tool_calls_witness:
  "\<exists>res ag'. agent_step (sample_env sample_dag\<lparr>env_complete := (\<lambda>n ms ts. Inr
       \<lparr>ir_content = ''ok'', ir_toolCalls = [sample_call], ir_promptTokens = 1, ir_completionTokens = 1, ir_finishReason = ''stop''\<rparr>)\<rparr>)
     sample_agent = Inl (Inr res, ag') \<and> ag_ops ag' = 0"
proof -
  let ?r = "\<lparr>ir_content = ''ok'', ir_toolCalls = [sample_call], ir_promptTokens = 1, ir_completionTokens = 1, ir_finishReason = ''stop''\<rparr>"
  let ?env = "sample_env sample_dag\<lparr>env_complete := (\<lambda>n ms ts. Inr ?r)\<rparr>"
  have "env_complete ?env (ag_step sample_agent + 1) (ag_messages sample_agent) (MEMORY_TOOLS @ ac_tools (ag_config sample_agent)) = Inr ?r"
    by simp
  from stop_drops_tool_calls [OF this] show ?thesis by (auto simp: sample_agent_def new_agent_def)
qed

subsection \<open>The message log\<close>

lemma run_starts_log:
  obtains e ag1 where "run env ag task = (Inl e, ag1)" "ag_messages ag1 = ag_messages ag" "ag_config ag1 = ag_config ag"
  | ag1 seeds where "run env ag task = run_loop env ag1"
      "ag_messages ag1 = ag_messages ag @ [message_of User (task @ context_block seeds)]"
      "ag_step ag1 = ag_step ag" "ag_config ag1 = ag_config ag" "ag_totalTokens ag1 = ag_totalTokens ag"
proof -
  let ?q = "\<lparr>q_grammar = Some (parseDescription task), q_text = None, q_limit = Some 5, q_minDepth = None\<rparr>"
  let ?a0 = "ag\<lparr>ag_status := Running\<rparr>"
  obtain r a where a: "agent_recall env ?a0 ?q = (r, a)" by (cases "agent_recall env ?a0 ?q")
  have k: "ag_step a = ag_step ag" "ag_config a = ag_config ag" "ag_totalTokens a = ag_totalTokens ag"
    "ag_messages a = ag_messages ag"
    using agent_recall_keeps [OF a] agent_recall_messages [OF a] by simp_all
  show thesis
  proof (cases r)
    case (Inl e)
    with a k show thesis by (intro that(1) [of e a]) (simp_all add: run_def)
  next
    case (Inr seeds)
    show thesis
    proof (rule that(2))
      show "run env ag task = run_loop env (push (message_of User (task @ context_block seeds)) a)"
        using a Inr by (simp add: run_def)
    qed (use k in \<open>simp_all add: push_def\<close>)
  qed
qed

text \<open>The log starts with the agent's prompt, and nothing after it is a system message.\<close>

definition system_first :: "agent \<Rightarrow> bool" where
  "system_first ag \<longleftrightarrow> (\<exists>rest. ag_messages ag = message_of System (ac_systemPrompt (ag_config ag)) # rest \<and>
     (\<forall>m \<in> set rest. m_role m \<noteq> System))"

lemma system_first_append:
  "system_first ag \<Longrightarrow> ag_config ag' = ag_config ag \<Longrightarrow> ag_messages ag' = ag_messages ag @ ms \<Longrightarrow>
   \<forall>m \<in> set ms. m_role m \<noteq> System \<Longrightarrow> system_first ag'"
  by (auto simp: system_first_def)

lemma answers_roles: "answers calls ms \<Longrightarrow> m \<in> set ms \<Longrightarrow> m_role m = Tool"
  unfolding answers_def by (induction calls ms rule: list_all2_induct) auto

text \<open>What one iteration appends to the log.\<close>

lemma agent_step_log:
  "case agent_step env ag of
     Inl out \<Rightarrow> ag_config (snd out) = ag_config ag \<and>
       (\<exists>ms. ag_messages (snd out) = ag_messages ag @ ms \<and> (\<forall>m \<in> set ms. m_role m \<noteq> System))
   | Inr ag' \<Rightarrow> ag_config ag' = ag_config ag \<and>
       (\<exists>ms. ag_messages ag' = ag_messages ag @ ms \<and> (\<forall>m \<in> set ms. m_role m \<noteq> System))"
proof -
  have h: "ag_config a = ag_config b \<and> (\<exists>ms. ag_messages a = ag_messages b @ ms \<and> (\<forall>m \<in> set ms. m_role m \<noteq> System))"
    if "handle_calls env b calls = (r, a)" for a b calls r
    using handle_calls_messages [OF that] handle_calls_keeps [OF that] by (fastforce dest: answers_roles)
  show ?thesis
    by (auto simp: agent_step_def Let_def push_def message_of_def split: sum.splits prod.splits dest!: h)
qed

lemma system_first_step:
  assumes "system_first ag"
  shows "agent_step env ag = Inr ag' \<Longrightarrow> system_first ag'" "agent_step env ag = Inl out \<Longrightarrow> system_first (snd out)"
  using agent_step_log [where env = env and ag = ag] by (auto intro: system_first_append [OF assms])

lemma system_first_finish: "system_first (snd (finish_budget ag)) = system_first ag"
  by (simp add: finish_budget_def Let_def system_first_def)

lemma system_first_run:
  assumes "system_first ag"
  shows "system_first (snd (run env ag task))"
proof -
  have loop: "system_first (snd (run_loop env a))" if "system_first a" for a
    by (rule run_loop_rule [where I = system_first and Q = "\<lambda>out. system_first (snd out)"])
      (use that in \<open>auto intro: system_first_step simp: system_first_finish\<close>)
  show ?thesis
  proof (cases rule: run_starts_log [of env ag task])
    case (1 e ag1)
    with assms show ?thesis by (auto intro: system_first_append [where ms = "[]"])
  next
    case (2 ag1 seeds)
    then show ?thesis using system_first_append [OF assms] by (auto intro!: loop simp: message_of_def)
  qed
qed

lemma system_first_new: "system_first (new_agent cfg ms)"
  by (simp add: system_first_def new_agent_def)

end
