(* ===== verification/Inference.thy ===== *)
theory Inference
  imports Agent
begin

text \<open>
  \<^verbatim>\<open>services/agent-runtime/src/inference.ts\<close>: the client for OpenAI-compatible and Anthropic models, that is the
  requests it makes of a message log and how it reads the answers.  The HTTP exchange is a parameter
  \<open>http\<close>, \<open>JSON.parse\<close> on the arguments of a call a parameter \<open>parse\<close> (its numbers are doubles, those of
  \<^typ>\<open>json\<close> integers), and the temperature is kept as the JSON number it prints to.
\<close>

subsection \<open>Reading JSON values\<close>

text \<open>A value that may be \<open>undefined\<close> is an option; \<open>v?.k\<close>, \<open>v.k\<close>, \<open>v ?? d\<close>, \<open>v?.[0]\<close> and \<open>(v ?? []).map\<close>.\<close>

type_synonym js_value = "json option"

definition opt_prop :: "js_value \<Rightarrow> string \<Rightarrow> js_value" where
  "opt_prop v k = (case v of Some j \<Rightarrow> map_of (properties j) k | None \<Rightarrow> None)"

definition nullish :: "js_value \<Rightarrow> bool" where
  "nullish v \<longleftrightarrow> v = None \<or> v = Some JNull"

definition prop_of :: "js_value \<Rightarrow> string \<Rightarrow> js_value result" where
  "prop_of v k = (if nullish v then Inl type_error else Inr (opt_prop v k))"

definition coalesce :: "js_value \<Rightarrow> json \<Rightarrow> json" where
  "coalesce v d = (case v of None \<Rightarrow> d | Some j \<Rightarrow> if j = JNull then d else j)"

fun first_elem :: "js_value \<Rightarrow> js_value" where
  "first_elem (Some (JArr (v # _))) = Some v"
| "first_elem (Some (JStr (c # _))) = Some (JStr [c])"
| "first_elem (Some (JObj ps)) = map_of ps ''0''"
| "first_elem _ = None"

fun elements :: "js_value \<Rightarrow> json list result" where
  "elements None = Inr []"
| "elements (Some JNull) = Inr []"
| "elements (Some (JArr vs)) = Inr vs"
| "elements _ = Inl type_error"

fun mapE :: "('a \<Rightarrow> 'b result) \<Rightarrow> 'a list \<Rightarrow> 'b list result" where
  "mapE f [] = Inr []"
| "mapE f (x # xs) = bindE (f x) (\<lambda>y. bindE (mapE f xs) (\<lambda>ys. Inr (y # ys)))"

subsection \<open>Configuration and results\<close>

record inference_config =
  ic_provider :: string
  ic_baseUrl :: string
  ic_apiKey :: string
  ic_model :: string
  ic_maxTokens :: json
  ic_temperature :: json

text \<open>
  What the code builds from an answer: the fields are what the provider sent, of whatever type.  \<open>to_result\<close>
  is the same result where the types are those the interface \<open>InferenceResult\<close> declares.
\<close>

record raw_call =
  rc_id :: js_value
  rc_name :: js_value
  rc_arguments :: json

record raw_result =
  rr_content :: json
  rr_toolCalls :: "raw_call list"
  rr_promptTokens :: json
  rr_completionTokens :: json
  rr_finishReason :: json

fun to_call :: "raw_call \<Rightarrow> tool_call option" where
  "to_call c = (case (rc_id c, rc_name c) of
     (Some (JStr i), Some (JStr n)) \<Rightarrow> Some \<lparr>tc_id = i, tc_name = n, tc_arguments = rc_arguments c\<rparr>
   | _ \<Rightarrow> None)"

fun to_calls :: "raw_call list \<Rightarrow> tool_call list option" where
  "to_calls [] = Some []"
| "to_calls (c # cs) = (case (to_call c, to_calls cs) of (Some t, Some ts) \<Rightarrow> Some (t # ts) | _ \<Rightarrow> None)"

definition to_result :: "raw_result \<Rightarrow> inference_result option" where
  "to_result r = (case (rr_content r, to_calls (rr_toolCalls r), rr_promptTokens r, rr_completionTokens r, rr_finishReason r) of
     (JStr s, Some ts, JNum p, JNum c, JStr f) \<Rightarrow>
       (if 0 \<le> p \<and> 0 \<le> c then Some \<lparr>ir_content = s, ir_toolCalls = ts, ir_promptTokens = nat p,
          ir_completionTokens = nat c, ir_finishReason = f\<rparr> else None)
   | _ \<Rightarrow> None)"

subsection \<open>Requests\<close>

record http_request =
  rq_url :: string
  rq_headers :: "(string \<times> string) list"
  rq_body :: json

record http_reply =
  rp_ok :: bool
  rp_status :: nat
  rp_text :: "string result"
  rp_json :: "json result"

fun role_name :: "role \<Rightarrow> string" where
  "role_name System = ''system''"
| "role_name User = ''user''"
| "role_name Assistant = ''assistant''"
| "role_name Tool = ''tool''"

definition optional :: "string \<Rightarrow> string option \<Rightarrow> args" where
  "optional k v = (case v of None \<Rightarrow> [] | Some s \<Rightarrow> [(k, JStr s)])"

definition message_json :: "message \<Rightarrow> json" where
  "message_json m = JObj ([(''role'', JStr (role_name (m_role m))), (''content'', JStr (m_content m))] @
     optional ''tool_call_id'' (m_tool_call_id m) @ optional ''name'' (m_name m))"

definition openai_tool :: "tool_definition \<Rightarrow> json" where
  "openai_tool t = JObj [(''type'', JStr ''function''), (''function'', JObj [(''name'', JStr (td_name t)),
     (''description'', JStr (td_description t)), (''parameters'', td_parameters t)])]"

definition tools_field :: "(tool_definition \<Rightarrow> json) \<Rightarrow> tool_definition list option \<Rightarrow> args" where
  "tools_field f tools = (case tools of
     None \<Rightarrow> [] | Some ts \<Rightarrow> if 0 < length ts then [(''tools'', JArr (map f ts))] else [])"

definition openai_request :: "inference_config \<Rightarrow> message list \<Rightarrow> tool_definition list option \<Rightarrow> http_request" where
  "openai_request cfg ms tools =
     \<lparr>rq_url = ic_baseUrl cfg @ ''/chat/completions'',
      rq_headers = (''Content-Type'', ''application/json'') #
        (if ic_apiKey cfg \<noteq> [] then [(''Authorization'', ''Bearer '' @ ic_apiKey cfg)] else []),
      rq_body = JObj ([(''model'', JStr (ic_model cfg)), (''messages'', JArr (map message_json ms)),
        (''max_tokens'', ic_maxTokens cfg), (''temperature'', ic_temperature cfg)] @ tools_field openai_tool tools)\<rparr>"

text \<open>The first system message becomes the system text; every other system message is dropped.\<close>

definition system_text :: "message list \<Rightarrow> string" where
  "system_text ms = (case find (\<lambda>m. m_role m = System) ms of None \<Rightarrow> [] | Some m \<Rightarrow> m_content m)"

definition chat_message :: "message \<Rightarrow> json" where
  "chat_message m = JObj [(''role'', JStr (if m_role m = Tool then ''user'' else role_name (m_role m))),
     (''content'', JStr (m_content m))]"

definition chat_messages :: "message list \<Rightarrow> json list" where
  "chat_messages ms = map chat_message (filter (\<lambda>m. m_role m \<noteq> System) ms)"

definition anthropic_tool :: "tool_definition \<Rightarrow> json" where
  "anthropic_tool t = JObj [(''name'', JStr (td_name t)), (''description'', JStr (td_description t)),
     (''input_schema'', td_parameters t)]"

definition anthropic_request :: "inference_config \<Rightarrow> message list \<Rightarrow> tool_definition list option \<Rightarrow> http_request" where
  "anthropic_request cfg ms tools =
     \<lparr>rq_url = ic_baseUrl cfg @ ''/messages'',
      rq_headers = [(''Content-Type'', ''application/json''), (''x-api-key'', ic_apiKey cfg),
        (''anthropic-version'', ''2023-06-01'')],
      rq_body = JObj ([(''model'', JStr (ic_model cfg)), (''max_tokens'', ic_maxTokens cfg),
        (''temperature'', ic_temperature cfg), (''system'', JStr (system_text ms)),
        (''messages'', JArr (chat_messages ms))] @ tools_field anthropic_tool tools)\<rparr>"

subsection \<open>Answers\<close>

definition openai_call :: "(string \<Rightarrow> json result) \<Rightarrow> json \<Rightarrow> raw_call result" where
  "openai_call parse tc =
     bindE (prop_of (Some tc) ''id'') (\<lambda>i.
     bindE (prop_of (opt_prop (Some tc) ''function'') ''name'') (\<lambda>name.
     bindE (parse (js_String (coalesce (opt_prop (opt_prop (Some tc) ''function'') ''arguments'') (JStr ''{}'')))) (\<lambda>as.
     Inr \<lparr>rc_id = i, rc_name = name, rc_arguments = as\<rparr>)))"

definition openai_result :: "(string \<Rightarrow> json result) \<Rightarrow> json \<Rightarrow> raw_result result" where
  "openai_result parse data =
     bindE (prop_of (Some data) ''choices'') (\<lambda>choices.
     let choice = first_elem choices; msg = opt_prop choice ''message''; usage = opt_prop (Some data) ''usage'' in
     bindE (elements (opt_prop msg ''tool_calls'')) (\<lambda>tcs.
     bindE (mapE (openai_call parse) tcs) (\<lambda>calls.
     Inr \<lparr>rr_content = coalesce (opt_prop msg ''content'') (JStr []), rr_toolCalls = calls,
       rr_promptTokens = coalesce (opt_prop usage ''prompt_tokens'') (JNum 0),
       rr_completionTokens = coalesce (opt_prop usage ''completion_tokens'') (JNum 0),
       rr_finishReason = (if opt_prop choice ''finish_reason'' = Some (JStr ''tool_calls'') then JStr ''tool_calls''
         else coalesce (opt_prop choice ''finish_reason'') (JStr ''stop''))\<rparr>)))"

text \<open>The content blocks; both filters read the type of every block.\<close>

definition has_type :: "string \<Rightarrow> json \<Rightarrow> bool" where
  "has_type ty b \<longleftrightarrow> opt_prop (Some b) ''type'' = Some (JStr ty)"

definition blocks :: "js_value \<Rightarrow> json list result" where
  "blocks v = bindE (elements v) (\<lambda>bs. if JNull \<in> set bs then Inl type_error else Inr bs)"

definition joined :: "js_value list \<Rightarrow> string" where
  "joined vs = concat (map (\<lambda>v. if nullish v then [] else js_String (the v)) vs)"

definition anthropic_call :: "json \<Rightarrow> raw_call" where
  "anthropic_call b = \<lparr>rc_id = opt_prop (Some b) ''id'', rc_name = opt_prop (Some b) ''name'',
     rc_arguments = coalesce (opt_prop (Some b) ''input'') (JObj [])\<rparr>"

definition anthropic_result :: "json \<Rightarrow> raw_result result" where
  "anthropic_result data =
     bindE (prop_of (Some data) ''content'') (\<lambda>content.
     bindE (blocks content) (\<lambda>bs.
     let calls = map anthropic_call (filter (has_type ''tool_use'') bs); usage = opt_prop (Some data) ''usage'' in
     Inr \<lparr>rr_content = JStr (joined (map (\<lambda>b. opt_prop (Some b) ''text'') (filter (has_type ''text'') bs))),
       rr_toolCalls = calls,
       rr_promptTokens = coalesce (opt_prop usage ''input_tokens'') (JNum 0),
       rr_completionTokens = coalesce (opt_prop usage ''output_tokens'') (JNum 0),
       rr_finishReason = (if 0 < length calls then JStr ''tool_calls''
         else coalesce (opt_prop (Some data) ''stop_reason'') (JStr ''stop''))\<rparr>))"

subsection \<open>The client\<close>

definition openaiComplete ::
  "inference_config \<Rightarrow> (string \<Rightarrow> json result) \<Rightarrow> (http_request \<Rightarrow> http_reply result) \<Rightarrow> message list \<Rightarrow>
   tool_definition list option \<Rightarrow> raw_result result" where
  "openaiComplete cfg parse http ms tools =
     bindE (http (openai_request cfg ms tools)) (\<lambda>resp.
     if \<not> rp_ok resp then bindE (rp_text resp) (\<lambda>t. Inl (''Error: Inference failed ('' @ dec (rp_status resp) @ ''): '' @ t))
     else bindE (rp_json resp) (openai_result parse))"

definition anthropicComplete ::
  "inference_config \<Rightarrow> (http_request \<Rightarrow> http_reply result) \<Rightarrow> message list \<Rightarrow>
   tool_definition list option \<Rightarrow> raw_result result" where
  "anthropicComplete cfg http ms tools =
     bindE (http (anthropic_request cfg ms tools)) (\<lambda>resp.
     if \<not> rp_ok resp then bindE (rp_text resp)
       (\<lambda>t. Inl (''Error: Anthropic inference failed ('' @ dec (rp_status resp) @ ''): '' @ t))
     else bindE (rp_json resp) anthropic_result)"

definition complete ::
  "inference_config \<Rightarrow> (string \<Rightarrow> json result) \<Rightarrow> (http_request \<Rightarrow> http_reply result) \<Rightarrow> message list \<Rightarrow>
   tool_definition list option \<Rightarrow> raw_result result" where
  "complete cfg parse http ms tools =
     (if ic_provider cfg = ''openai'' \<or> ic_provider cfg = ''custom'' then openaiComplete cfg parse http ms tools
      else if ic_provider cfg = ''anthropic'' then anthropicComplete cfg http ms tools
      else Inl (''Error: Unknown provider: '' @ ic_provider cfg))"

definition generate ::
  "inference_config \<Rightarrow> (string \<Rightarrow> json result) \<Rightarrow> (http_request \<Rightarrow> http_reply result) \<Rightarrow> string \<Rightarrow> string option \<Rightarrow> json result" where
  "generate cfg parse http prompt systemPrompt =
     (let ms = (case systemPrompt of None \<Rightarrow> [] | Some s \<Rightarrow> if s \<noteq> [] then [message_of System s] else []) @ [message_of User prompt]
      in bindE (complete cfg parse http ms None) (\<lambda>r. Inr (rr_content r)))"

subsection \<open>The same answer from either provider\<close>

text \<open>
  How the two providers are documented to encode an answer with a text, tool calls, token counts and a
  reason to stop; \<open>enc\<close> prints the arguments of a call.
\<close>

definition openai_answer ::
  "(json \<Rightarrow> string) \<Rightarrow> string \<Rightarrow> tool_call list \<Rightarrow> nat \<Rightarrow> nat \<Rightarrow> string \<Rightarrow> json" where
  "openai_answer enc txt calls p c reason = JObj [
     (''choices'', JArr [JObj [
        (''message'', JObj [(''role'', JStr ''assistant''), (''content'', JStr txt),
           (''tool_calls'', JArr (map (\<lambda>call. JObj [(''id'', JStr (tc_id call)), (''type'', JStr ''function''),
              (''function'', JObj [(''name'', JStr (tc_name call)), (''arguments'', JStr (enc (tc_arguments call)))])]) calls))]),
        (''finish_reason'', JStr reason)]]),
     (''usage'', JObj [(''prompt_tokens'', JNum (int p)), (''completion_tokens'', JNum (int c))])]"

definition anthropic_answer :: "string \<Rightarrow> tool_call list \<Rightarrow> nat \<Rightarrow> nat \<Rightarrow> string \<Rightarrow> json" where
  "anthropic_answer txt calls p c reason = JObj [
     (''role'', JStr ''assistant''),
     (''content'', JArr (JObj [(''type'', JStr ''text''), (''text'', JStr txt)] #
        map (\<lambda>call. JObj [(''type'', JStr ''tool_use''), (''id'', JStr (tc_id call)), (''name'', JStr (tc_name call)),
          (''input'', tc_arguments call)]) calls)),
     (''stop_reason'', JStr reason),
     (''usage'', JObj [(''input_tokens'', JNum (int p)), (''output_tokens'', JNum (int c))])]"

definition answer :: "string \<Rightarrow> tool_call list \<Rightarrow> nat \<Rightarrow> nat \<Rightarrow> string \<Rightarrow> inference_result" where
  "answer txt calls p c reason = \<lparr>ir_content = txt, ir_toolCalls = calls, ir_promptTokens = p,
     ir_completionTokens = c, ir_finishReason = reason\<rparr>"

lemmas read_simps = opt_prop_def prop_of_def nullish_def coalesce_def has_type_def joined_def blocks_def

definition raw_of :: "tool_call \<Rightarrow> raw_call" where
  "raw_of call = \<lparr>rc_id = Some (JStr (tc_id call)), rc_name = Some (JStr (tc_name call)), rc_arguments = tc_arguments call\<rparr>"

lemma to_calls_raw [simp]: "to_calls (map raw_of calls) = Some calls"
  by (induction calls) (simp_all add: raw_of_def)

lemma mapE_map: "(\<And>x. x \<in> set xs \<Longrightarrow> f (g x) = Inr (h x)) \<Longrightarrow> mapE f (map g xs) = Inr (map h xs)"
  by (induction xs) simp_all

lemma read_openai_answer:
  assumes "list_all (\<lambda>call. parse (enc (tc_arguments call)) = Inr (tc_arguments call)) calls"
  shows "\<exists>raw. openai_result parse (openai_answer enc txt calls p c reason) = Inr raw \<and>
    to_result raw = Some (answer txt calls p c reason)"
proof -
  let ?j = "\<lambda>call. JObj [(''id'', JStr (tc_id call)), (''type'', JStr ''function''),
              (''function'', JObj [(''name'', JStr (tc_name call)), (''arguments'', JStr (enc (tc_arguments call)))])]"
  have "mapE (openai_call parse) (map ?j calls) = Inr (map raw_of calls)"
    by (rule mapE_map) (use assms in \<open>simp add: openai_call_def read_simps raw_of_def list_all_iff\<close>)
  then show ?thesis
    by (simp add: openai_result_def openai_answer_def read_simps to_result_def answer_def)
qed

lemma read_anthropic_answer:
  assumes "list_all (\<lambda>call. \<exists>ps. tc_arguments call = JObj ps) calls"
  shows "\<exists>raw. anthropic_result (anthropic_answer txt calls p c reason) = Inr raw \<and>
    to_result raw = Some (answer txt calls p c (if calls = [] then reason else ''tool_calls''))"
proof -
  let ?j = "\<lambda>call. JObj [(''type'', JStr ''tool_use''), (''id'', JStr (tc_id call)), (''name'', JStr (tc_name call)),
          (''input'', tc_arguments call)]"
  have f: "filter (has_type ''tool_use'') (map ?j calls) = map ?j calls" "filter (has_type ''text'') (map ?j calls) = []"
    by (auto simp: read_simps filter_id_conv filter_empty_conv)
  have m: "map (anthropic_call \<circ> ?j) calls = map raw_of calls"
    using assms by (auto simp: anthropic_call_def raw_of_def read_simps list_all_iff)
  have b: "blocks (Some (JArr (JObj [(''type'', JStr ''text''), (''text'', JStr txt)] # map ?j calls))) =
      Inr (JObj [(''type'', JStr ''text''), (''text'', JStr txt)] # map ?j calls)"
    by (auto simp: blocks_def)
  have t: "has_type ''text'' (JObj [(''type'', JStr ''text''), (''text'', JStr txt)])"
    "\<not> has_type ''tool_use'' (JObj [(''type'', JStr ''text''), (''text'', JStr txt)])"
    by (simp_all add: read_simps)
  show ?thesis
  proof (cases "calls = []")
    case True
    then show ?thesis
      by (simp add: anthropic_result_def anthropic_answer_def read_simps to_result_def answer_def)
  next
    case False
    then show ?thesis
      by (simp add: anthropic_result_def anthropic_answer_def opt_prop_def prop_of_def nullish_def
          b t f m coalesce_def joined_def to_result_def answer_def)
  qed
qed

subsection \<open>Agents behind a client\<close>

text \<open>
  \<open>env\<close> is the environment of an agent whose client exchanges \<open>http n\<close> in step \<open>n\<close>.  Answers whose fields
  have other types than declared leave it open what the agent does.
\<close>

definition drives ::
  "inference_config \<Rightarrow> (string \<Rightarrow> json result) \<Rightarrow> (nat \<Rightarrow> http_request \<Rightarrow> http_reply result) \<Rightarrow> env \<Rightarrow> bool" where
  "drives cfg parse http env \<longleftrightarrow> (\<forall>n ms ts. case complete cfg parse (http n) ms (Some ts) of
     Inl e \<Rightarrow> env_complete env n ms ts = Inl e
   | Inr raw \<Rightarrow> (\<forall>r. to_result raw = Some r \<longrightarrow> env_complete env n ms ts = Inr r))"

definition ok_reply :: "json \<Rightarrow> http_reply" where
  "ok_reply j = \<lparr>rp_ok = True, rp_status = 200, rp_text = Inl type_error, rp_json = Inr j\<rparr>"

lemma handle_calls_complete:
  "handle_calls (env\<lparr>env_complete := f\<rparr>) ag calls = handle_calls env ag calls"
proof (induction env ag calls rule: handle_calls.induct)
  case (2 env ag call calls)
  have "handleToolCall (env\<lparr>env_complete := f\<rparr>) ag call = handleToolCall env ag call"
    by (simp add: handleToolCall_def handleRemember_def handleRecall_def handleReflect_def agent_recall_def Let_def)
  with 2 show ?case by (auto split: prod.splits sum.splits)
qed simp

lemma same_step:
  assumes "env_complete env (ag_step ag + 1) (ag_messages ag) (MEMORY_TOOLS @ ac_tools (ag_config ag)) = Inr r"
    and "f (ag_step ag + 1) (ag_messages ag) (MEMORY_TOOLS @ ac_tools (ag_config ag)) = Inr (r\<lparr>ir_finishReason := reason\<rparr>)"
    and "reason \<noteq> ''stop''" "ir_finishReason r = reason \<or> ir_toolCalls r = [] \<and> ir_content r \<noteq> []"
  shows "agent_step (env\<lparr>env_complete := f\<rparr>) ag = agent_step env ag"
  using assms by (auto simp: agent_step_def Let_def handle_calls_complete push_def)

text \<open>C17: the interface hides the provider.  An answer with a text, tool calls and token counts is read alike from
  the OpenAI and the Anthropic encoding, whatever the texts, ids, names, arguments and counts are, and an
  agent makes the same step on both, provided the answer is not empty.  The reasons to stop are not
  translated: an OpenAI answer keeps its own, an Anthropic answer its own unless it carries calls.\<close>

theorem providers_agree:
  assumes "list_all (\<lambda>call. parse (enc (tc_arguments call)) = Inr (tc_arguments call)) calls"
    and "list_all (\<lambda>call. \<exists>ps. tc_arguments call = JObj ps) calls"
    and "drives \<lparr>ic_provider = ''openai'', ic_baseUrl = u, ic_apiKey = k, ic_model = m, ic_maxTokens = x, ic_temperature = t\<rparr>
      parse (\<lambda>n req. Inr (ok_reply (openai_answer enc txt calls p c (if calls = [] then ''stop'' else ''tool_calls'')))) env"
    and "drives \<lparr>ic_provider = ''anthropic'', ic_baseUrl = u, ic_apiKey = k, ic_model = m, ic_maxTokens = x, ic_temperature = t\<rparr>
      parse (\<lambda>n req. Inr (ok_reply (anthropic_answer txt calls p c (if calls = [] then ''end_turn'' else ''tool_use'')))) (env\<lparr>env_complete := f\<rparr>)"
    and "calls \<noteq> [] \<or> txt \<noteq> []"
  shows "env_complete env n ms ts = Inr (answer txt calls p c (if calls = [] then ''stop'' else ''tool_calls'')) \<and>
    f n ms ts = Inr (answer txt calls p c (if calls = [] then ''end_turn'' else ''tool_calls'')) \<and>
    agent_step (env\<lparr>env_complete := f\<rparr>) ag = agent_step env ag"
proof -
  have o: "env_complete env n ms ts = Inr (answer txt calls p c (if calls = [] then ''stop'' else ''tool_calls''))" for n ms ts
    using assms(3) read_openai_answer [OF assms(1), of "txt" p c]
    by (fastforce simp: drives_def complete_def openaiComplete_def ok_reply_def split: sum.splits)
  have a: "f n ms ts = Inr (answer txt calls p c (if calls = [] then ''end_turn'' else ''tool_calls''))" for n ms ts
    using assms(4) read_anthropic_answer [OF assms(2), of "txt" p c "if calls = [] then ''end_turn'' else ''tool_use''"]
    by (fastforce simp: drives_def complete_def anthropicComplete_def ok_reply_def split: sum.splits if_splits)
  have "agent_step (env\<lparr>env_complete := f\<rparr>) ag = agent_step env ag"
    by (rule same_step [OF o, where reason = "if calls = [] then ''end_turn'' else ''tool_calls''"])
      (use assms(5) in \<open>simp_all add: a answer_def\<close>)
  with o a show ?thesis by simp
qed

lemma drives_answer:
  assumes "\<And>n ms ts. \<exists>raw. complete cfg parse (http n) ms (Some ts) = Inr raw \<and> to_result raw = Some (g n ms ts)"
  shows "drives cfg parse http (env\<lparr>env_complete := \<lambda>n ms ts. Inr (g n ms ts)\<rparr>)"
  unfolding drives_def
proof (intro allI)
  fix n ms ts
  from assms obtain raw where "complete cfg parse (http n) ms (Some ts) = Inr raw" "to_result raw = Some (g n ms ts)" by blast
  then show "case complete cfg parse (http n) ms (Some ts) of
      Inl e \<Rightarrow> env_complete (env\<lparr>env_complete := \<lambda>n ms ts. Inr (g n ms ts)\<rparr>) n ms ts = Inl e
    | Inr raw \<Rightarrow> (\<forall>r. to_result raw = Some r \<longrightarrow>
        env_complete (env\<lparr>env_complete := \<lambda>n ms ts. Inr (g n ms ts)\<rparr>) n ms ts = Inr r)"
    by simp
qed

definition demo_config :: "string \<Rightarrow> inference_config" where
  "demo_config provider = \<lparr>ic_provider = provider, ic_baseUrl = ''http://m/v1'', ic_apiKey = ''k'', ic_model = ''m'',
     ic_maxTokens = JNum 4096, ic_temperature = JNum 1\<rparr>"

theorem providers_agree_witness:
  "\<exists>env f. agent_step (env\<lparr>env_complete := f\<rparr>) sample_agent = agent_step env sample_agent \<and>
     f 1 [] [] = Inr (answer [] [sample_call] 7 2 ''tool_calls'')"
proof -
  let ?parse = "\<lambda>s. Inr (tc_arguments sample_call) :: json result"
  let ?http = "\<lambda>j (n :: nat) req. Inr (ok_reply j) :: http_reply result"
  let ?o = "openai_answer js_String [] [sample_call] 7 2 ''tool_calls''"
  let ?a = "anthropic_answer [] [sample_call] 7 2 ''tool_use''"
  let ?g = "\<lambda>n ms ts. answer [] [sample_call] 7 2 ''tool_calls''"
  let ?env = "(sample_env sample_dag)\<lparr>env_complete := \<lambda>n ms ts. Inr (?g n ms ts)\<rparr>"
  have as: "list_all (\<lambda>call. \<exists>ps. tc_arguments call = JObj ps) [sample_call]" by (simp add: sample_call_def)
  have o: "drives (demo_config ''openai'') ?parse (?http ?o) ?env"
    using read_openai_answer [of ?parse js_String "[sample_call]" "[]" 7 2 "''tool_calls''"]
    by (intro drives_answer) (simp add: complete_def openaiComplete_def ok_reply_def demo_config_def)
  have a: "drives (demo_config ''anthropic'') ?parse (?http ?a) (?env\<lparr>env_complete := \<lambda>n ms ts. Inr (?g n ms ts)\<rparr>)"
    using read_anthropic_answer [OF as, of "[]" 7 2 "''tool_use''"]
    by (intro drives_answer) (simp add: complete_def anthropicComplete_def ok_reply_def demo_config_def)
  from providers_agree [of ?parse js_String "[sample_call]" "''http://m/v1''" "''k''" "''m''" "JNum 4096" "JNum 1"
      "[]" 7 2 ?env "\<lambda>n ms ts. Inr (?g n ms ts)" 1 "[]" "[]" sample_agent] as o a
  show ?thesis by (intro exI [of _ ?env] exI [of _ "\<lambda>n ms ts. Inr (?g n ms ts)"]) (simp add: demo_config_def)
qed

subsection \<open>What Anthropic is told\<close>

lemma system_text_first:
  assumes "system_first ag"
  shows "system_text (ag_messages ag) = ac_systemPrompt (ag_config ag)"
    and "chat_messages (ag_messages ag) = map chat_message (tl (ag_messages ag))"
proof -
  obtain rest where r: "ag_messages ag = message_of System (ac_systemPrompt (ag_config ag)) # rest"
    "\<forall>m \<in> set rest. m_role m \<noteq> System" using assms by (auto simp: system_first_def)
  then show "system_text (ag_messages ag) = ac_systemPrompt (ag_config ag)"
    by (simp add: system_text_def message_of_def)
  have "filter (\<lambda>m. m_role m \<noteq> System) rest = rest" using r(2) by (simp add: filter_id_conv)
  with r(1) show "chat_messages (ag_messages ag) = map chat_message (tl (ag_messages ag))"
    by (simp add: chat_messages_def message_of_def)
qed

lemma run_config: "ag_config (snd (run env ag task)) = ag_config ag"
proof -
  have loop: "ag_config (snd (run_loop env a)) = ag_config a" for a
    by (rule run_loop_rule [where I = "\<lambda>b. ag_config b = ag_config a" and Q = "\<lambda>out. ag_config (snd out) = ag_config a"])
      (auto dest: agent_step_progress agent_step_out simp: finish_budget_def Let_def)
  show ?thesis by (cases rule: run_starts_log [of env ag task]) (auto simp: loop)
qed

text \<open>Anthropic takes the system text apart from the chat.  Whatever the model and the tools answer, and
  whether the run returns or throws, the request made of a fresh agent's log carries exactly the agent's
  prompt as system text and every other message of the log, in order, as chat of roles user and assistant;
  names and ids of tool calls are not sent.\<close>

lemma anthropic_conversation:
  "let msgs = ag_messages (snd (run env (new_agent cfg st) task)) in
    rq_body (anthropic_request icfg msgs tools) = JObj ([(''model'', JStr (ic_model icfg)),
      (''max_tokens'', ic_maxTokens icfg), (''temperature'', ic_temperature icfg),
      (''system'', JStr (ac_systemPrompt cfg)),
      (''messages'', JArr (map (\<lambda>m. JObj [(''role'', JStr (if m_role m = Assistant then ''assistant'' else ''user'')),
         (''content'', JStr (m_content m))]) (tl msgs)))] @ tools_field anthropic_tool tools)"
proof -
  define msgs where "msgs = ag_messages (snd (run env (new_agent cfg st) task))"
  have s: "system_first (snd (run env (new_agent cfg st) task))" by (rule system_first_run [OF system_first_new])
  have c: "ag_config (snd (run env (new_agent cfg st) task)) = cfg" by (simp add: run_config) (simp add: new_agent_def)
  from s have "\<forall>m \<in> set (tl msgs). m_role m \<noteq> System" by (auto simp: msgs_def system_first_def)
  moreover have "chat_message m = JObj [(''role'', JStr (if m_role m = Assistant then ''assistant'' else ''user'')),
      (''content'', JStr (m_content m))]" if "m_role m \<noteq> System" for m
    using that by (cases "m_role m") (simp_all add: chat_message_def)
  ultimately have "map chat_message (tl msgs) = map (\<lambda>m. JObj [(''role'', JStr (if m_role m = Assistant then ''assistant'' else ''user'')),
         (''content'', JStr (m_content m))]) (tl msgs)"
    by auto
  with system_text_first [OF s] show ?thesis by (simp add: anthropic_request_def msgs_def c)
qed

subsection \<open>A model with nothing to say\<close>

text \<open>Anthropic ends an answer with the reason \<open>end_turn\<close>, which the agent does not take for the end.  A model
  that has nothing to say is therefore asked the same question again until a budget is used up, every
  time at the same price, and the run reports that it has no output.\<close>

lemma silent_model_runs_out:
  assumes "ic_provider icfg = ''anthropic''" "drives icfg parse (\<lambda>n req. Inr (ok_reply (anthropic_answer [] [] p c ''end_turn''))) env"
    and "run env (new_agent cfg st) task = (Inr res, ag)"
  shows "(ar_steps res = ac_maxSteps cfg \<or> ac_tokenBudget cfg \<le> ar_tokensUsed res) \<and>
    ar_tokensUsed res = ar_steps res * (p + c) \<and> ar_output res = ''(no output - budget exhausted)'' \<and>
    length (ag_messages ag) = 2"
proof -
  have e: "env_complete env n ms ts = Inr (answer [] [] p c ''end_turn'')" for n ms ts
    using assms(1,2) read_anthropic_answer [of "[]" "[]" p c "''end_turn''"]
    by (fastforce simp: drives_def complete_def anthropicComplete_def ok_reply_def split: sum.splits)
  have step: "agent_step env a = Inr (a\<lparr>ag_step := ag_step a + 1, ag_totalTokens := ag_totalTokens a + (p + c)\<rparr>)" for a
    by (simp add: agent_step_def e answer_def)
  let ?I = "\<lambda>a. ag_config a = cfg \<and> ag_step a \<le> ac_maxSteps cfg \<and> ag_totalTokens a = ag_step a * (p + c) \<and>
    length (ag_messages a) = 2 \<and> filter (\<lambda>m. m_role m = Assistant) (ag_messages a) = []"
  let ?Q = "\<lambda>(r, a). case r of Inl e \<Rightarrow> False | Inr res \<Rightarrow>
    (ar_steps res = ac_maxSteps cfg \<or> ac_tokenBudget cfg \<le> ar_tokensUsed res) \<and>
    ar_tokensUsed res = ar_steps res * (p + c) \<and> ar_output res = ''(no output - budget exhausted)'' \<and>
    length (ag_messages a) = 2"
  have loop: "?Q (run_loop env a)" if "?I a" for a
  proof (rule run_loop_rule [where I = ?I])
    fix b assume "?I b" "\<not> guard b"
    then show "?Q (finish_budget b)"
      by (auto simp: finish_budget_def Let_def guard_def last_assistant_def buildResult_def)
  qed (use that in \<open>auto simp: step guard_def algebra_simps\<close>)
  show ?thesis
  proof (cases rule: run_starts_log [of env "new_agent cfg st" task])
    case (2 ag1 seeds)
    then have "?I ag1" by (simp add: new_agent_def message_of_def)
    note q = loop [OF this]
    have out: "run_loop env ag1 = (Inr res, ag)" using assms(3) 2(1) by simp
    show ?thesis using q unfolding out prod.case sum.case .
  qed (use assms(3) in simp)
qed

lemma silent_model_runs_out_witness:
  "\<exists>env res ag. run env (new_agent (ag_config sample_agent) (new_store DEFAULT_CONFIG)) ''tea'' = (Inr res, ag) \<and>
     (ar_steps res = 5 \<or> 100 \<le> ar_tokensUsed res) \<and> ar_output res = ''(no output - budget exhausted)''"
proof -
  let ?a = "anthropic_answer [] [] 7 2 ''end_turn''"
  let ?http = "\<lambda>(n :: nat) req. Inr (ok_reply ?a) :: http_reply result"
  let ?env = "(sample_env sample_dag)\<lparr>env_complete := \<lambda>n ms ts. Inr (answer [] [] 7 2 ''end_turn'')\<rparr>"
  let ?ag = "new_agent (ag_config sample_agent) (new_store DEFAULT_CONFIG)"
  have d: "drives (demo_config ''anthropic'') (\<lambda>s. Inl s) ?http ?env"
    using read_anthropic_answer [of "[]" "[]" 7 2 "''end_turn''"]
    by (intro drives_answer) (simp add: complete_def anthropicComplete_def ok_reply_def demo_config_def)
  have seed: "agent_recall ?env (?ag\<lparr>ag_status := Running\<rparr>) \<lparr>q_grammar = Some g, q_text = None, q_limit = Some 5, q_minDepth = None\<rparr> =
     (Inr [], ?ag\<lparr>ag_status := Running, ag_ops := 1\<rparr>)" for g
    by (simp add: agent_recall_def recall_def query_grammar_def sample_env_def sample_agent_def new_agent_def
        new_store_def DEFAULT_CONFIG_def book_query_def dagQuery_def sample_dag_def Let_def)
  let ?a1 = "push (message_of User (''tea'' @ context_block [])) (?ag\<lparr>ag_status := Running, ag_ops := 1\<rparr>)"
  have "\<exists>res ag. run_loop ?env a = (Inr res, ag)" for a
    using run_loop_rule [where I = "\<lambda>a. True" and Q = "\<lambda>out. \<exists>res ag. out = (Inr res, ag)" and env = ?env and ag = a]
    by (auto simp: agent_step_def answer_def finish_budget_def Let_def)
  moreover have "run ?env ?ag ''tea'' = run_loop ?env ?a1" by (simp add: run_def seed)
  ultimately obtain res ag where r: "run ?env ?ag ''tea'' = (Inr res, ag)" by metis
  have "ic_provider (demo_config ''anthropic'') = ''anthropic''" by (simp add: demo_config_def)
  from silent_model_runs_out [OF this d r] r show ?thesis by (auto simp: sample_agent_def new_agent_def)
qed

end
