(* ===== verification/AgentServer.thy ===== *)
theory AgentServer
  imports Inference
begin

text \<open>
  \<^verbatim>\<open>services/agent-runtime/src/server.ts\<close>: the HTTP server around the agents and the memory store.  Requests
  are handled one at a time.  A handler takes the parsed body (\<open>None\<close> without one), what an agent meets
  (\<open>env\<close>) and the state of the process; it replies, refuses with a status, or throws, which Fastify turns
  into status 500.  The zod schemas are written out as readers of JSON values, for integral numbers.
\<close>

subsection \<open>Schemas\<close>

definition zod_error :: string where
  "zod_error = ''ZodError''"

fun as_object :: "js_value \<Rightarrow> args result" where
  "as_object (Some (JObj ps)) = Inr ps"
| "as_object _ = Inl zod_error"

text \<open>\<open>z.string().optional()\<close>, \<open>z.string().min(1)\<close>, \<open>z.number().int().positive().default(d)\<close> and
  \<open>z.number().min(0).max(2).optional()\<close> on one field.\<close>

fun z_optional_string :: "js_value \<Rightarrow> string option result" where
  "z_optional_string None = Inr None"
| "z_optional_string (Some (JStr s)) = Inr (Some s)"
| "z_optional_string _ = Inl zod_error"

fun z_nonempty :: "js_value \<Rightarrow> string result" where
  "z_nonempty (Some (JStr s)) = (if 1 \<le> length s then Inr s else Inl zod_error)"
| "z_nonempty _ = Inl zod_error"

fun z_positive :: "nat \<Rightarrow> js_value \<Rightarrow> nat result" where
  "z_positive d None = Inr d"
| "z_positive d (Some (JNum n)) = (if 0 < n then Inr (nat n) else Inl zod_error)"
| "z_positive d _ = Inl zod_error"

fun z_temperature :: "js_value \<Rightarrow> int option result" where
  "z_temperature None = Inr None"
| "z_temperature (Some (JNum n)) = (if 0 \<le> n \<and> n \<le> 2 then Inr (Some n) else Inl zod_error)"
| "z_temperature _ = Inl zod_error"

definition GrammarSchema :: "js_value \<Rightarrow> grammar result" where
  "GrammarSchema v =
     bindE (as_object v) (\<lambda>ps.
     bindE (z_optional_string (map_of ps ''domain'')) (\<lambda>d.
     bindE (z_optional_string (map_of ps ''entity'')) (\<lambda>e.
     bindE (z_optional_string (map_of ps ''relation'')) (\<lambda>r.
     bindE (z_optional_string (map_of ps ''temporal'')) (\<lambda>t.
     bindE (z_optional_string (map_of ps ''qualifier'')) (\<lambda>q.
     Inr \<lparr>g_domain = map_option One d, g_entity = map_option One e, g_relation = map_option One r,
       g_temporal = map_option One t, g_qualifier = map_option One q\<rparr>))))))"

record create_body =
  cb_id :: string
  cb_name :: string
  cb_systemPrompt :: string
  cb_maxSteps :: nat
  cb_tokenBudget :: nat
  cb_model :: "string option"
  cb_temperature :: "int option"

definition CreateAgentSchema :: "js_value \<Rightarrow> create_body result" where
  "CreateAgentSchema v =
     bindE (as_object v) (\<lambda>ps.
     bindE (z_nonempty (map_of ps ''id'')) (\<lambda>i.
     bindE (z_nonempty (map_of ps ''name'')) (\<lambda>n.
     bindE (z_nonempty (map_of ps ''systemPrompt'')) (\<lambda>sp.
     bindE (z_positive 20 (map_of ps ''maxSteps'')) (\<lambda>steps.
     bindE (z_positive 100000 (map_of ps ''tokenBudget'')) (\<lambda>budget.
     bindE (z_optional_string (map_of ps ''model'')) (\<lambda>m.
     bindE (z_temperature (map_of ps ''temperature'')) (\<lambda>t.
     Inr \<lparr>cb_id = i, cb_name = n, cb_systemPrompt = sp, cb_maxSteps = steps, cb_tokenBudget = budget,
       cb_model = m, cb_temperature = t\<rparr>))))))))"

definition RunTaskSchema :: "js_value \<Rightarrow> string result" where
  "RunTaskSchema v = bindE (as_object v) (\<lambda>ps. z_nonempty (map_of ps ''task''))"

definition StoreMemorySchema :: "js_value \<Rightarrow> (grammar \<times> string) result" where
  "StoreMemorySchema v =
     bindE (as_object v) (\<lambda>ps.
     bindE (GrammarSchema (map_of ps ''grammar'')) (\<lambda>g.
     bindE (z_nonempty (map_of ps ''content'')) (\<lambda>c.
     Inr (g, c))))"

definition RecallSchema :: "js_value \<Rightarrow> mem_query result" where
  "RecallSchema v =
     bindE (as_object v) (\<lambda>ps.
     bindE (case map_of ps ''grammar'' of None \<Rightarrow> Inr None | Some g \<Rightarrow> bindE (GrammarSchema (Some g)) (\<lambda>g. Inr (Some g))) (\<lambda>g.
     bindE (z_optional_string (map_of ps ''text'')) (\<lambda>t.
     bindE (z_positive 20 (map_of ps ''limit'')) (\<lambda>n.
     Inr \<lparr>q_grammar = g, q_text = t, q_limit = Some (int n), q_minDepth = None\<rparr>))))"

subsection \<open>State\<close>

text \<open>\<open>agents\<close>, \<open>memoryStore\<close>, whether the bus is up, and the completion events it was given.\<close>

record agent_entry =
  ae_config :: agent_config
  ae_instance :: "agent option"

record runtime =
  rt_agents :: "(string \<times> agent_entry) list"
  rt_memory :: memory_store
  rt_bus :: bool
  rt_completed :: "(string \<times> string \<times> agent_status \<times> nat) list"

definition runtime_start :: "store_config \<Rightarrow> bool \<Rightarrow> runtime" where
  "runtime_start cfg bus = \<lparr>rt_agents = [], rt_memory = new_store cfg, rt_bus = bus, rt_completed = []\<rparr>"

type_synonym 'b handled = "'b response result \<times> runtime"

subsection \<open>Agent endpoints\<close>

definition unknown_tool :: "tool_call \<Rightarrow> string result" where
  "unknown_tool call = Inr (''Unknown tool: '' @ tc_name call)"

definition body_config :: "create_body \<Rightarrow> agent_config" where
  "body_config b = \<lparr>ac_id = cb_id b, ac_name = cb_name b, ac_systemPrompt = cb_systemPrompt b,
     ac_maxSteps = cb_maxSteps b, ac_tokenBudget = cb_tokenBudget b, ac_tools = []\<rparr>"

definition post_agents ::
  "inference_config \<Rightarrow> js_value \<Rightarrow> runtime \<Rightarrow> (string \<times> string \<times> string \<times> string) handled" where
  "post_agents icfg body rt =
     (case CreateAgentSchema body of
        Inl e \<Rightarrow> (Inl e, rt)
      | Inr b \<Rightarrow> (Inr (Reply (cb_id b, cb_name b, ic_model icfg, ic_provider icfg)),
          rt\<lparr>rt_agents := AList.update (cb_id b) \<lparr>ae_config = body_config b, ae_instance = None\<rparr> (rt_agents rt)\<rparr>))"

definition post_run :: "env \<Rightarrow> string \<Rightarrow> js_value \<Rightarrow> runtime \<Rightarrow> agent_result handled" where
  "post_run env i body rt =
     (case map_of (rt_agents rt) i of
        None \<Rightarrow> (Inr (Refused 404 ''Agent not found''), rt)
      | Some entry \<Rightarrow>
          (case RunTaskSchema body of
             Inl e \<Rightarrow> (Inl e, rt)
           | Inr task \<Rightarrow>
               (case run (env\<lparr>env_toolHandler := unknown_tool\<rparr>) (new_agent (ae_config entry) (rt_memory rt)) task of
                  (r, ag) \<Rightarrow>
                    (let rt = rt\<lparr>rt_agents := AList.update i (entry\<lparr>ae_instance := Some ag\<rparr>) (rt_agents rt), rt_memory := ag_memory ag\<rparr>
                     in case r of
                          Inl e \<Rightarrow> (Inl e, rt)
                        | Inr res \<Rightarrow> (Inr (Reply res),
                            if rt_bus rt then rt\<lparr>rt_completed := rt_completed rt @ [(i, task, ar_status res, ar_steps res)]\<rparr> else rt)))))"

fun status_name :: "agent_status \<Rightarrow> string" where
  "status_name Idle = ''idle''"
| "status_name Running = ''running''"
| "status_name Completed = ''completed''"
| "status_name Error = ''error''"
| "status_name BudgetExhausted = ''budget_exhausted''"

record agent_info =
  ai_id :: string
  ai_name :: string
  ai_maxSteps :: nat
  ai_tokenBudget :: nat
  ai_status :: string

definition get_agent :: "string \<Rightarrow> runtime \<Rightarrow> agent_info handled" where
  "get_agent i rt =
     (case map_of (rt_agents rt) i of
        None \<Rightarrow> (Inr (Refused 404 ''Agent not found''), rt)
      | Some entry \<Rightarrow> (let c = ae_config entry in
          (Inr (Reply \<lparr>ai_id = ac_id c, ai_name = ac_name c, ai_maxSteps = ac_maxSteps c, ai_tokenBudget = ac_tokenBudget c,
             ai_status = (case ae_instance entry of None \<Rightarrow> ''idle'' | Some ag \<Rightarrow> status_name (ag_status ag))\<rparr>), rt)))"

subsection \<open>Memory endpoints\<close>

text \<open>\<^verbatim>\<open>/^[0-9a-f]{64}$/i\<close>.\<close>

definition is_address :: "string \<Rightarrow> bool" where
  "is_address s \<longleftrightarrow> length s = 64 \<and> list_all (\<lambda>c. is_hex_char (js_lower_char c)) s"

definition with_memory :: "runtime \<Rightarrow> 'a outcome \<Rightarrow> 'a result \<times> runtime" where
  "with_memory rt out = (case out of (r, ms, _) \<Rightarrow> (r, rt\<lparr>rt_memory := ms\<rparr>))"

definition post_memory_store :: "env \<Rightarrow> js_value \<Rightarrow> runtime \<Rightarrow> mem_entry handled" where
  "post_memory_store env body rt =
     (case StoreMemorySchema body of
        Inl e \<Rightarrow> (Inl e, rt)
      | Inr (g, c) \<Rightarrow>
          (case with_memory rt (store (env_noble env) (env_dag env 0) (rt_memory rt) g c None (env_clock env 0 0)) of
             (r, rt) \<Rightarrow> (bindE r (\<lambda>e. Inr (Reply e)), rt)))"

definition post_memory_recall :: "env \<Rightarrow> js_value \<Rightarrow> runtime \<Rightarrow> (mem_entry list \<times> nat) handled" where
  "post_memory_recall env body rt =
     (case RecallSchema body of
        Inl e \<Rightarrow> (Inl e, rt)
      | Inr q \<Rightarrow>
          (case with_memory rt (recall (env_noble env) (env_dag env 0) (rt_memory rt) q (env_clock env 0)) of
             (r, rt) \<Rightarrow> (bindE r (\<lambda>es. Inr (Reply (es, length es))), rt)))"

definition get_memory :: "env \<Rightarrow> string \<Rightarrow> runtime \<Rightarrow> mem_entry handled" where
  "get_memory env h rt =
     (if \<not> is_address h then (Inr (Refused 400 ''Invalid address - must be 64 hex chars''), rt)
      else
        (case with_memory rt (getMemory (env_dag env 0) (rt_memory rt) h (env_clock env 0 0)) of
           (r, rt) \<Rightarrow> (bindE r (\<lambda>found. Inr (case found of None \<Rightarrow> Refused 404 ''Memory not found'' | Some e \<Rightarrow> Reply e)), rt)))"

definition get_info :: "inference_config \<Rightarrow> runtime \<Rightarrow> (string \<times> string \<times> nat \<times> nat) handled" where
  "get_info icfg rt = (Inr (Reply (ic_model icfg, ic_provider icfg, length (rt_agents rt), cacheSize (rt_memory rt))), rt)"

subsection \<open>Histories of requests\<close>

datatype runtime_request =
    PostAgents js_value
  | PostRun string js_value
  | GetAgent string
  | PostMemoryStore js_value
  | PostMemoryRecall js_value
  | GetMemory string
  | GetInfo

text \<open>The state after a request; every request meets an environment of its own.\<close>

fun runtime_step :: "inference_config \<Rightarrow> runtime \<Rightarrow> env \<times> runtime_request \<Rightarrow> runtime" where
  "runtime_step icfg rt (env, PostAgents b) = snd (post_agents icfg b rt)"
| "runtime_step icfg rt (env, PostRun i b) = snd (post_run env i b rt)"
| "runtime_step icfg rt (env, GetAgent i) = snd (get_agent i rt)"
| "runtime_step icfg rt (env, PostMemoryStore b) = snd (post_memory_store env b rt)"
| "runtime_step icfg rt (env, PostMemoryRecall b) = snd (post_memory_recall env b rt)"
| "runtime_step icfg rt (env, GetMemory h) = snd (get_memory env h rt)"
| "runtime_step icfg rt (env, GetInfo) = snd (get_info icfg rt)"

definition runtime_after :: "inference_config \<Rightarrow> runtime \<Rightarrow> (env \<times> runtime_request) list \<Rightarrow> runtime" where
  "runtime_after icfg rt qs = foldl (runtime_step icfg) rt qs"

subsection \<open>The invariant\<close>

definition entry_ok :: "string \<Rightarrow> agent_entry \<Rightarrow> bool" where
  "entry_ok i e \<longleftrightarrow> ac_id (ae_config e) = i \<and> i \<noteq> [] \<and> ac_systemPrompt (ae_config e) \<noteq> [] \<and>
     0 < ac_maxSteps (ae_config e) \<and> 0 < ac_tokenBudget (ae_config e) \<and> ac_tools (ae_config e) = [] \<and>
     (case ae_instance e of None \<Rightarrow> True
      | Some ag \<Rightarrow> ag_config ag = ae_config e \<and> system_first ag \<and> ag_status ag \<noteq> Idle)"

definition rt_ok :: "runtime \<Rightarrow> bool" where
  "rt_ok rt \<longleftrightarrow> distinct (map fst (rt_agents rt)) \<and> (\<forall>(i, e) \<in> set (rt_agents rt). entry_ok i e) \<and>
     book_inv (ms_cache (rt_memory rt))"

lemma z_simps [simp]:
  "z_nonempty v = Inr s \<longleftrightarrow> v = Some (JStr s) \<and> s \<noteq> []"
  "z_positive d v = Inr n \<Longrightarrow> 0 < d \<Longrightarrow> 0 < n"
  by (cases v rule: z_nonempty.cases; auto simp: Suc_le_eq) (cases "(d, v)" rule: z_positive.cases; auto split: if_splits)

lemma body_config_ok: "CreateAgentSchema v = Inr b \<Longrightarrow> entry_ok (cb_id b) \<lparr>ae_config = body_config b, ae_instance = None\<rparr>"
  by (auto simp: CreateAgentSchema_def entry_ok_def body_config_def)

lemma rt_ok_entry: "rt_ok rt \<Longrightarrow> map_of (rt_agents rt) i = Some e \<Longrightarrow> entry_ok i e"
  by (auto simp: rt_ok_def dest: map_of_SomeD)

lemma rt_ok_update:
  assumes "rt_ok rt" "entry_ok i e" "book_inv (ms_cache ms)"
  shows "rt_ok (rt\<lparr>rt_agents := AList.update i e (rt_agents rt), rt_memory := ms\<rparr>)"
    "rt_ok (rt\<lparr>rt_agents := AList.update i e (rt_agents rt), rt_memory := ms, rt_completed := cs\<rparr>)"
    "rt_ok (rt\<lparr>rt_agents := AList.update i e (rt_agents rt)\<rparr>)"
  using assms set_update_subset [of i e "rt_agents rt"] by (auto simp: rt_ok_def distinct_update)

text \<open>The instance that a run leaves behind, and the memory.\<close>

lemma run_leaves:
  assumes "entry_ok i e" "book_inv (ms_cache ms)" "run env (new_agent (ae_config e) ms) task = (r, ag)"
  shows "entry_ok i (e\<lparr>ae_instance := Some ag\<rparr>)" "step_ok ms (ag_memory ag)"
proof -
  have "ag_config ag = ae_config e"
    using run_config [of env "new_agent (ae_config e) ms" task] assms(3) by (simp add: new_agent_def)
  moreover have "system_first ag"
    using system_first_run [OF system_first_new, of env "ae_config e" ms task] assms(3) by simp
  moreover have "ag_status ag \<noteq> Idle"
  proof (cases r)
    case (Inl err)
    with run_throws_running assms(3) show ?thesis by force
  next
    case (Inr res)
    with assms(3) have a: "run env (new_agent (ae_config e) ms) task = (Inr res, ag)" by simp
    from run_bounded [OF a] show ?thesis
      by (auto simp: new_agent_def) (metis buildResult_simps(3) agent_status.distinct(3,5,7) agent_status.simps)+
  qed
  ultimately show "entry_ok i (e\<lparr>ae_instance := Some ag\<rparr>)" using assms(1) by (simp add: entry_ok_def)
  show "step_ok ms (ag_memory ag)"
    using later_run [of "new_agent (ae_config e) ms" env task] assms(2,3) by (simp add: new_agent_def later_def)
qed

text \<open>A request keeps the invariant, only extends the memory and only appends completion events.\<close>

definition rt_later :: "runtime \<Rightarrow> runtime \<Rightarrow> bool" where
  "rt_later rt rt' \<longleftrightarrow> rt_ok rt' \<and> step_ok (rt_memory rt) (rt_memory rt') \<and> prefix (rt_completed rt) (rt_completed rt')"

lemma rt_ok_memory: "rt_ok rt \<Longrightarrow> book_inv (ms_cache (rt_memory rt))"
  by (simp add: rt_ok_def)

lemma rt_later_refl: "rt_ok rt \<Longrightarrow> rt_later rt rt"
  by (simp add: rt_later_def step_ok_refl rt_ok_memory)

lemma rt_later_trans: "rt_later a b \<Longrightarrow> rt_later b c \<Longrightarrow> rt_later a c"
  unfolding rt_later_def by (auto intro: step_ok_trans prefix_order.trans)

lemma rt_later_memory:
  assumes "rt_ok rt" "step_ok (rt_memory rt) (fst (snd out))"
  shows "rt_later rt (snd (with_memory rt out))"
  using assms by (cases out) (auto simp: with_memory_def rt_later_def rt_ok_def step_ok_def)

lemma rt_later_agents:
  assumes "rt_ok rt"
  shows "rt_later rt (snd (post_agents icfg b rt))" "rt_later rt (snd (get_agent i rt))"
    "rt_later rt (snd (get_info icfg rt))"
proof -
  show "rt_later rt (snd (post_agents icfg b rt))"
    using assms rt_ok_update(3) [OF assms body_config_ok rt_ok_memory [OF assms]]
    by (auto simp: post_agents_def rt_later_refl rt_later_def step_ok_refl rt_ok_memory split: sum.splits)
qed (auto simp: get_agent_def get_info_def Let_def rt_later_refl assms split: option.splits)

lemma rt_later_run:
  assumes "rt_ok rt"
  shows "rt_later rt (snd (post_run env i b rt))"
proof (cases "map_of (rt_agents rt) i")
  case (Some e)
  have e: "entry_ok i e" by (rule rt_ok_entry [OF assms Some])
  show ?thesis
  proof (cases "RunTaskSchema b")
    case (Inr task)
    let ?env = "env\<lparr>env_toolHandler := unknown_tool\<rparr>"
    obtain r ag where run: "run ?env (new_agent (ae_config e) (rt_memory rt)) task = (r, ag)"
      by (cases "run ?env (new_agent (ae_config e) (rt_memory rt)) task")
    note ok = run_leaves [OF e rt_ok_memory [OF assms] run]
    then have m: "book_inv (ms_cache (ag_memory ag))" by (simp add: step_ok_def)
    let ?rt = "rt\<lparr>rt_agents := AList.update i (e\<lparr>ae_instance := Some ag\<rparr>) (rt_agents rt), rt_memory := ag_memory ag\<rparr>"
    have k: "rt_later rt ?rt" "rt_later rt (?rt\<lparr>rt_completed := rt_completed rt @ cs\<rparr>)" for cs
      using rt_ok_update(1,2) [OF assms ok(1) m] ok(2) by (simp_all add: rt_later_def)
    show ?thesis
    proof (cases r)
      case (Inl err)
      with k show ?thesis by (simp add: post_run_def Some Inr run)
    next
      case (Inr res)
      with k \<open>RunTaskSchema b = Inr task\<close> show ?thesis by (simp add: post_run_def Some run Let_def)
    qed
  qed (simp add: post_run_def Some rt_later_refl assms)
qed (simp add: post_run_def rt_later_refl assms)

lemma rt_later_step: "rt_ok rt \<Longrightarrow> rt_later rt (runtime_step icfg rt q)"
proof (cases "(icfg, rt, q)" rule: runtime_step.cases)
  case (4 icfg' rt' env b)
  assume ok: "rt_ok rt"
  have "rt_later rt (snd (with_memory rt (store lib dag (rt_memory rt) g c emb now)))" for lib dag g c emb now
    by (rule rt_later_memory [OF ok step_ok_store [OF rt_ok_memory [OF ok]]])
  with 4 ok show ?thesis by (auto simp: post_memory_store_def rt_later_refl split: sum.splits prod.splits) (metis snd_conv)
next
  case (5 icfg' rt' env b)
  assume ok: "rt_ok rt"
  have "rt_later rt (snd (with_memory rt (recall lib dag (rt_memory rt) g c)))" for lib dag g c
    by (rule rt_later_memory [OF ok step_ok_recall [OF rt_ok_memory [OF ok]]])
  with 5 ok show ?thesis by (auto simp: post_memory_recall_def rt_later_refl split: sum.splits prod.splits) (metis snd_conv)
next
  case (6 icfg' rt' env h)
  assume ok: "rt_ok rt"
  have "rt_later rt (snd (with_memory rt (getMemory dag (rt_memory rt) h now)))" for dag h now
    by (rule rt_later_memory [OF ok step_ok_get [OF rt_ok_memory [OF ok]]])
  with 6 ok show ?thesis by (auto simp: get_memory_def rt_later_refl split: sum.splits prod.splits) (metis snd_conv)
qed (auto simp: rt_later_agents rt_later_run)

lemma rt_later_after: "rt_ok rt \<Longrightarrow> rt_later rt (runtime_after icfg rt qs)"
proof (induction qs arbitrary: rt)
  case (Cons q qs)
  have 1: "rt_later rt (runtime_step icfg rt q)" by (rule rt_later_step [OF Cons.prems])
  then have "rt_ok (runtime_step icfg rt q)" by (simp add: rt_later_def)
  from rt_later_trans [OF 1 Cons.IH [OF this]] show ?case by (simp add: runtime_after_def)
qed (simp add: runtime_after_def rt_later_refl)

lemma rt_ok_start: "rt_ok (runtime_start cfg bus)"
  by (simp add: rt_ok_def runtime_start_def new_store_def)

lemma rt_ok_after: "rt_ok (runtime_after icfg (runtime_start cfg bus) qs)"
  using rt_later_after [OF rt_ok_start] by (simp add: rt_later_def)

lemma runtime_after_append: "runtime_after icfg rt (qs @ qs') = runtime_after icfg (runtime_after icfg rt qs) qs'"
  by (simp add: runtime_after_def)

subsection \<open>Properties\<close>

text \<open>C16: whatever requests the runtime serves, with whatever bodies, models and memory services: agents are
  filed under their own nonempty ids, every agent has a prompt and positive budgets, every instance has been
  run and its log starts with the prompt; and from one moment to a later one no stored memory is
  forgotten and no completion event is withdrawn.\<close>

theorem runtime_invariant:
  "let rt = runtime_after icfg (runtime_start cfg bus) qs; rt' = runtime_after icfg (runtime_start cfg bus) (qs @ qs') in
    distinct (map fst (rt_agents rt)) \<and>
    list_all (\<lambda>(i, e). ac_id (ae_config e) = i \<and> i \<noteq> [] \<and> ac_systemPrompt (ae_config e) \<noteq> [] \<and>
      0 < ac_maxSteps (ae_config e) \<and> 0 < ac_tokenBudget (ae_config e) \<and>
      (case ae_instance e of None \<Rightarrow> True
       | Some ag \<Rightarrow> ag_status ag \<noteq> Idle \<and> hd (ag_messages ag) = message_of System (ac_systemPrompt (ae_config e)))) (rt_agents rt) \<and>
    dom (book_get (ms_cache (rt_memory rt))) \<subseteq> dom (book_get (ms_cache (rt_memory rt'))) \<and>
    prefix (rt_completed rt) (rt_completed rt')"
proof -
  let ?rt = "runtime_after icfg (runtime_start cfg bus) qs"
  have ok: "rt_ok ?rt" by (rule rt_ok_after)
  then have l: "rt_later ?rt (runtime_after icfg (runtime_start cfg bus) (qs @ qs'))"
    unfolding runtime_after_append by (rule rt_later_after)
  have e: "ac_id (ae_config e) = i \<and> i \<noteq> [] \<and> ac_systemPrompt (ae_config e) \<noteq> [] \<and>
      0 < ac_maxSteps (ae_config e) \<and> 0 < ac_tokenBudget (ae_config e) \<and>
      (case ae_instance e of None \<Rightarrow> True
       | Some ag \<Rightarrow> ag_status ag \<noteq> Idle \<and> hd (ag_messages ag) = message_of System (ac_systemPrompt (ae_config e)))"
    if "entry_ok i e" for i e
    using that by (cases "ae_instance e") (auto simp: entry_ok_def system_first_def)
  from ok have "distinct (map fst (rt_agents ?rt))" "\<forall>(i, e) \<in> set (rt_agents ?rt). entry_ok i e"
    unfolding rt_ok_def by blast+
  moreover from l have "step_ok (rt_memory ?rt) (rt_memory (runtime_after icfg (runtime_start cfg bus) (qs @ qs')))"
    "prefix (rt_completed ?rt) (rt_completed (runtime_after icfg (runtime_start cfg bus) (qs @ qs')))"
    unfolding rt_later_def by blast+
  ultimately show ?thesis
    unfolding Let_def list_all_iff using step_okD(1) by (intro conjI) (blast dest: e)+
qed


definition demo_body :: json where
  "demo_body = JObj [(''id'', JStr ''a1''), (''name'', JStr ''ada''), (''systemPrompt'', JStr ''help''), (''maxSteps'', JNum 5)]"

lemma demo_schema: "CreateAgentSchema (Some demo_body) = Inr \<lparr>cb_id = ''a1'', cb_name = ''ada'', cb_systemPrompt = ''help'',
    cb_maxSteps = 5, cb_tokenBudget = 100000, cb_model = None, cb_temperature = None\<rparr>"
  by (simp add: CreateAgentSchema_def demo_body_def)


subsection \<open>Memory by address\<close>

lemma hex_digit_lower: "is_hex_char c \<Longrightarrow> js_lower_char c = c"
  by (auto simp: is_hex_char_def js_lower_char_def code_def Let_def)

lemma is_address_toHex: "length (sa_bytes a) = 32 \<Longrightarrow> is_address (toHex a)"
  by (auto simp: is_address_def toHex_def list_all_iff hex_digit_lower is_hex_char_hex_of)

lemma cache_miss_upper:
  assumes "book_inv b" "toLowerCase h \<noteq> h"
  shows "getByHex b h = None"
proof -
  have "toLowerCase (toHex a) = toHex a" for a
    unfolding toLowerCase_def toHex_def by (intro map_idI) (rule hex_digit_lower, rule is_hex_char_hex_of)
  with assms show ?thesis
    by (auto simp: getByHex_def map_of_eq_None_iff book_inv_def list_all_iff)
qed

lemma runtime_config: "ms_config (rt_memory (runtime_after icfg (runtime_start cfg bus) qs)) = cfg"
  using rt_later_after [of "runtime_start cfg bus", OF rt_ok_start, where icfg = icfg and qs = qs] by (simp add: rt_later_def step_ok_def runtime_start_def new_store_def)

text \<open>Reading back by address.  With a cache, the address of an entry that the store endpoint returned stays
  readable in the same process, whatever requests come in between and whatever the memory service does; read
  at once it gives the entry itself, but for the access time.
  The endpoint accepts upper-case digits too, but the cache is keyed by lower-case ones: under such a
  spelling every cached entry is missed and the reply is whatever the memory service says.\<close>

lemma memory_by_address:
  assumes "noble_ok (env_noble env)" "localCache cfg"
    and "rt = runtime_after icfg (runtime_start cfg bus) qs" "post_memory_store env b rt = (Inr (Reply e), rt')"
  shows "(\<exists>e'. fst (get_memory env' (me_address e) (runtime_after icfg rt' qs')) = Inr (Reply e')) \<and>
    fst (get_memory env' (me_address e) rt') = Inr (Reply (e\<lparr>me_accessedAt := env_clock env' 0 0\<rparr>)) \<and>
    (toLowerCase h \<noteq> h \<and> is_address h \<longrightarrow> fst (get_memory env' h (runtime_after icfg rt' qs')) =
      bindE (dagGet (env_dag env' 0) cfg h)
        (\<lambda>found. Inr (case found of None \<Rightarrow> Refused 404 ''Memory not found'' | Some e \<Rightarrow> Reply e)))"
proof -
  have ok: "rt_ok rt" unfolding assms(3) by (rule rt_ok_after)
  have cfg: "ms_config (rt_memory rt) = cfg" unfolding assms(3) by (rule runtime_config)
  obtain g c ms reqs where st: "store (env_noble env) (env_dag env 0) (rt_memory rt) g c None (env_clock env 0 0) = (Inr e, ms, reqs)"
    and rt': "rt' = rt\<lparr>rt_memory := ms\<rparr>"
    using assms(4) by (auto simp: post_memory_store_def with_memory_def split: sum.splits prod.splits)
  obtain a where a: "derive (env_noble env) g (Str c) = Inr a" "e = made_entry a g c None (env_clock env 0 0)"
    "ms = rt_memory rt\<lparr>ms_cache := book_put a e (ms_cache (rt_memory rt))\<rparr>"
    using store_success [OF assms(1) st] assms(2) cfg by auto
  have "step_ok (rt_memory rt) ms" using step_ok_store [OF rt_ok_memory [OF ok]] st by (metis fst_conv snd_conv)
  then have ok': "rt_ok rt'" "ms_config ms = cfg" using ok cfg by (auto simp: rt' rt_ok_def step_ok_def)
  let ?rt = "runtime_after icfg rt' qs'"
  have "rt_later rt' ?rt" by (rule rt_later_after [OF ok'(1)])
  then have l: "rt_ok ?rt" "step_ok ms (rt_memory ?rt)" by (simp_all add: rt_later_def rt')
  have c: "ms_config (rt_memory ?rt) = cfg" using l(2) ok'(2) by (simp add: step_ok_def)
  have "book_get (ms_cache ms) a \<noteq> None" by (simp add: a(3) get_put)
  with l(2) have "book_get (ms_cache (rt_memory ?rt)) a \<noteq> None" unfolding step_ok_def by blast
  then obtain v where v: "getByHex (ms_cache (rt_memory ?rt)) (toHex a) = Some v" by (auto simp: getByHex_toHex)
  have "is_address (toHex a)"
    using derive_bytes [OF assms(1), of g "Str c"] a(1) by (intro is_address_toHex) (auto simp: hash_simps assms(1))
  then have 0: "fst (get_memory env' (me_address e) rt') = Inr (Reply (e\<lparr>me_accessedAt := env_clock env' 0 0\<rparr>))"
    using assms(2) ok'(2) by (simp add: get_memory_def with_memory_def getMemory_def a(2,3) made_entry_def rt'
        getByHex_toHex get_put cfg)
  from v c assms(2) \<open>is_address (toHex a)\<close> have 1: "\<exists>e'. fst (get_memory env' (me_address e) ?rt) = Inr (Reply e')"
    by (simp add: get_memory_def with_memory_def getMemory_def a(2) made_entry_def)
  have 2: "fst (get_memory env' h ?rt) = bindE (dagGet (env_dag env' 0) cfg h)
        (\<lambda>found. Inr (case found of None \<Rightarrow> Refused 404 ''Memory not found'' | Some e \<Rightarrow> Reply e))"
    if "toLowerCase h \<noteq> h" "is_address h"
    using that cache_miss_upper [OF rt_ok_memory [OF l(1)] that(1)] c
    by (simp add: get_memory_def with_memory_def getMemory_def)
  from 0 1 2 show ?thesis by blast
qed

lemma lower_A: "js_lower_char (CHR ''A'') = CHR ''a''"
  by code_simp

lemma memory_by_address_witness:
  "\<exists>e rt'. post_memory_store (sample_env sample_dag)
       (Some (JObj [(''grammar'', JObj [(''domain'', JStr ''goal'')]), (''content'', JStr ''brew tea'')]))
       (runtime_after (demo_config ''openai'') (runtime_start DEFAULT_CONFIG True) []) = (Inr (Reply e), rt') \<and>
     fst (get_memory (sample_env (\<lambda>req. Inl ''offline'')) (me_address e) rt') = Inr (Reply (e\<lparr>me_accessedAt := 0\<rparr>)) \<and>
     fst (get_memory (sample_env (\<lambda>req. Inl ''offline'')) (replicate 64 (CHR ''A'')) rt') = Inl ''offline''"
proof -
  let ?b = "Some (JObj [(''grammar'', JObj [(''domain'', JStr ''goal'')]), (''content'', JStr ''brew tea'')])"
  let ?g = "\<lparr>g_domain = Some (One ''goal''), g_entity = None, g_relation = None, g_temporal = None, g_qualifier = None\<rparr>"
  define rt where "rt = runtime_after (demo_config ''openai'') (runtime_start DEFAULT_CONFIG True) []"
  let ?off = "sample_env (\<lambda>req. Inl ''offline'')"
  have s: "StoreMemorySchema ?b = Inr (?g, ''brew tea'')" by (simp add: StoreMemorySchema_def GrammarSchema_def)
  obtain a where "derive demo_noble ?g (Str ''brew tea'') = Inr a" using derive_bytes [OF noble_ok_demo] by blast
  then have "\<exists>e rt'. post_memory_store (sample_env sample_dag) ?b rt = (Inr (Reply e), rt')"
    by (simp add: post_memory_store_def s with_memory_def sample_env_def store_def dagPut_def sample_dag_def Let_def)
  then obtain e rt' where p: "post_memory_store (sample_env sample_dag) ?b rt = (Inr (Reply e), rt')" by blast
  have n: "noble_ok (env_noble (sample_env sample_dag))" "localCache DEFAULT_CONFIG"
    by (simp_all add: sample_env_def DEFAULT_CONFIG_def)
  have h: "toLowerCase (replicate 64 (CHR ''A'')) \<noteq> replicate 64 (CHR ''A'')" "is_address (replicate 64 (CHR ''A''))"
    by (simp_all add: toLowerCase_def is_address_def list_all_iff lower_A is_hex_char_def)
  from memory_by_address [OF n rt_def p, where env' = ?off and h = "replicate 64 (CHR ''A'')" and qs' = "[]"] h
  have "fst (get_memory ?off (me_address e) rt') = Inr (Reply (e\<lparr>me_accessedAt := 0\<rparr>))"
    "fst (get_memory ?off (replicate 64 (CHR ''A'')) rt') = Inl ''offline''"
    by (simp_all add: runtime_after_def sample_env_def dagGet_def)
  with p show ?thesis unfolding rt_def by blast
qed

text \<open>The request's model and temperature are checked but reach neither the agent nor the client.\<close>

lemma model_and_temperature_ignored:
  assumes "CreateAgentSchema (Some (JObj ps)) = Inr b"
    and "CreateAgentSchema (Some (JObj ((''model'', JStr m) # (''temperature'', JNum t) # ps))) = Inr b'"
  shows "snd (post_agents icfg (Some (JObj ((''model'', JStr m) # (''temperature'', JNum t) # ps))) rt) =
    snd (post_agents icfg (Some (JObj ps)) rt)"
  using assms by (auto simp: post_agents_def CreateAgentSchema_def body_config_def)

end
