(* ===== verification/Tokens.thy ===== *)
theory Tokens
  imports Complex_Main "HOL-Library.AList"
begin

text \<open>
  \<^verbatim>\<open>packages/proto/src/tokens.ts\<close>: the five tokens, coherence profiles, epoch binding curves and the
  effective balance.  Token amounts are real numbers; the code's doubles round, the model does not.
\<close>

subsection \<open>Definitions\<close>

datatype token_kind = Compute | Memory | Sync | Routing | Residue

record coherence_profile =
  computeCoeff :: real
  memoryCoeff :: real
  syncCoeff :: real
  routingCoeff :: real
  residueCoeff :: real

text \<open>The range the schema accepts, \<open>z.number().min(0).max(2)\<close> for each coefficient.\<close>

definition valid_profile :: "coherence_profile \<Rightarrow> bool" where
  "valid_profile p \<longleftrightarrow> 0 \<le> computeCoeff p \<and> computeCoeff p \<le> 2 \<and> 0 \<le> memoryCoeff p \<and> memoryCoeff p \<le> 2 \<and>
     0 \<le> syncCoeff p \<and> syncCoeff p \<le> 2 \<and> 0 \<le> routingCoeff p \<and> routingCoeff p \<le> 2 \<and>
     0 \<le> residueCoeff p \<and> residueCoeff p \<le> 2"

record binding_curve =
  decayRate :: real
  curve_floor :: real

definition valid_curve :: "binding_curve \<Rightarrow> bool" where
  "valid_curve c \<longleftrightarrow> 0 \<le> decayRate c \<and> decayRate c \<le> 1 \<and> 0 \<le> curve_floor c \<and> curve_floor c \<le> 1"

record token_balance =
  tb_compute :: real
  tb_memory :: real
  tb_sync :: real
  tb_routing :: real
  tb_residue :: real

definition valid_balance :: "token_balance \<Rightarrow> bool" where
  "valid_balance b \<longleftrightarrow> 0 \<le> tb_compute b \<and> 0 \<le> tb_memory b \<and> 0 \<le> tb_sync b \<and> 0 \<le> tb_routing b \<and> 0 \<le> tb_residue b"

definition DEFAULT_BALANCE :: token_balance where
  "DEFAULT_BALANCE = \<lparr>tb_compute = 1000, tb_memory = 1000, tb_sync = 1000, tb_routing = 1000, tb_residue = 0\<rparr>"

definition decay :: "binding_curve \<Rightarrow> real \<Rightarrow> real" where
  "decay c delta = max (curve_floor c) (exp (- decayRate c * max 0 delta))"

definition effectiveBalance ::
  "token_balance \<Rightarrow> coherence_profile \<Rightarrow> binding_curve \<Rightarrow> real \<Rightarrow> token_balance" where
  "effectiveBalance raw cpv curve delta =
     (let d = decay curve delta in
      \<lparr>tb_compute = tb_compute raw * computeCoeff cpv * d,
       tb_memory = tb_memory raw * memoryCoeff cpv * d,
       tb_sync = tb_sync raw * syncCoeff cpv * d,
       tb_routing = tb_routing raw * routingCoeff cpv * d,
       tb_residue = tb_residue raw * residueCoeff cpv\<rparr>)"

text \<open>The amount of each kind, for statements about all of them.\<close>

fun amount :: "token_kind \<Rightarrow> token_balance \<Rightarrow> real" where
  "amount Compute b = tb_compute b"
| "amount Memory b = tb_memory b"
| "amount Sync b = tb_sync b"
| "amount Routing b = tb_routing b"
| "amount Residue b = tb_residue b"

fun coeff :: "token_kind \<Rightarrow> coherence_profile \<Rightarrow> real" where
  "coeff Compute p = computeCoeff p"
| "coeff Memory p = memoryCoeff p"
| "coeff Sync p = syncCoeff p"
| "coeff Routing p = routingCoeff p"
| "coeff Residue p = residueCoeff p"

subsection \<open>Properties\<close>

lemma decay_bounds:
  assumes "valid_curve c"
  shows "curve_floor c \<le> decay c d \<and> 0 < decay c d \<and> decay c d \<le> 1"
proof -
  have "exp (- decayRate c * max 0 d) \<le> 1"
    using assms by (simp add: valid_curve_def mult_nonneg_nonneg)
  with assms show ?thesis
    by (auto simp: decay_def valid_curve_def less_max_iff_disj)
qed

lemma decay_antimono:
  assumes "valid_curve c" "d \<le> e"
  shows "decay c e \<le> decay c d"
proof -
  have "decayRate c * max 0 d \<le> decayRate c * max 0 e"
    using assms by (intro mult_left_mono) (auto simp: valid_curve_def)
  then have "exp (- decayRate c * max 0 e) \<le> exp (- decayRate c * max 0 d)" by simp
  then show ?thesis unfolding decay_def by (rule max.mono [OF order_refl])
qed

lemma decay_fresh: "valid_curve c \<Longrightarrow> d \<le> 0 \<Longrightarrow> decay c d = 1"
  by (auto simp: decay_def valid_curve_def)

lemma decay_floor:
  assumes "0 < curve_floor c" "0 < decayRate c" "ln (1 / curve_floor c) / decayRate c \<le> d"
    and "valid_curve c"
  shows "decay c d = curve_floor c"
proof -
  have "1 \<le> 1 / curve_floor c" using assms(1,4) by (simp add: valid_curve_def)
  then have "0 \<le> ln (1 / curve_floor c)" by simp
  then have "0 \<le> d" using assms(2,3) by (meson divide_nonneg_pos order_trans)
  have "ln (1 / curve_floor c) \<le> decayRate c * d"
    using assms(2,3) by (simp add: field_simps)
  then have "- decayRate c * d \<le> ln (curve_floor c)"
    using assms(1) by (simp add: ln_div)
  then have "exp (- decayRate c * d) \<le> curve_floor c"
    using assms(1) by (metis exp_le_cancel_iff exp_ln)
  with \<open>0 \<le> d\<close> show ?thesis by (simp add: decay_def max_def)
qed

lemma amount_effective:
  "amount k (effectiveBalance raw cpv curve d) =
     amount k raw * coeff k cpv * (if k = Residue then 1 else decay curve d)"
  by (cases k) (simp_all add: effectiveBalance_def Let_def)

lemma valid_amount: "valid_balance b \<Longrightarrow> 0 \<le> amount k b"
  by (cases k) (simp_all add: valid_balance_def)

lemma valid_coeff: "valid_profile p \<Longrightarrow> 0 \<le> coeff k p \<and> coeff k p \<le> 2"
  by (cases k) (simp_all add: valid_profile_def)

text \<open>The effective balance of every token stays between the floor and the nominal amount: at least
  \<open>floor\<close> and at most 1 times the raw balance scaled by its coefficient, so never negative and never more
  than twice the raw balance; the residue token does not decay at all.\<close>

lemma effective_balance_bounds:
  assumes "valid_balance raw" "valid_profile cpv" "valid_curve curve"
  shows "curve_floor curve * (amount k raw * coeff k cpv) \<le> amount k (effectiveBalance raw cpv curve d) \<and>
    amount k (effectiveBalance raw cpv curve d) \<le> amount k raw * coeff k cpv \<and>
    0 \<le> amount k (effectiveBalance raw cpv curve d) \<and>
    amount k (effectiveBalance raw cpv curve d) \<le> 2 * amount k raw \<and>
    tb_residue (effectiveBalance raw cpv curve d) = tb_residue raw * residueCoeff cpv"
proof -
  let ?n = "amount k raw * coeff k cpv" and ?d = "if k = Residue then 1 else decay curve d"
  have n: "0 \<le> ?n" "?n \<le> 2 * amount k raw"
    using valid_amount [OF assms(1), of k] valid_coeff [OF assms(2), of k]
    by (simp_all add: mult_left_mono mult.commute [of 2])
  have d: "curve_floor curve \<le> ?d" "0 \<le> ?d" "?d \<le> 1"
    using decay_bounds [OF assms(3), of d] assms(3) by (auto simp: valid_curve_def)
  have "curve_floor curve * ?n \<le> ?n * ?d"
    using mult_right_mono [OF d(1) n(1)] by (simp only: mult.commute [of ?n ?d])
  moreover have "?n * ?d \<le> ?n" using d n by (simp add: mult_left_le)
  moreover have "0 \<le> ?n * ?d" using d n by simp
  ultimately show ?thesis
    using n(2) unfolding amount_effective by (simp add: effectiveBalance_def Let_def)
qed

lemma effective_balance_bounds_witness:
  "tb_memory (effectiveBalance DEFAULT_BALANCE \<lparr>computeCoeff = 1, memoryCoeff = 2, syncCoeff = 1, routingCoeff = 1, residueCoeff = 1\<rparr>
      \<lparr>decayRate = 0.05, curve_floor = 0.25\<rparr> 40) \<ge> 500"
  using effective_balance_bounds [of DEFAULT_BALANCE
      "\<lparr>computeCoeff = 1, memoryCoeff = 2, syncCoeff = 1, routingCoeff = 1, residueCoeff = 1\<rparr>"
      "\<lparr>decayRate = 0.05, curve_floor = 0.25\<rparr>" Memory 40]
  by (simp add: valid_balance_def valid_profile_def valid_curve_def DEFAULT_BALANCE_def)

text \<open>Balances only decay: a later epoch never has more of any token than an earlier one; nothing has
  decayed at or before issuance; and from epoch distance \<open>ln (1/floor) / decayRate\<close> on, the decaying
  tokens are exactly at the floor.\<close>

lemma effective_balance_decays:
  assumes "valid_balance raw" "valid_profile cpv" "valid_curve curve" "d \<le> e"
  shows "amount k (effectiveBalance raw cpv curve e) \<le> amount k (effectiveBalance raw cpv curve d) \<and>
    (d \<le> 0 \<longrightarrow> amount k (effectiveBalance raw cpv curve d) = amount k raw * coeff k cpv) \<and>
    (k \<noteq> Residue \<and> 0 < curve_floor curve \<and> 0 < decayRate curve \<and>
       ln (1 / curve_floor curve) / decayRate curve \<le> d \<longrightarrow>
     amount k (effectiveBalance raw cpv curve d) = amount k raw * coeff k cpv * curve_floor curve)"
proof -
  have n: "0 \<le> amount k raw * coeff k cpv"
    using valid_amount [OF assms(1), of k] valid_coeff [OF assms(2), of k] by simp
  then have "amount k raw * coeff k cpv * decay curve e \<le> amount k raw * coeff k cpv * decay curve d"
    using decay_antimono [OF assms(3,4)] by (rule mult_left_mono [rotated])
  then show ?thesis
    using assms(3) by (auto simp: amount_effective decay_fresh decay_floor)
qed

lemma effective_balance_decays_witness:
  "tb_sync (effectiveBalance DEFAULT_BALANCE \<lparr>computeCoeff = 1, memoryCoeff = 2, syncCoeff = 1, routingCoeff = 1, residueCoeff = 1\<rparr>
      \<lparr>decayRate = 0.05, curve_floor = 0.25\<rparr> 9) \<le> 1000"
  using effective_balance_decays [of DEFAULT_BALANCE
      "\<lparr>computeCoeff = 1, memoryCoeff = 2, syncCoeff = 1, routingCoeff = 1, residueCoeff = 1\<rparr>"
      "\<lparr>decayRate = 0.05, curve_floor = 0.25\<rparr>" 0 9 Sync]
  by (simp add: valid_balance_def valid_profile_def valid_curve_def DEFAULT_BALANCE_def)

subsection \<open>Allocation slices\<close>

text \<open>
  A sleeve's \<open>tokens\<close> column is a JSON object that may lack a kind: an association list, read as
  \<open>tokens.k ?? 0\<close> and overwritten as \<open>{ ...tokens, k: v }\<close>.
\<close>

type_synonym tokens = "(token_kind \<times> real) list"

definition tok :: "tokens \<Rightarrow> token_kind \<Rightarrow> real" where
  "tok t k = (case map_of t k of None \<Rightarrow> 0 | Some v \<Rightarrow> v)"

definition set_tok :: "token_kind \<Rightarrow> real \<Rightarrow> tokens \<Rightarrow> tokens" where
  "set_tok k v t = AList.update k v t"

lemma tok_set_tok [simp]: "tok (set_tok k v t) k' = (if k' = k then v else tok t k')"
  by (simp add: tok_def set_tok_def update_conv')

lemma tok_Nil [simp]: "tok [] k = 0"
  by (simp add: tok_def)

lemma tok_Cons [simp]: "tok ((k', v) # t) k = (if k' = k then v else tok t k)"
  by (simp add: tok_def)

definition tokens_ok :: "tokens \<Rightarrow> bool" where
  "tokens_ok t \<longleftrightarrow> (\<forall>k. 0 \<le> tok t k)"

lemma tokens_okD: "tokens_ok t \<Longrightarrow> 0 \<le> tok t k"
  by (simp add: tokens_ok_def)

lemma tokens_ok_set: "tokens_ok t \<Longrightarrow> 0 \<le> v \<Longrightarrow> tokens_ok (set_tok k v t)"
  by (simp add: tokens_ok_def)

end
