(* ===== verification/Service.thy ===== *)
theory Service
  imports Tokens Crypto "HOL-Library.Multiset"
begin

text \<open>
  What every service shares: actions with exceptions over the state of the outside world, the rows of the
  registry (\<^verbatim>\<open>packages/db/prisma/schema.prisma\<close>), the messages of the bus and of the hippocampus client
  (\<^verbatim>\<open>packages/chain/src/hippocampus.ts\<close>), and the outside world itself.

  The database behind the Prisma client, the NATS server behind the bus and the hippocampus node are not
  part of the modelled code.  They are one parameter \<open>ext\<close>, the record of the calls the services make of them over an
  arbitrary state type; \<open>ext_ok\<close> is what their documentation promises: a call either fails and changes
  nothing that can be seen, or has exactly its documented effect.  Any call may fail at any time.
\<close>

subsection \<open>Actions\<close>

type_synonym ('s, 'a) act = "'s \<Rightarrow> 'a result \<times> 's"

definition ret :: "'a \<Rightarrow> ('s, 'a) act" where
  "ret x s = (Inr x, s)"

definition throwA :: "string \<Rightarrow> ('s, 'a) act" where
  "throwA e s = (Inl e, s)"

definition bindA :: "('s, 'a) act \<Rightarrow> ('a \<Rightarrow> ('s, 'b) act) \<Rightarrow> ('s, 'b) act" where
  "bindA m f s = (case m s of (Inl e, s') \<Rightarrow> (Inl e, s') | (Inr x, s') \<Rightarrow> f x s')"

text \<open>\<open>try { ... } catch (e) { ... }\<close>, and \<open>.catch(() => {})\<close>.\<close>

definition tryA :: "('s, 'a) act \<Rightarrow> (string \<Rightarrow> ('s, 'a) act) \<Rightarrow> ('s, 'a) act" where
  "tryA m h s = (case m s of (Inl e, s') \<Rightarrow> h e s' | (Inr x, s') \<Rightarrow> (Inr x, s'))"

definition ignoreA :: "('s, 'a) act \<Rightarrow> ('s, unit) act" where
  "ignoreA m s = (Inr (), snd (m s))"

fun forA :: "('x \<Rightarrow> ('s, unit) act) \<Rightarrow> 'x list \<Rightarrow> ('s, unit) act" where
  "forA f [] = ret ()"
| "forA f (x # xs) = bindA (f x) (\<lambda>_. forA f xs)"

lemma ret_run [svc_simps]: "ret x s = (Inr x, s)"
  and throw_run [svc_simps]: "throwA e s = (Inl e, s)"
  by (simp_all add: ret_def throwA_def)

lemma bind_run: "m s = (r, s') \<Longrightarrow> bindA m f s = (case r of Inl e \<Rightarrow> (Inl e, s') | Inr x \<Rightarrow> f x s')"
  by (simp add: bindA_def split: sum.splits)

lemma bind_Inr [svc_simps]: "m s = (Inr x, s') \<Longrightarrow> bindA m f s = f x s'"
  and bind_Inl [svc_simps]: "m s = (Inl e, s') \<Longrightarrow> bindA m f s = (Inl e, s')"
  by (simp_all add: bindA_def)

subsection \<open>Registry rows\<close>

record stack =
  st_id :: string
  st_tokenId :: nat
  st_name :: string
  st_kind :: string
  st_pubKey :: string
  st_epoch :: nat
  st_cpv :: coherence_profile
  st_binding :: binding_curve
  st_episodicHead :: "string option"

record sleeve =
  sl_id :: string
  sl_stackId :: string
  sl_embodimentType :: string
  sl_alive :: bool
  sl_drift :: real
  sl_syncEpoch :: nat
  sl_lastSync :: nat
  sl_tokens :: tokens
  sl_hostname :: "string option"

datatype audit_detail = Issuance token_balance | Consumption tokens

record audit =
  au_stackId :: string
  au_epoch :: nat
  au_action :: string
  au_detail :: audit_detail

record residue =
  re_id :: string
  re_kind :: string
  re_stackId :: string
  re_sleeveId :: string
  re_status :: string
  re_payoutEst :: real

record epoch_row =
  ep_number :: nat
  ep_crossRoot :: string
  ep_evmRoot :: string
  ep_ipfsRoot :: string
  ep_sleevesRoot :: string
  ep_medullaHeight :: nat
  ep_anchorBlockHash :: "string option"

subsection \<open>Bus messages and hippocampus calls\<close>

text \<open>The events the services publish, without their time stamps.\<close>

datatype event =
    StackCreated string string string nat string
  | SleeveSpawned string string string
  | SleeveDecommissioned string string
  | SleevePerceive string string string real
  | MemoryRecall string string real nat nat
  | NeedlecastRoute string string string string "string list" string
  | EpochTransition nat string
  | SleeveDrift string string real
  | SleeveDesync string string real
  | ResidueDetected string string string

record hippo_put_input =
  hp_stackId :: string
  hp_epoch :: nat
  hp_ciphertext :: enc_payload
  hp_links :: "string list"
  hp_kind :: string
  hp_pinned :: bool

record hippo_node =
  hn_cid :: string
  hn_ciphertext :: enc_payload
  hn_links :: "string list"
  hn_epoch :: nat
  hn_kind :: string
  hn_pinned :: bool
  hn_stackId :: string

record hippo_recall_args =
  ha_rootCid :: string
  ha_stackId :: string
  ha_epoch :: nat
  ha_depth :: nat
  ha_memoryToken :: real

text \<open>The node is written in Go and sends an empty slice that was never appended to as \<open>null\<close>.\<close>

record hippo_recall_reply =
  hr_fragments :: "hippo_node list option"
  hr_broken :: "string list option"
  hr_fidelity :: real

subsection \<open>The outside world\<close>

text \<open>What can be seen of the world: the rows of the tables and the published events, oldest first.\<close>

record view =
  vw_stacks :: "(string \<times> stack) list"
  vw_sleeves :: "(string \<times> sleeve) list"
  vw_audit :: "audit list"
  vw_residues :: "(string \<times> residue) list"
  vw_epochs :: "(nat \<times> epoch_row) list"
  vw_events :: "event list"

record 's ext =
  x_view :: "'s \<Rightarrow> view"
  x_stack_find :: "string \<Rightarrow> ('s, stack option) act"
  x_stacks :: "('s, stack list) act"
  x_stack_count :: "('s, nat) act"
  x_stack_create :: "stack \<Rightarrow> ('s, unit) act"
  x_stack_update :: "string \<Rightarrow> (stack \<Rightarrow> stack) \<Rightarrow> ('s, unit) act"
  x_sleeve_find :: "string \<Rightarrow> ('s, sleeve option) act"
  x_sleeves_where :: "(sleeve \<Rightarrow> bool) \<Rightarrow> ('s, sleeve list) act"
  x_sleeve_create :: "sleeve \<Rightarrow> ('s, unit) act"
  x_sleeve_update :: "string \<Rightarrow> (sleeve \<Rightarrow> sleeve) \<Rightarrow> ('s, sleeve) act"
  x_transaction :: "string \<Rightarrow> (stack \<Rightarrow> stack) \<Rightarrow> string \<Rightarrow> (sleeve \<Rightarrow> sleeve) \<Rightarrow> ('s, unit) act"
  x_audit_create :: "audit \<Rightarrow> ('s, unit) act"
  x_audits_where :: "(audit \<Rightarrow> bool) \<Rightarrow> ('s, audit list) act"
  x_residue_create :: "residue \<Rightarrow> ('s, unit) act"
  x_epoch_upsert :: "epoch_row \<Rightarrow> ('s, unit) act"
  x_publish :: "event \<Rightarrow> ('s, unit) act"
  x_hippo_put :: "hippo_put_input \<Rightarrow> ('s, string) act"
  x_hippo_recall :: "hippo_recall_args \<Rightarrow> ('s, hippo_recall_reply) act"
  x_hippo_pin :: "string \<Rightarrow> ('s, unit) act"

definition effect :: "'s ext \<Rightarrow> ('s, 'a) act \<Rightarrow> ('a \<Rightarrow> view \<Rightarrow> view \<Rightarrow> bool) \<Rightarrow> bool" where
  "effect X m R \<longleftrightarrow> (\<forall>s. case m s of
     (Inl e, s') \<Rightarrow> x_view X s' = x_view X s
   | (Inr r, s') \<Rightarrow> R r (x_view X s) (x_view X s'))"

definition update_row :: "string \<Rightarrow> ('r \<Rightarrow> 'r) \<Rightarrow> (string \<times> 'r) list \<Rightarrow> (string \<times> 'r) list" where
  "update_row k f rows = map (\<lambda>(k', r). if k' = k then (k', f r) else (k', r)) rows"

text \<open>
  The documented effects: reads change nothing (\<open>findMany\<close> in no particular order), \<open>create\<close> fails on a
  taken key, \<open>update\<close> fails on a missing one, a transaction does both updates or none, \<open>upsert\<close> with an
  empty update only creates, publishing appends.
\<close>

definition ext_ok :: "'s ext \<Rightarrow> bool" where
  "ext_ok X \<longleftrightarrow>
     (\<forall>k. effect X (x_stack_find X k) (\<lambda>r v v'. v' = v \<and> r = map_of (vw_stacks v) k)) \<and>
     effect X (x_stacks X) (\<lambda>r v v'. v' = v \<and> mset r = mset (map snd (vw_stacks v))) \<and>
     effect X (x_stack_count X) (\<lambda>r v v'. v' = v \<and> r = length (vw_stacks v)) \<and>
     (\<forall>row. effect X (x_stack_create X row) (\<lambda>r v v'. map_of (vw_stacks v) (st_id row) = None \<and>
        v' = v\<lparr>vw_stacks := vw_stacks v @ [(st_id row, row)]\<rparr>)) \<and>
     (\<forall>k f. effect X (x_stack_update X k f) (\<lambda>r v v'. map_of (vw_stacks v) k \<noteq> None \<and>
        v' = v\<lparr>vw_stacks := update_row k f (vw_stacks v)\<rparr>)) \<and>
     (\<forall>k. effect X (x_sleeve_find X k) (\<lambda>r v v'. v' = v \<and> r = map_of (vw_sleeves v) k)) \<and>
     (\<forall>p. effect X (x_sleeves_where X p) (\<lambda>r v v'. v' = v \<and> mset r = mset (filter p (map snd (vw_sleeves v))))) \<and>
     (\<forall>row. effect X (x_sleeve_create X row) (\<lambda>r v v'. map_of (vw_sleeves v) (sl_id row) = None \<and>
        v' = v\<lparr>vw_sleeves := vw_sleeves v @ [(sl_id row, row)]\<rparr>)) \<and>
     (\<forall>k f. effect X (x_sleeve_update X k f) (\<lambda>r v v'. (\<exists>old. map_of (vw_sleeves v) k = Some old \<and> r = f old) \<and>
        v' = v\<lparr>vw_sleeves := update_row k f (vw_sleeves v)\<rparr>)) \<and>
     (\<forall>k f k' f'. effect X (x_transaction X k f k' f') (\<lambda>r v v'.
        map_of (vw_stacks v) k \<noteq> None \<and> map_of (vw_sleeves v) k' \<noteq> None \<and>
        v' = v\<lparr>vw_stacks := update_row k f (vw_stacks v), vw_sleeves := update_row k' f' (vw_sleeves v)\<rparr>)) \<and>
     (\<forall>row. effect X (x_audit_create X row) (\<lambda>r v v'. v' = v\<lparr>vw_audit := vw_audit v @ [row]\<rparr>)) \<and>
     (\<forall>p. effect X (x_audits_where X p) (\<lambda>r v v'. v' = v \<and> mset r = mset (filter p (vw_audit v)))) \<and>
     (\<forall>row. effect X (x_residue_create X row) (\<lambda>r v v'. map_of (vw_residues v) (re_id row) = None \<and>
        v' = v\<lparr>vw_residues := vw_residues v @ [(re_id row, row)]\<rparr>)) \<and>
     (\<forall>row. effect X (x_epoch_upsert X row) (\<lambda>r v v'. v' = v\<lparr>vw_epochs :=
        (if map_of (vw_epochs v) (ep_number row) = None then vw_epochs v @ [(ep_number row, row)] else vw_epochs v)\<rparr>)) \<and>
     (\<forall>ev. effect X (x_publish X ev) (\<lambda>r v v'. v' = v\<lparr>vw_events := vw_events v @ [ev]\<rparr>)) \<and>
     (\<forall>i. effect X (x_hippo_put X i) (\<lambda>r v v'. v' = v)) \<and>
     (\<forall>a. effect X (x_hippo_recall X a) (\<lambda>r v v'. v' = v)) \<and>
     (\<forall>c. effect X (x_hippo_pin X c) (\<lambda>r v v'. v' = v))"

subsection \<open>Reasoning about actions\<close>

text \<open>
  \<open>safe X m Q E v\<close>: started where the world looks like \<open>v\<close>, the action returns some \<open>r\<close> in a world that
  satisfies \<open>Q r\<close>, or throws in a world that satisfies \<open>E\<close>.
\<close>

definition safe :: "'s ext \<Rightarrow> ('s, 'a) act \<Rightarrow> ('a \<Rightarrow> view \<Rightarrow> bool) \<Rightarrow> (view \<Rightarrow> bool) \<Rightarrow> view \<Rightarrow> bool" where
  "safe X m Q E v \<longleftrightarrow> (\<forall>s. x_view X s = v \<longrightarrow>
     (case m s of (Inl e, s') \<Rightarrow> E (x_view X s') | (Inr r, s') \<Rightarrow> Q r (x_view X s')))"

named_theorems safe_intros \<open>backward rules for actions\<close>

lemma safeD_Inr: "safe X m Q E (x_view X s) \<Longrightarrow> m s = (Inr r, s') \<Longrightarrow> Q r (x_view X s')"
  and safeD_Inl: "safe X m Q E (x_view X s) \<Longrightarrow> m s = (Inl e, s') \<Longrightarrow> E (x_view X s')"
  by (auto simp: safe_def)

lemma safe_ret [safe_intros]: "Q x v \<Longrightarrow> safe X (ret x) Q E v"
  and safe_throw [safe_intros]: "E v \<Longrightarrow> safe X (throwA e) Q E v"
  by (simp_all add: safe_def ret_def throwA_def)

lemma safe_bind [safe_intros]:
  assumes "safe X m (\<lambda>r. safe X (f r) Q E) E v"
  shows "safe X (bindA m f) Q E v"
  using assms by (fastforce simp: safe_def bindA_def split: prod.splits sum.splits)

lemma safe_try [safe_intros]:
  assumes "safe X m Q (\<lambda>v. \<forall>e. safe X (h e) Q E v) v"
  shows "safe X (tryA m h) Q E v"
  using assms by (fastforce simp: safe_def tryA_def split: prod.splits sum.splits)

lemma safe_ignore [safe_intros]: "safe X m (\<lambda>_. Q ()) (Q ()) v \<Longrightarrow> safe X (ignoreA m) Q E v"
  by (auto simp: safe_def ignoreA_def split: prod.splits sum.splits) (metis surj_pair sum.exhaust snd_conv)+

lemma safe_if [safe_intros]:
  "(b \<Longrightarrow> safe X m Q E v) \<Longrightarrow> (\<not> b \<Longrightarrow> safe X m' Q E v) \<Longrightarrow> safe X (if b then m else m') Q E v"
  by simp

lemma safe_option [safe_intros]:
  "(x = None \<Longrightarrow> safe X m Q E v) \<Longrightarrow> (\<And>y. x = Some y \<Longrightarrow> safe X (f y) Q E v) \<Longrightarrow>
   safe X (case x of None \<Rightarrow> m | Some y \<Rightarrow> f y) Q E v"
  by (cases x) simp_all

lemma safe_list [safe_intros]:
  "(xs = [] \<Longrightarrow> safe X m Q E v) \<Longrightarrow> (\<And>y ys. xs = y # ys \<Longrightarrow> safe X (f y ys) Q E v) \<Longrightarrow>
   safe X (case xs of [] \<Rightarrow> m | y # ys \<Rightarrow> f y ys) Q E v"
  by (cases xs) simp_all

lemma safe_conseq:
  assumes "safe X m Q E v" "\<And>r v. Q r v \<Longrightarrow> Q' r v" "\<And>v. E v \<Longrightarrow> E' v"
  shows "safe X m Q' E' v"
  unfolding safe_def
proof (intro allI impI)
  fix s assume "x_view X s = v"
  with assms(1) have "case m s of (Inl e, s') \<Rightarrow> E (x_view X s') | (Inr r, s') \<Rightarrow> Q r (x_view X s')"
    by (simp add: safe_def)
  with assms(2,3) show "case m s of (Inl e, s') \<Rightarrow> E' (x_view X s') | (Inr r, s') \<Rightarrow> Q' r (x_view X s')"
    by (cases "m s"; cases "fst (m s)") simp_all
qed

lemma safe_and:
  "safe X m Q E v \<Longrightarrow> safe X m Q' E' v \<Longrightarrow> safe X m (\<lambda>r v. Q r v \<and> Q' r v) (\<lambda>v. E v \<and> E' v) v"
  by (fastforce simp: safe_def split: prod.splits sum.splits)

lemma safe_for:
  assumes "J v" "\<And>x v. x \<in> set xs \<Longrightarrow> J v \<Longrightarrow> safe X (f x) (\<lambda>_. J) E v" "\<And>v. J v \<Longrightarrow> Q () v"
  shows "safe X (forA f xs) Q E v"
  using assms(1,2)
proof (induction xs arbitrary: v)
  case (Cons x xs)
  have "safe X (f x) (\<lambda>_. safe X (forA f xs) Q E) E v"
  proof (rule safe_conseq [OF Cons.prems(2)])
    show "safe X (forA f xs) Q E v'" if "J v'" for v'
      using that Cons.prems(2) by (intro Cons.IH) auto
  qed (use Cons.prems in auto)
  then show ?case by (simp add: safe_bind)
qed (simp add: assms(3) safe_ret)

lemma effect_safe:
  "effect X m R \<Longrightarrow> E v \<Longrightarrow> (\<And>r v'. R r v v' \<Longrightarrow> Q r v') \<Longrightarrow> safe X m Q E v"
  by (auto simp: effect_def safe_def split: prod.splits sum.splits) (metis case_prod_conv sum.case)+

text \<open>One rule per call of the outside world.\<close>

lemma safe_stack_find [safe_intros]:
  assumes "ext_ok X"
  shows "E v \<Longrightarrow> Q (map_of (vw_stacks v) k) v \<Longrightarrow>
    safe X (x_stack_find X k) Q E v"
proof -
  have "effect X (x_stack_find X k)
      (\<lambda>r v v'. v' = v \<and> r = map_of (vw_stacks v) k)"
    using assms by (simp add: ext_ok_def)
  then show "E v \<Longrightarrow> Q (map_of (vw_stacks v) k) v \<Longrightarrow>
      safe X (x_stack_find X k) Q E v"
    by (rule effect_safe) auto
qed

lemma safe_stacks [safe_intros]:
  assumes "ext_ok X"
  shows "E v \<Longrightarrow> (\<And>r. mset r = mset (map snd (vw_stacks v)) \<Longrightarrow> Q r v) \<Longrightarrow>
    safe X (x_stacks X) Q E v"
proof -
  have "effect X (x_stacks X)
      (\<lambda>r v v'. v' = v \<and> mset r = mset (map snd (vw_stacks v)))"
    using assms by (simp add: ext_ok_def)
  then show "E v \<Longrightarrow> (\<And>r. mset r = mset (map snd (vw_stacks v)) \<Longrightarrow> Q r v) \<Longrightarrow>
      safe X (x_stacks X) Q E v"
    by (rule effect_safe) auto
qed

lemma safe_stack_count [safe_intros]:
  assumes "ext_ok X"
  shows "E v \<Longrightarrow> Q (length (vw_stacks v)) v \<Longrightarrow>
    safe X (x_stack_count X) Q E v"
proof -
  have "effect X (x_stack_count X)
      (\<lambda>r v v'. v' = v \<and> r = length (vw_stacks v))"
    using assms by (simp add: ext_ok_def)
  then show "E v \<Longrightarrow> Q (length (vw_stacks v)) v \<Longrightarrow>
      safe X (x_stack_count X) Q E v"
    by (rule effect_safe) auto
qed

lemma safe_stack_create [safe_intros]:
  assumes "ext_ok X"
  shows "E v \<Longrightarrow> (map_of (vw_stacks v) (st_id row) = None \<Longrightarrow> Q () (v\<lparr>vw_stacks := vw_stacks v @ [(st_id row, row)]\<rparr>)) \<Longrightarrow>
    safe X (x_stack_create X row) Q E v"
proof -
  have "effect X (x_stack_create X row)
      (\<lambda>r v v'. map_of (vw_stacks v) (st_id row) = None \<and> v' = v\<lparr>vw_stacks := vw_stacks v @ [(st_id row, row)]\<rparr>)"
    using assms by (simp add: ext_ok_def)
  then show "E v \<Longrightarrow> (map_of (vw_stacks v) (st_id row) = None \<Longrightarrow> Q () (v\<lparr>vw_stacks := vw_stacks v @ [(st_id row, row)]\<rparr>)) \<Longrightarrow>
      safe X (x_stack_create X row) Q E v"
    by (rule effect_safe) auto
qed

lemma safe_stack_update [safe_intros]:
  assumes "ext_ok X"
  shows "E v \<Longrightarrow> (map_of (vw_stacks v) k \<noteq> None \<Longrightarrow> Q () (v\<lparr>vw_stacks := update_row k f (vw_stacks v)\<rparr>)) \<Longrightarrow>
    safe X (x_stack_update X k f) Q E v"
proof -
  have "effect X (x_stack_update X k f)
      (\<lambda>r v v'. map_of (vw_stacks v) k \<noteq> None \<and> v' = v\<lparr>vw_stacks := update_row k f (vw_stacks v)\<rparr>)"
    using assms by (simp add: ext_ok_def)
  then show "E v \<Longrightarrow> (map_of (vw_stacks v) k \<noteq> None \<Longrightarrow> Q () (v\<lparr>vw_stacks := update_row k f (vw_stacks v)\<rparr>)) \<Longrightarrow>
      safe X (x_stack_update X k f) Q E v"
    by (rule effect_safe) auto
qed

lemma safe_sleeve_find [safe_intros]:
  assumes "ext_ok X"
  shows "E v \<Longrightarrow> Q (map_of (vw_sleeves v) k) v \<Longrightarrow>
    safe X (x_sleeve_find X k) Q E v"
proof -
  have "effect X (x_sleeve_find X k)
      (\<lambda>r v v'. v' = v \<and> r = map_of (vw_sleeves v) k)"
    using assms by (simp add: ext_ok_def)
  then show "E v \<Longrightarrow> Q (map_of (vw_sleeves v) k) v \<Longrightarrow>
      safe X (x_sleeve_find X k) Q E v"
    by (rule effect_safe) auto
qed

lemma safe_sleeves_where [safe_intros]:
  assumes "ext_ok X"
  shows "E v \<Longrightarrow> (\<And>r. mset r = mset (filter p (map snd (vw_sleeves v))) \<Longrightarrow> Q r v) \<Longrightarrow>
    safe X (x_sleeves_where X p) Q E v"
proof -
  have "effect X (x_sleeves_where X p)
      (\<lambda>r v v'. v' = v \<and> mset r = mset (filter p (map snd (vw_sleeves v))))"
    using assms by (simp add: ext_ok_def)
  then show "E v \<Longrightarrow> (\<And>r. mset r = mset (filter p (map snd (vw_sleeves v))) \<Longrightarrow> Q r v) \<Longrightarrow>
      safe X (x_sleeves_where X p) Q E v"
    by (rule effect_safe) auto
qed

lemma safe_sleeve_create [safe_intros]:
  assumes "ext_ok X"
  shows "E v \<Longrightarrow> (map_of (vw_sleeves v) (sl_id row) = None \<Longrightarrow> Q () (v\<lparr>vw_sleeves := vw_sleeves v @ [(sl_id row, row)]\<rparr>)) \<Longrightarrow>
    safe X (x_sleeve_create X row) Q E v"
proof -
  have "effect X (x_sleeve_create X row)
      (\<lambda>r v v'. map_of (vw_sleeves v) (sl_id row) = None \<and> v' = v\<lparr>vw_sleeves := vw_sleeves v @ [(sl_id row, row)]\<rparr>)"
    using assms by (simp add: ext_ok_def)
  then show "E v \<Longrightarrow> (map_of (vw_sleeves v) (sl_id row) = None \<Longrightarrow> Q () (v\<lparr>vw_sleeves := vw_sleeves v @ [(sl_id row, row)]\<rparr>)) \<Longrightarrow>
      safe X (x_sleeve_create X row) Q E v"
    by (rule effect_safe) auto
qed

lemma safe_sleeve_update [safe_intros]:
  assumes "ext_ok X"
  shows "E v \<Longrightarrow> (\<And>old. map_of (vw_sleeves v) k = Some old \<Longrightarrow> Q (f old) (v\<lparr>vw_sleeves := update_row k f (vw_sleeves v)\<rparr>)) \<Longrightarrow>
    safe X (x_sleeve_update X k f) Q E v"
proof -
  have "effect X (x_sleeve_update X k f)
      (\<lambda>r v v'. (\<exists>old. map_of (vw_sleeves v) k = Some old \<and> r = f old) \<and> v' = v\<lparr>vw_sleeves := update_row k f (vw_sleeves v)\<rparr>)"
    using assms by (simp add: ext_ok_def)
  then show "E v \<Longrightarrow> (\<And>old. map_of (vw_sleeves v) k = Some old \<Longrightarrow> Q (f old) (v\<lparr>vw_sleeves := update_row k f (vw_sleeves v)\<rparr>)) \<Longrightarrow>
      safe X (x_sleeve_update X k f) Q E v"
    by (rule effect_safe) auto
qed

lemma safe_transaction [safe_intros]:
  assumes "ext_ok X"
  shows "E v \<Longrightarrow> (map_of (vw_stacks v) k \<noteq> None \<Longrightarrow> map_of (vw_sleeves v) k' \<noteq> None \<Longrightarrow> Q () (v\<lparr>vw_stacks := update_row k f (vw_stacks v), vw_sleeves := update_row k' f' (vw_sleeves v)\<rparr>)) \<Longrightarrow>
    safe X (x_transaction X k f k' f') Q E v"
proof -
  have "effect X (x_transaction X k f k' f')
      (\<lambda>r v v'. map_of (vw_stacks v) k \<noteq> None \<and> map_of (vw_sleeves v) k' \<noteq> None \<and> v' = v\<lparr>vw_stacks := update_row k f (vw_stacks v), vw_sleeves := update_row k' f' (vw_sleeves v)\<rparr>)"
    using assms by (simp add: ext_ok_def)
  then show "E v \<Longrightarrow> (map_of (vw_stacks v) k \<noteq> None \<Longrightarrow> map_of (vw_sleeves v) k' \<noteq> None \<Longrightarrow> Q () (v\<lparr>vw_stacks := update_row k f (vw_stacks v), vw_sleeves := update_row k' f' (vw_sleeves v)\<rparr>)) \<Longrightarrow>
      safe X (x_transaction X k f k' f') Q E v"
    by (rule effect_safe) auto
qed

lemma safe_audit_create [safe_intros]:
  assumes "ext_ok X"
  shows "E v \<Longrightarrow> Q () (v\<lparr>vw_audit := vw_audit v @ [row]\<rparr>) \<Longrightarrow>
    safe X (x_audit_create X row) Q E v"
proof -
  have "effect X (x_audit_create X row)
      (\<lambda>r v v'. v' = v\<lparr>vw_audit := vw_audit v @ [row]\<rparr>)"
    using assms by (simp add: ext_ok_def)
  then show "E v \<Longrightarrow> Q () (v\<lparr>vw_audit := vw_audit v @ [row]\<rparr>) \<Longrightarrow>
      safe X (x_audit_create X row) Q E v"
    by (rule effect_safe) auto
qed

lemma safe_audits_where [safe_intros]:
  assumes "ext_ok X"
  shows "E v \<Longrightarrow> (\<And>r. mset r = mset (filter p (vw_audit v)) \<Longrightarrow> Q r v) \<Longrightarrow>
    safe X (x_audits_where X p) Q E v"
proof -
  have "effect X (x_audits_where X p)
      (\<lambda>r v v'. v' = v \<and> mset r = mset (filter p (vw_audit v)))"
    using assms by (simp add: ext_ok_def)
  then show "E v \<Longrightarrow> (\<And>r. mset r = mset (filter p (vw_audit v)) \<Longrightarrow> Q r v) \<Longrightarrow>
      safe X (x_audits_where X p) Q E v"
    by (rule effect_safe) auto
qed

lemma safe_residue_create [safe_intros]:
  assumes "ext_ok X"
  shows "E v \<Longrightarrow> (map_of (vw_residues v) (re_id row) = None \<Longrightarrow> Q () (v\<lparr>vw_residues := vw_residues v @ [(re_id row, row)]\<rparr>)) \<Longrightarrow>
    safe X (x_residue_create X row) Q E v"
proof -
  have "effect X (x_residue_create X row)
      (\<lambda>r v v'. map_of (vw_residues v) (re_id row) = None \<and> v' = v\<lparr>vw_residues := vw_residues v @ [(re_id row, row)]\<rparr>)"
    using assms by (simp add: ext_ok_def)
  then show "E v \<Longrightarrow> (map_of (vw_residues v) (re_id row) = None \<Longrightarrow> Q () (v\<lparr>vw_residues := vw_residues v @ [(re_id row, row)]\<rparr>)) \<Longrightarrow>
      safe X (x_residue_create X row) Q E v"
    by (rule effect_safe) auto
qed

lemma safe_epoch_upsert [safe_intros]:
  assumes "ext_ok X"
  shows "E v \<Longrightarrow> Q () (v\<lparr>vw_epochs := (if map_of (vw_epochs v) (ep_number row) = None then vw_epochs v @ [(ep_number row, row)] else vw_epochs v)\<rparr>) \<Longrightarrow>
    safe X (x_epoch_upsert X row) Q E v"
proof -
  have "effect X (x_epoch_upsert X row)
      (\<lambda>r v v'. v' = v\<lparr>vw_epochs := (if map_of (vw_epochs v) (ep_number row) = None then vw_epochs v @ [(ep_number row, row)] else vw_epochs v)\<rparr>)"
    using assms by (simp add: ext_ok_def)
  then show "E v \<Longrightarrow> Q () (v\<lparr>vw_epochs := (if map_of (vw_epochs v) (ep_number row) = None then vw_epochs v @ [(ep_number row, row)] else vw_epochs v)\<rparr>) \<Longrightarrow>
      safe X (x_epoch_upsert X row) Q E v"
    by (rule effect_safe) auto
qed

lemma safe_publish [safe_intros]:
  assumes "ext_ok X"
  shows "E v \<Longrightarrow> Q () (v\<lparr>vw_events := vw_events v @ [ev]\<rparr>) \<Longrightarrow>
    safe X (x_publish X ev) Q E v"
proof -
  have "effect X (x_publish X ev)
      (\<lambda>r v v'. v' = v\<lparr>vw_events := vw_events v @ [ev]\<rparr>)"
    using assms by (simp add: ext_ok_def)
  then show "E v \<Longrightarrow> Q () (v\<lparr>vw_events := vw_events v @ [ev]\<rparr>) \<Longrightarrow>
      safe X (x_publish X ev) Q E v"
    by (rule effect_safe) auto
qed

lemma safe_hippo_put [safe_intros]:
  assumes "ext_ok X"
  shows "E v \<Longrightarrow> (\<And>r. Q r v) \<Longrightarrow>
    safe X (x_hippo_put X i) Q E v"
proof -
  have "effect X (x_hippo_put X i)
      (\<lambda>r v v'. v' = v)"
    using assms by (simp add: ext_ok_def)
  then show "E v \<Longrightarrow> (\<And>r. Q r v) \<Longrightarrow>
      safe X (x_hippo_put X i) Q E v"
    by (rule effect_safe) auto
qed

lemma safe_hippo_recall [safe_intros]:
  assumes "ext_ok X"
  shows "E v \<Longrightarrow> (\<And>r. Q r v) \<Longrightarrow>
    safe X (x_hippo_recall X a) Q E v"
proof -
  have "effect X (x_hippo_recall X a)
      (\<lambda>r v v'. v' = v)"
    using assms by (simp add: ext_ok_def)
  then show "E v \<Longrightarrow> (\<And>r. Q r v) \<Longrightarrow>
      safe X (x_hippo_recall X a) Q E v"
    by (rule effect_safe) auto
qed

lemma safe_hippo_pin [safe_intros]:
  assumes "ext_ok X"
  shows "E v \<Longrightarrow> Q () v \<Longrightarrow>
    safe X (x_hippo_pin X c) Q E v"
proof -
  have "effect X (x_hippo_pin X c)
      (\<lambda>r v v'. v' = v)"
    using assms by (simp add: ext_ok_def)
  then show "E v \<Longrightarrow> Q () v \<Longrightarrow>
      safe X (x_hippo_pin X c) Q E v"
    by (rule effect_safe) auto
qed

subsection \<open>Rows after an update\<close>

lemma map_of_update_row [simp]:
  "map_of (update_row k f rows) k' = (if k' = k then map_option f (map_of rows k) else map_of rows k')"
  by (induction rows) (auto simp: update_row_def)

lemma keys_update_row [simp]: "map fst (update_row k f rows) = map fst rows"
  by (auto simp: update_row_def)

lemma set_update_row: "(k', r) \<in> set (update_row k f rows) \<Longrightarrow>
  (k', r) \<in> set rows \<or> k' = k \<and> (\<exists>old. (k, old) \<in> set rows \<and> r = f old)"
  by (auto simp: update_row_def split: if_splits)

lemma mset_filter_set: "mset r = mset (filter p xs) \<Longrightarrow> set r = {x \<in> set xs. p x}"
  by (metis mset_eq_setD set_filter)

subsection \<open>A world without faults\<close>

text \<open>
  The tables themselves as the state, where every call that can succeed does and the hippocampus answers
  as it is told to: it has the documented effects, so \<^const>\<open>ext_ok\<close> can hold.
\<close>

definition table_ext ::
  "(hippo_put_input \<Rightarrow> string result) \<Rightarrow> (hippo_recall_args \<Rightarrow> hippo_recall_reply result) \<Rightarrow> view ext" where
  "table_ext put_reply recall_reply = \<lparr>
     x_view = (\<lambda>s. s),
     x_stack_find = (\<lambda>k s. (Inr (map_of (vw_stacks s) k), s)),
     x_stacks = (\<lambda>s. (Inr (map snd (vw_stacks s)), s)),
     x_stack_count = (\<lambda>s. (Inr (length (vw_stacks s)), s)),
     x_stack_create = (\<lambda>row s. if map_of (vw_stacks s) (st_id row) = None
        then (Inr (), s\<lparr>vw_stacks := vw_stacks s @ [(st_id row, row)]\<rparr>) else (Inl ''P2002'', s)),
     x_stack_update = (\<lambda>k f s. if map_of (vw_stacks s) k = None then (Inl ''P2025'', s)
        else (Inr (), s\<lparr>vw_stacks := update_row k f (vw_stacks s)\<rparr>)),
     x_sleeve_find = (\<lambda>k s. (Inr (map_of (vw_sleeves s) k), s)),
     x_sleeves_where = (\<lambda>p s. (Inr (filter p (map snd (vw_sleeves s))), s)),
     x_sleeve_create = (\<lambda>row s. if map_of (vw_sleeves s) (sl_id row) = None
        then (Inr (), s\<lparr>vw_sleeves := vw_sleeves s @ [(sl_id row, row)]\<rparr>) else (Inl ''P2002'', s)),
     x_sleeve_update = (\<lambda>k f s. case map_of (vw_sleeves s) k of None \<Rightarrow> (Inl ''P2025'', s)
        | Some old \<Rightarrow> (Inr (f old), s\<lparr>vw_sleeves := update_row k f (vw_sleeves s)\<rparr>)),
     x_transaction = (\<lambda>k f k' f' s. if map_of (vw_stacks s) k = None \<or> map_of (vw_sleeves s) k' = None
        then (Inl ''P2025'', s)
        else (Inr (), s\<lparr>vw_stacks := update_row k f (vw_stacks s), vw_sleeves := update_row k' f' (vw_sleeves s)\<rparr>)),
     x_audit_create = (\<lambda>row s. (Inr (), s\<lparr>vw_audit := vw_audit s @ [row]\<rparr>)),
     x_audits_where = (\<lambda>p s. (Inr (filter p (vw_audit s)), s)),
     x_residue_create = (\<lambda>row s. if map_of (vw_residues s) (re_id row) = None
        then (Inr (), s\<lparr>vw_residues := vw_residues s @ [(re_id row, row)]\<rparr>) else (Inl ''P2002'', s)),
     x_epoch_upsert = (\<lambda>row s. (Inr (), s\<lparr>vw_epochs := (if map_of (vw_epochs s) (ep_number row) = None
        then vw_epochs s @ [(ep_number row, row)] else vw_epochs s)\<rparr>)),
     x_publish = (\<lambda>ev s. (Inr (), s\<lparr>vw_events := vw_events s @ [ev]\<rparr>)),
     x_hippo_put = (\<lambda>i s. (put_reply i, s)),
     x_hippo_recall = (\<lambda>a s. (recall_reply a, s)),
     x_hippo_pin = (\<lambda>c s. (Inr (), s)) \<rparr>"

text \<open>The calls of this world one by one.\<close>

lemma table_calls:
  "x_view (table_ext put_reply recall_reply) = (\<lambda>s. s)"
  "x_stack_find (table_ext put_reply recall_reply) = (\<lambda>k s. (Inr (map_of (vw_stacks s) k), s))"
  "x_stacks (table_ext put_reply recall_reply) = (\<lambda>s. (Inr (map snd (vw_stacks s)), s))"
  "x_stack_count (table_ext put_reply recall_reply) = (\<lambda>s. (Inr (length (vw_stacks s)), s))"
  "x_stack_create (table_ext put_reply recall_reply) = (\<lambda>row s. if map_of (vw_stacks s) (st_id row) = None then (Inr (), s\<lparr>vw_stacks := vw_stacks s @ [(st_id row, row)]\<rparr>) else (Inl ''P2002'', s))"
  "x_stack_update (table_ext put_reply recall_reply) = (\<lambda>k f s. if map_of (vw_stacks s) k = None then (Inl ''P2025'', s) else (Inr (), s\<lparr>vw_stacks := update_row k f (vw_stacks s)\<rparr>))"
  "x_sleeve_find (table_ext put_reply recall_reply) = (\<lambda>k s. (Inr (map_of (vw_sleeves s) k), s))"
  "x_sleeves_where (table_ext put_reply recall_reply) = (\<lambda>p s. (Inr (filter p (map snd (vw_sleeves s))), s))"
  "x_sleeve_create (table_ext put_reply recall_reply) = (\<lambda>row s. if map_of (vw_sleeves s) (sl_id row) = None then (Inr (), s\<lparr>vw_sleeves := vw_sleeves s @ [(sl_id row, row)]\<rparr>) else (Inl ''P2002'', s))"
  "x_sleeve_update (table_ext put_reply recall_reply) = (\<lambda>k f s. case map_of (vw_sleeves s) k of None \<Rightarrow> (Inl ''P2025'', s) | Some old \<Rightarrow> (Inr (f old), s\<lparr>vw_sleeves := update_row k f (vw_sleeves s)\<rparr>))"
  "x_transaction (table_ext put_reply recall_reply) = (\<lambda>k f k' f' s. if map_of (vw_stacks s) k = None \<or> map_of (vw_sleeves s) k' = None then (Inl ''P2025'', s) else (Inr (), s\<lparr>vw_stacks := update_row k f (vw_stacks s), vw_sleeves := update_row k' f' (vw_sleeves s)\<rparr>))"
  "x_audit_create (table_ext put_reply recall_reply) = (\<lambda>row s. (Inr (), s\<lparr>vw_audit := vw_audit s @ [row]\<rparr>))"
  "x_audits_where (table_ext put_reply recall_reply) = (\<lambda>p s. (Inr (filter p (vw_audit s)), s))"
  "x_residue_create (table_ext put_reply recall_reply) = (\<lambda>row s. if map_of (vw_residues s) (re_id row) = None then (Inr (), s\<lparr>vw_residues := vw_residues s @ [(re_id row, row)]\<rparr>) else (Inl ''P2002'', s))"
  "x_epoch_upsert (table_ext put_reply recall_reply) = (\<lambda>row s. (Inr (), s\<lparr>vw_epochs := (if map_of (vw_epochs s) (ep_number row) = None then vw_epochs s @ [(ep_number row, row)] else vw_epochs s)\<rparr>))"
  "x_publish (table_ext put_reply recall_reply) = (\<lambda>ev s. (Inr (), s\<lparr>vw_events := vw_events s @ [ev]\<rparr>))"
  "x_hippo_put (table_ext put_reply recall_reply) = (\<lambda>i s. (put_reply i, s))"
  "x_hippo_recall (table_ext put_reply recall_reply) = (\<lambda>a s. (recall_reply a, s))"
  "x_hippo_pin (table_ext put_reply recall_reply) = (\<lambda>c s. (Inr (), s))"
  by (simp_all add: table_ext_def)

lemma effect_simple:
  "(\<And>s r s'. m s = (Inr r, s') \<Longrightarrow> R r (x_view X s) (x_view X s')) \<Longrightarrow>
   (\<And>s e s'. m s = (Inl e, s') \<Longrightarrow> x_view X s' = x_view X s) \<Longrightarrow> effect X m R"
  by (auto simp: effect_def split: prod.splits sum.splits)

lemma ext_ok_table [simp]: "ext_ok (table_ext put_reply recall_reply)"
  unfolding ext_ok_def
  by (intro conjI allI effect_simple) (auto simp: table_ext_def split: if_splits option.splits)

definition empty_view :: view where
  "empty_view = \<lparr>vw_stacks = [], vw_sleeves = [], vw_audit = [], vw_residues = [], vw_epochs = [], vw_events = []\<rparr>"

definition no_fragments :: "hippo_recall_args \<Rightarrow> hippo_recall_reply result" where
  "no_fragments a = Inr \<lparr>hr_fragments = Some [], hr_broken = Some [], hr_fidelity = 1\<rparr>"

definition demo_ext :: "view ext" where
  "demo_ext = table_ext (\<lambda>i. Inr (''ecca://'' @ replicate 64 CHR ''0'' @ ''@0'')) no_fragments"

lemma ext_ok_demo [simp]: "ext_ok demo_ext"
  by (simp add: demo_ext_def)

subsection \<open>The registry invariant\<close>

text \<open>
  Keys are unique and are the ids of their rows; every sleeve belongs to a stack that exists, has no
  negative token and no negative drift.
\<close>

definition sleeve_ok :: "view \<Rightarrow> string \<Rightarrow> sleeve \<Rightarrow> bool" where
  "sleeve_ok v k s \<longleftrightarrow> sl_id s = k \<and> tokens_ok (sl_tokens s) \<and> 0 \<le> sl_drift s \<and>
     map_of (vw_stacks v) (sl_stackId s) \<noteq> None"

definition reg_inv :: "view \<Rightarrow> bool" where
  "reg_inv v \<longleftrightarrow> distinct (map fst (vw_stacks v)) \<and> distinct (map fst (vw_sleeves v)) \<and>
     (\<forall>k st. map_of (vw_stacks v) k = Some st \<longrightarrow> st_id st = k) \<and>
     (\<forall>k s. map_of (vw_sleeves v) k = Some s \<longrightarrow> sleeve_ok v k s)"

lemma reg_inv_empty [simp]: "reg_inv empty_view"
  by (simp add: reg_inv_def empty_view_def)

lemma reg_inv_other [simp]:
  "reg_inv (v\<lparr>vw_events := x1\<rparr>) = reg_inv v"
  "reg_inv (v\<lparr>vw_audit := x2\<rparr>) = reg_inv v"
  "reg_inv (v\<lparr>vw_residues := x3\<rparr>) = reg_inv v"
  "reg_inv (v\<lparr>vw_epochs := x4\<rparr>) = reg_inv v"
  by (simp_all add: reg_inv_def sleeve_ok_def)

lemma reg_inv_stack: "reg_inv v \<Longrightarrow> map_of (vw_stacks v) k = Some st \<Longrightarrow> st_id st = k"
  and reg_inv_sleeve: "reg_inv v \<Longrightarrow> map_of (vw_sleeves v) k = Some s \<Longrightarrow> sleeve_ok v k s"
  by (simp_all add: reg_inv_def)

lemma reg_inv_sleeve_facts:
  assumes "reg_inv v" "map_of (vw_sleeves v) k = Some s"
  shows "sl_id s = k" "tokens_ok (sl_tokens s)" "0 \<le> sl_drift s" "map_of (vw_stacks v) (sl_stackId s) \<noteq> None"
  using reg_inv_sleeve [OF assms] by (simp_all add: sleeve_ok_def)

lemma reg_inv_row: "reg_inv v \<Longrightarrow> s \<in> set (map snd (vw_sleeves v)) \<Longrightarrow>
  map_of (vw_sleeves v) (sl_id s) = Some s"
proof -
  assume r: "reg_inv v" and "s \<in> set (map snd (vw_sleeves v))"
  then obtain k where "(k, s) \<in> set (vw_sleeves v)" by auto
  with r have k: "map_of (vw_sleeves v) k = Some s" by (simp add: reg_inv_def)
  with reg_inv_sleeve [OF r] show ?thesis by (auto simp: sleeve_ok_def)
qed

lemma reg_inv_update_stack:
  assumes "reg_inv v" "\<And>st. st_id (f st) = st_id st"
  shows "reg_inv (v\<lparr>vw_stacks := update_row k f (vw_stacks v)\<rparr>)"
  using assms by (auto simp: reg_inv_def sleeve_ok_def)

lemma reg_inv_update_sleeve:
  assumes "reg_inv v"
    and "\<And>s. map_of (vw_sleeves v) k = Some s \<Longrightarrow> sl_id (f s) = sl_id s \<and> sl_stackId (f s) = sl_stackId s \<and>
       tokens_ok (sl_tokens (f s)) \<and> 0 \<le> sl_drift (f s)"
  shows "reg_inv (v\<lparr>vw_sleeves := update_row k f (vw_sleeves v)\<rparr>)"
  using assms by (auto simp: reg_inv_def sleeve_ok_def)

lemma reg_inv_transaction:
  assumes "reg_inv v" "\<And>st. st_id (f st) = st_id st"
    and "\<And>s. map_of (vw_sleeves v) k' = Some s \<Longrightarrow> sl_id (f' s) = sl_id s \<and> sl_stackId (f' s) = sl_stackId s \<and>
       tokens_ok (sl_tokens (f' s)) \<and> 0 \<le> sl_drift (f' s)"
  shows "reg_inv (v\<lparr>vw_stacks := update_row k f (vw_stacks v), vw_sleeves := update_row k' f' (vw_sleeves v)\<rparr>)"
  using reg_inv_update_sleeve [OF reg_inv_update_stack [OF assms(1,2)], where k = k' and f = f'] assms(3) by simp

lemma reg_inv_new_stack:
  assumes "reg_inv v" "map_of (vw_stacks v) (st_id row) = None"
  shows "reg_inv (v\<lparr>vw_stacks := vw_stacks v @ [(st_id row, row)]\<rparr>)"
proof -
  let ?v = "v\<lparr>vw_stacks := vw_stacks v @ [(st_id row, row)]\<rparr>"
  have n: "st_id row \<notin> fst ` set (vw_stacks v)" using assms(2) by (simp add: map_of_eq_None_iff)
  have m: "map_of (vw_stacks ?v) k = (if k = st_id row then Some row else map_of (vw_stacks v) k)" for k
    using assms(2) by (simp add: map_add_def split: option.splits)
  have "sleeve_ok ?v k s" if "map_of (vw_sleeves v) k = Some s" for k s
    using reg_inv_sleeve [OF assms(1) that] m by (auto simp: sleeve_ok_def)
  moreover have "map_of (vw_stacks ?v) k = Some st \<Longrightarrow> st_id st = k" for k st
    using reg_inv_stack [OF assms(1), of k st] unfolding m by (auto split: if_splits)
  moreover have "distinct (map fst (vw_stacks ?v))" "distinct (map fst (vw_sleeves ?v))"
    using assms(1) n by (auto simp: reg_inv_def)
  ultimately show ?thesis unfolding reg_inv_def by simp
qed

lemma reg_inv_new_sleeve:
  assumes "reg_inv v" "map_of (vw_sleeves v) (sl_id row) = None" "sleeve_ok v (sl_id row) row"
  shows "reg_inv (v\<lparr>vw_sleeves := vw_sleeves v @ [(sl_id row, row)]\<rparr>)"
proof -
  let ?v = "v\<lparr>vw_sleeves := vw_sleeves v @ [(sl_id row, row)]\<rparr>"
  have n: "sl_id row \<notin> fst ` set (vw_sleeves v)" using assms(2) by (simp add: map_of_eq_None_iff)
  have m: "map_of (vw_sleeves ?v) k = (if k = sl_id row then Some row else map_of (vw_sleeves v) k)" for k
    using assms(2) by (simp add: map_add_def split: option.splits)
  have "map_of (vw_sleeves ?v) k = Some s \<Longrightarrow> sleeve_ok ?v k s" for k s
    using reg_inv_sleeve [OF assms(1), of k s] assms(3) unfolding m
    by (auto simp: sleeve_ok_def split: if_splits)
  moreover have "distinct (map fst (vw_stacks ?v))" "distinct (map fst (vw_sleeves ?v))"
    using assms(1) n by (auto simp: reg_inv_def)
  moreover have "map_of (vw_stacks ?v) k = Some st \<Longrightarrow> st_id st = k" for k st
    using reg_inv_stack [OF assms(1), of k st] by simp
  ultimately show ?thesis unfolding reg_inv_def by simp
qed

text \<open>A small registry: one stack at epoch 2 with a memory, and two of its sleeves.\<close>

definition demo_stack :: stack where
  "demo_stack = \<lparr>st_id = ''stack:human:1:ab'', st_tokenId = 1, st_name = ''ada'', st_kind = ''human'', st_pubKey = [],
     st_epoch = 2, st_cpv = \<lparr>computeCoeff = 1, memoryCoeff = 1, syncCoeff = 1, routingCoeff = 1, residueCoeff = 1\<rparr>,
     st_binding = \<lparr>decayRate = 0.05, curve_floor = 0.25\<rparr>, st_episodicHead = Some ''ecca://head''\<rparr>"

definition demo_sleeve :: "string \<Rightarrow> sleeve" where
  "demo_sleeve k = \<lparr>sl_id = k, sl_stackId = ''stack:human:1:ab'', sl_embodimentType = ''human'', sl_alive = True,
     sl_drift = 3, sl_syncEpoch = 1, sl_lastSync = 0,
     sl_tokens = [(Compute, 10), (Memory, 10), (Sync, 10), (Routing, 10), (Residue, 0)], sl_hostname = None\<rparr>"

definition demo_view :: view where
  "demo_view = empty_view\<lparr>vw_stacks := [(st_id demo_stack, demo_stack)],
     vw_sleeves := [(''sa'', demo_sleeve ''sa''), (''sb'', demo_sleeve ''sb'')]\<rparr>"

lemmas demo_simps = demo_stack_def demo_sleeve_def demo_view_def demo_ext_def table_ext_def empty_view_def
  no_fragments_def

lemma reg_inv_demo [simp]: "reg_inv demo_view"
  by (auto simp: reg_inv_def sleeve_ok_def demo_simps tokens_ok_def)

subsection \<open>Services\<close>

text \<open>
  A service: a request handler that keeps an invariant of the visible world whatever the outside world
  does.  Sequences of requests then keep it too.
\<close>

locale service =
  fixes handle :: "'s ext \<Rightarrow> 'q \<Rightarrow> ('s, unit) act"
    and inv :: "view \<Rightarrow> bool"
  assumes keeps: "ext_ok X \<Longrightarrow> inv v \<Longrightarrow> safe X (handle X q) (\<lambda>_. inv) inv v"
begin

lemma request: "ext_ok X \<Longrightarrow> inv (x_view X s) \<Longrightarrow> inv (x_view X (snd (handle X q s)))"
  using keeps [of X "x_view X s" q] by (cases "handle X q s") (auto simp: safe_def split: sum.splits prod.splits)

lemma requests: "ext_ok X \<Longrightarrow> inv (x_view X s) \<Longrightarrow> inv (x_view X (foldl (\<lambda>s q. snd (handle X q s)) s qs))"
  by (induction qs arbitrary: s) (simp_all add: request)

end

end
