(* ===== verification/Siyana.thy ===== *)
theory Siyana
  imports Service
begin

text \<open>
  \<^verbatim>\<open>services/siyana-api/src/server.ts\<close>: the REST handlers of the gateway as actions on the outside world.
  A handler takes what it reads from the process besides the request: \<open>lib\<close> the cryptographic library,
  \<open>ms\<close> the master secret, \<open>now\<close> the clock, \<open>rnd\<close> and \<open>priv\<close> random bytes.  A refusal carries its status
  code; an exception of a handler is the left value.  Not modelled: the WebSocket fan-out, the
  forwarding of needlecast requests and the epoch and mining proxies, which keep no state.
\<close>

subsection \<open>Handlers\<close>

definition lift :: "'a result \<Rightarrow> ('s, 'a) act" where
  "lift r s = (r, s)"

lemma safe_lift [safe_intros]:
  "(\<And>e. r = Inl e \<Longrightarrow> E v) \<Longrightarrow> (\<And>x. r = Inr x \<Longrightarrow> Q x v) \<Longrightarrow> safe X (lift r) Q E v"
  by (cases r) (simp_all add: safe_def lift_def)

definition new_stack :: "noble \<Rightarrow> nat \<Rightarrow> bytes \<Rightarrow> string \<Rightarrow> string \<Rightarrow> nat \<Rightarrow> stack" where
  "new_stack lib now priv name kind hint =
     \<lparr>st_id = ''stack:'' @ kind @ '':'' @ dec hint @ '':'' @ take 12 (sha256hex lib (Raw (Str (name @ dec now)))),
      st_tokenId = hint, st_name = name, st_kind = kind, st_pubKey = kp_pub (genIdentityKeypair lib priv), st_epoch = 0,
      st_cpv = \<lparr>computeCoeff = 1, memoryCoeff = 1, syncCoeff = 1, routingCoeff = 1, residueCoeff = 1\<rparr>,
      st_binding = \<lparr>decayRate = 0.05, curve_floor = 0.25\<rparr>, st_episodicHead = None\<rparr>"

definition create_stack ::
  "'s ext \<Rightarrow> noble \<Rightarrow> nat \<Rightarrow> bytes \<Rightarrow> string \<Rightarrow> string option \<Rightarrow> ('s, (stack \<times> string) response) act" where
  "create_stack X lib now priv name kind_opt =
     (let kind = (case kind_opt of None \<Rightarrow> ''human'' | Some k \<Rightarrow> k) in
      if name = [] \<or> 64 < length name \<or> (kind \<noteq> ''human'' \<and> kind \<noteq> ''ai'') then throwA ''ZodError''
      else bindA (x_stack_count X) (\<lambda>n.
        let row = new_stack lib now priv name kind (n + 1)
        in bindA (x_stack_create X row) (\<lambda>_.
           bindA (ignoreA (x_publish X (StackCreated (st_id row) (st_name row) (st_kind row) (st_tokenId row) (st_pubKey row)))) (\<lambda>_.
           ret (Reply (row, kp_priv (genIdentityKeypair lib priv)))))))"

definition head_links :: "stack \<Rightarrow> string list" where
  "head_links st = (case st_episodicHead st of None \<Rightarrow> [] | Some h \<Rightarrow> if h = [] then [] else [h])"

definition remember ::
  "'s ext \<Rightarrow> noble \<Rightarrow> string \<Rightarrow> bytes \<Rightarrow> string \<Rightarrow> string \<Rightarrow> bool option \<Rightarrow> ('s, string response) act" where
  "remember X lib ms rnd i text pin =
     (if text = [] then throwA ''ZodError''
      else bindA (x_stack_find X i) (\<lambda>found. case found of
        None \<Rightarrow> ret (Refused 404 ''not found'')
      | Some st \<Rightarrow>
          bindA (lift (encrypt lib rnd (Str text) (epochKey lib ms (st_id st) (st_epoch st)))) (\<lambda>ciphertext.
          bindA (x_hippo_put X \<lparr>hp_stackId = st_id st, hp_epoch = st_epoch st, hp_ciphertext = ciphertext,
              hp_links = head_links st, hp_kind = ''episodic'', hp_pinned = (pin = Some True)\<rparr>) (\<lambda>c.
          bindA (x_stack_update X (st_id st) (\<lambda>s. s\<lparr>st_episodicHead := Some c\<rparr>)) (\<lambda>_.
          ret (Reply c))))))"

definition recall_stack ::
  "'s ext \<Rightarrow> string \<Rightarrow> nat option \<Rightarrow> real option \<Rightarrow> ('s, (hippo_node list \<times> string list \<times> real) response) act" where
  "recall_stack X i depth memoryToken =
     bindA (x_stack_find X i) (\<lambda>found. case found of
       None \<Rightarrow> ret (Refused 404 ''not found'')
     | Some st \<Rightarrow>
         (case head_links st of
            [] \<Rightarrow> ret (Reply ([], [], 1))
          | head # _ \<Rightarrow>
              bindA (x_hippo_recall X \<lparr>ha_rootCid = head, ha_stackId = st_id st, ha_epoch = st_epoch st,
                  ha_depth = min 32 (case depth of None \<Rightarrow> 6 | Some d \<Rightarrow> d),
                  ha_memoryToken = (case memoryToken of None \<Rightarrow> tb_memory DEFAULT_BALANCE | Some m \<Rightarrow> m)\<rparr>) (\<lambda>r.
              let fragments = (case hr_fragments r of None \<Rightarrow> [] | Some fs \<Rightarrow> fs);
                  broken = (case hr_broken r of None \<Rightarrow> [] | Some bs \<Rightarrow> bs)
              in bindA (ignoreA (x_publish X (MemoryRecall (st_id st) head (hr_fidelity r) (length fragments) (length broken)))) (\<lambda>_.
                 ret (Reply (fragments, broken, hr_fidelity r))))))"

definition new_sleeve :: "noble \<Rightarrow> nat \<Rightarrow> stack \<Rightarrow> string \<Rightarrow> string option \<Rightarrow> nat \<Rightarrow> sleeve" where
  "new_sleeve lib now st kind host ix =
     \<lparr>sl_id = ''sleeve:'' @ kind @ '':'' @ dec ix @ '':'' @ take 8 (sha256hex lib (Raw (Str (st_id st @ dec now)))),
      sl_stackId = st_id st, sl_embodimentType = kind, sl_alive = True, sl_drift = 0,
      sl_syncEpoch = st_epoch st, sl_lastSync = now,
      sl_tokens = [(Compute, 250), (Memory, 250), (Sync, 250), (Routing, 250), (Residue, 0)],
      sl_hostname = host\<rparr>"

definition spawn_sleeve ::
  "'s ext \<Rightarrow> noble \<Rightarrow> nat \<Rightarrow> string \<Rightarrow> string option \<Rightarrow> string option \<Rightarrow> ('s, sleeve response) act" where
  "spawn_sleeve X lib now stackId kind_opt host =
     (let kind = (case kind_opt of None \<Rightarrow> ''human'' | Some k \<Rightarrow> k) in
      if kind \<notin> set [''human'', ''ai'', ''mining'', ''memory''] then throwA ''ZodError''
      else bindA (x_stack_find X stackId) (\<lambda>found. case found of
        None \<Rightarrow> ret (Refused 404 ''stack not found'')
      | Some st \<Rightarrow>
          bindA (x_sleeves_where X (\<lambda>s. sl_stackId s = st_id st)) (\<lambda>own.
          let row = new_sleeve lib now st kind host (length own + 1)
          in bindA (x_sleeve_create X row) (\<lambda>_.
             bindA (ignoreA (x_publish X (SleeveSpawned (sl_id row) (sl_stackId row) kind))) (\<lambda>_.
             ret (Reply row))))))"

definition decommission :: "'s ext \<Rightarrow> string \<Rightarrow> ('s, unit response) act" where
  "decommission X i =
     bindA (tryA (bindA (x_sleeve_update X i (\<lambda>s. s\<lparr>sl_alive := False\<rparr>)) (\<lambda>s. ret (Some s))) (\<lambda>_. ret None))
       (\<lambda>found. case found of
          None \<Rightarrow> ret (Refused 404 ''not found'')
        | Some s \<Rightarrow> bindA (ignoreA (x_publish X (SleeveDecommissioned (sl_id s) (sl_stackId s)))) (\<lambda>_. ret (Reply ())))"

text \<open>\<open>s.id.slice(-6)\<close>.\<close>

definition last6 :: "string \<Rightarrow> string" where
  "last6 s = drop (length s - 6) s"

definition perceive ::
  "'s ext \<Rightarrow> noble \<Rightarrow> string \<Rightarrow> bytes \<Rightarrow> string \<Rightarrow> string \<Rightarrow> ('s, (string \<times> string) response) act" where
  "perceive X lib ms rnd i input =
     bindA (x_sleeve_find X i) (\<lambda>found. case found of
       None \<Rightarrow> ret (Refused 404 ''not found'')
     | Some s \<Rightarrow>
         bindA (x_stack_find X (sl_stackId s)) (\<lambda>found. case found of
           None \<Rightarrow> ret (Refused 404 ''stack gone'')
         | Some st \<Rightarrow>
             (if tok (sl_tokens s) Compute < 1 then ret (Refused 402 ''compute_token_exhausted'')
              else
                let thought = ''['' @ sl_embodimentType s @ ''@'' @ last6 (sl_id s) @ ''] '' @ input in
                bindA (lift (encrypt lib rnd (Str thought) (epochKey lib ms (st_id st) (st_epoch st)))) (\<lambda>ciphertext.
                bindA (x_hippo_put X \<lparr>hp_stackId = st_id st, hp_epoch = st_epoch st, hp_ciphertext = ciphertext,
                    hp_links = head_links st, hp_kind = ''episodic'', hp_pinned = False\<rparr>) (\<lambda>c.
                bindA (x_transaction X
                    (st_id st) (\<lambda>r. r\<lparr>st_episodicHead := Some c\<rparr>)
                    (sl_id s) (\<lambda>r. r\<lparr>sl_drift := sl_drift r + 1,
                      sl_tokens := set_tok Compute (tok (sl_tokens s) Compute - 0.5) (sl_tokens s)\<rparr>)) (\<lambda>_.
                bindA (ignoreA (x_publish X (SleevePerceive (sl_id s) (st_id st) c 0.5))) (\<lambda>_.
                ret (Reply (c, thought)))))))))"

definition sync_sleeve :: "'s ext \<Rightarrow> nat \<Rightarrow> string \<Rightarrow> ('s, nat response) act" where
  "sync_sleeve X now i =
     bindA (x_sleeve_find X i) (\<lambda>found. case found of
       None \<Rightarrow> ret (Refused 404 ''not found'')
     | Some s \<Rightarrow>
         bindA (x_stack_find X (sl_stackId s)) (\<lambda>found. case found of
           None \<Rightarrow> ret (Refused 404 ''stack gone'')
         | Some st \<Rightarrow>
             (if tok (sl_tokens s) Sync < 1 then ret (Refused 402 ''sync_token_exhausted'')
              else
                bindA (x_sleeve_update X (sl_id s) (\<lambda>r. r\<lparr>sl_drift := 0, sl_syncEpoch := st_epoch st,
                    sl_lastSync := now, sl_tokens := set_tok Sync (tok (sl_tokens s) Sync - 1) (sl_tokens s)\<rparr>)) (\<lambda>_.
                ret (Reply (st_epoch st))))))"

definition desynced :: "'s ext \<Rightarrow> real \<Rightarrow> ('s, (string \<times> string \<times> real) list) act" where
  "desynced X driftMax =
     bindA (x_sleeves_where X (\<lambda>s. sl_alive s \<and> driftMax < sl_drift s)) (\<lambda>drifty.
     ret (map (\<lambda>s. (sl_id s, sl_stackId s, sl_drift s)) drifty))"

definition token_totals :: "'s ext \<Rightarrow> string \<Rightarrow> ('s, (token_kind \<Rightarrow> real) response) act" where
  "token_totals X i =
     bindA (x_stack_find X i) (\<lambda>found. case found of
       None \<Rightarrow> ret (Refused 404 ''not found'')
     | Some st \<Rightarrow>
         bindA (x_sleeves_where X (\<lambda>s. sl_stackId s = st_id st \<and> sl_alive s)) (\<lambda>own.
         ret (Reply (\<lambda>k. foldl (\<lambda>t s. t + tok (sl_tokens s) k) 0 own))))"

text \<open>The remaining reads: stacks with their sleeves, the living sleeves, and the tip of the medulla chain, whose
  node answers \<open>info\<close> or fails.\<close>

definition list_stacks :: "'s ext \<Rightarrow> ('s, (stack \<times> sleeve list) list response) act" where
  "list_stacks X =
     bindA (x_stacks X) (\<lambda>sts. bindA (x_sleeves_where X (\<lambda>s. True)) (\<lambda>sls.
     ret (Reply (map (\<lambda>st. (st, filter (\<lambda>s. sl_stackId s = st_id st) sls)) sts))))"

definition get_stack :: "'s ext \<Rightarrow> string \<Rightarrow> ('s, (stack \<times> sleeve list) response) act" where
  "get_stack X i =
     bindA (x_stack_find X i) (\<lambda>found. case found of
       None \<Rightarrow> ret (Refused 404 ''not found'')
     | Some st \<Rightarrow> bindA (x_sleeves_where X (\<lambda>s. sl_stackId s = st_id st)) (\<lambda>sls. ret (Reply (st, sls))))"

definition list_sleeves :: "'s ext \<Rightarrow> ('s, sleeve list response) act" where
  "list_sleeves X = bindA (x_sleeves_where X sl_alive) (\<lambda>sls. ret (Reply sls))"

definition epochs_current :: "(nat \<times> nat \<times> string) result \<Rightarrow> nat \<times> nat \<times> string option" where
  "epochs_current info = (case info of Inl e \<Rightarrow> (0, 0, None) | Inr (epoch, height, tip) \<Rightarrow> (epoch, height, Some tip))"

text \<open>The requests and the dispatch; what a handler replies is dropped here, only its effect matters.\<close>

datatype siyana_request =
    PostStack nat bytes string "string option"
  | PostRemember bytes string string "bool option"
  | GetRecall string "nat option" "real option"
  | PostSleeve nat string "string option" "string option"
  | DeleteSleeve string
  | PostPerceive bytes string string
  | PostSync nat string

fun siyana :: "noble \<Rightarrow> string \<Rightarrow> 's ext \<Rightarrow> siyana_request \<Rightarrow> ('s, unit) act" where
  "siyana lib ms X (PostStack now priv name kind) = bindA (create_stack X lib now priv name kind) (\<lambda>_. ret ())"
| "siyana lib ms X (PostRemember rnd i txt pin) = bindA (remember X lib ms rnd i txt pin) (\<lambda>_. ret ())"
| "siyana lib ms X (GetRecall i d m) = bindA (recall_stack X i d m) (\<lambda>_. ret ())"
| "siyana lib ms X (PostSleeve now i kind host) = bindA (spawn_sleeve X lib now i kind host) (\<lambda>_. ret ())"
| "siyana lib ms X (DeleteSleeve i) = bindA (decommission X i) (\<lambda>_. ret ())"
| "siyana lib ms X (PostPerceive rnd i input) = bindA (perceive X lib ms rnd i input) (\<lambda>_. ret ())"
| "siyana lib ms X (PostSync now i) = bindA (sync_sleeve X now i) (\<lambda>_. ret ())"

subsection \<open>The invariant\<close>

lemma new_sleeve_ok: "map_of (vw_stacks v) (st_id st) \<noteq> None \<Longrightarrow>
  sleeve_ok v (sl_id (new_sleeve lib now st kind host ix)) (new_sleeve lib now st kind host ix)"
  by (simp add: sleeve_ok_def new_sleeve_def tokens_ok_def)

lemma create_stack_inv:
  "ext_ok X \<Longrightarrow> reg_inv v \<Longrightarrow> safe X (create_stack X lib now priv name kind) (\<lambda>_. reg_inv) reg_inv v"
  unfolding create_stack_def Let_def
  by (intro safe_intros) (simp_all add: reg_inv_new_stack)

lemma remember_inv:
  "ext_ok X \<Longrightarrow> reg_inv v \<Longrightarrow> safe X (remember X lib ms rnd i txt pin) (\<lambda>_. reg_inv) reg_inv v"
  unfolding remember_def by (intro safe_intros) (simp_all add: reg_inv_update_stack)

lemma recall_stack_inv:
  "ext_ok X \<Longrightarrow> reg_inv v \<Longrightarrow> safe X (recall_stack X i d m) (\<lambda>_. reg_inv) reg_inv v"
  unfolding recall_stack_def Let_def by (intro safe_intros) simp_all

lemma spawn_sleeve_inv:
  "ext_ok X \<Longrightarrow> reg_inv v \<Longrightarrow> safe X (spawn_sleeve X lib now i kind host) (\<lambda>_. reg_inv) reg_inv v"
  unfolding spawn_sleeve_def Let_def
  by (intro safe_intros) (simp_all add: reg_inv_new_sleeve new_sleeve_ok reg_inv_stack)

lemma decommission_inv:
  "ext_ok X \<Longrightarrow> reg_inv v \<Longrightarrow> safe X (decommission X i) (\<lambda>_. reg_inv) reg_inv v"
  unfolding decommission_def
  by (intro safe_intros allI) (simp_all add: reg_inv_update_sleeve reg_inv_sleeve_facts)

lemma perceive_inv:
  "ext_ok X \<Longrightarrow> reg_inv v \<Longrightarrow> safe X (perceive X lib ms rnd i input) (\<lambda>_. reg_inv) reg_inv v"
  unfolding perceive_def Let_def
  by (intro safe_intros) (simp_all add: reg_inv_transaction reg_inv_sleeve_facts tokens_ok_set)

lemma sync_sleeve_inv:
  "ext_ok X \<Longrightarrow> reg_inv v \<Longrightarrow> safe X (sync_sleeve X now i) (\<lambda>_. reg_inv) reg_inv v"
  unfolding sync_sleeve_def
  by (intro safe_intros) (simp_all add: reg_inv_update_sleeve reg_inv_sleeve_facts tokens_ok_set)

interpretation siyana_api: service "siyana lib ms" reg_inv for lib ms
proof
  fix X :: "'a ext" and v q
  assume "ext_ok X" "reg_inv v"
  then show "safe X (siyana lib ms X q) (\<lambda>_. reg_inv) reg_inv v"
    by (cases q; simp only: siyana.simps; intro safe_bind)
      (rule safe_conseq, (rule create_stack_inv remember_inv recall_stack_inv spawn_sleeve_inv decommission_inv
          perceive_inv sync_sleeve_inv; assumption), simp_all add: safe_ret)+
qed

subsection \<open>Properties\<close>

text \<open>What a perception changes: the head of the memory chain, the drift and the compute tokens.\<close>

definition perceived :: "view \<Rightarrow> string \<Rightarrow> sleeve \<Rightarrow> string \<Rightarrow> view" where
  "perceived v k s c = v\<lparr>vw_stacks := update_row (sl_stackId s) (\<lambda>r. r\<lparr>st_episodicHead := Some c\<rparr>) (vw_stacks v),
     vw_sleeves := update_row k (\<lambda>r. r\<lparr>sl_drift := sl_drift r + 1,
       sl_tokens := set_tok Compute (tok (sl_tokens s) Compute - 0.5) (sl_tokens s)\<rparr>) (vw_sleeves v)\<rparr>"

lemma perceive_safe:
  assumes "ext_ok X" "reg_inv v"
  shows "safe X (perceive X lib ms rnd i input)
    (\<lambda>r v'. case r of
       Refused n msg \<Rightarrow> v' = v \<and>
         (map_of (vw_sleeves v) i = None \<and> n = 404 \<or>
          (\<exists>s. map_of (vw_sleeves v) i = Some s \<and> tok (sl_tokens s) Compute < 1 \<and> n = 402))
     | Reply (c, thought) \<Rightarrow> \<exists>s. map_of (vw_sleeves v) i = Some s \<and> 1 \<le> tok (sl_tokens s) Compute \<and>
         thought = ''['' @ sl_embodimentType s @ ''@'' @ last6 i @ ''] '' @ input \<and>
         (v' = perceived v i s c \<or>
          v' = (perceived v i s c)\<lparr>vw_events := vw_events v @ [SleevePerceive i (sl_stackId s) c 0.5]\<rparr>))
    (\<lambda>v'. v' = v) v"
  using assms unfolding perceive_def Let_def
  by (intro safe_intros)
    (simp_all add: perceived_def reg_inv_sleeve_facts reg_inv_stack not_less)

text \<open>C2: a perception is all or nothing.  If it throws or is refused, the registry and the bus are
  unchanged, and it is refused with 402 exactly if the sleeve has less than one compute token; if it
  replies, the stack's head is the new memory, the drift has grown by one and half a compute token is
  spent, nothing else in the registry has changed and at most the perception event was published.\<close>

theorem perceive_atomic:
  assumes "ext_ok X" "reg_inv v"
  shows "safe X (perceive X lib ms rnd i input)
    (\<lambda>r v'. case r of
       Refused n msg \<Rightarrow> v' = v \<and>
         (map_of (vw_sleeves v) i = None \<and> n = 404 \<or>
          (\<exists>s. map_of (vw_sleeves v) i = Some s \<and> tok (sl_tokens s) Compute < 1 \<and> n = 402))
     | Reply (c, thought) \<Rightarrow> \<exists>s. map_of (vw_sleeves v) i = Some s \<and> 1 \<le> tok (sl_tokens s) Compute \<and>
         thought = ''['' @ sl_embodimentType s @ ''@'' @ last6 i @ ''] '' @ input \<and>
         (v' = perceived v i s c \<or>
          v' = (perceived v i s c)\<lparr>vw_events := vw_events v @ [SleevePerceive i (sl_stackId s) c 0.5]\<rparr>))
    (\<lambda>v'. v' = v) v"
  by (rule perceive_safe [OF assms])

lemma lift_encrypt_demo:
  "lift (encrypt demo_noble (replicate 12 0) (Str t) (epochKey demo_noble ms sid e)) s =
     (Inr \<lparr>ep_iv = hex_of (replicate 12 0), ep_ct = hex_of (utf8 t @ epochKey demo_noble ms sid e), ep_v = 1\<rparr>, s)"
  by (simp add: lift_def encrypt_def epochKey_def demo_noble_def svc_simps)

theorem perceive_atomic_witness:
  "\<exists>r. fst (perceive demo_ext demo_noble ''m'' (replicate 12 0) ''sa'' ''rain'' demo_view) = Inr (Reply r) \<and>
     map_of (vw_sleeves (snd (perceive demo_ext demo_noble ''m'' (replicate 12 0) ''sa'' ''rain'' demo_view))) ''sa'' =
       Some ((demo_sleeve ''sa'')\<lparr>sl_drift := 4,
         sl_tokens := set_tok Compute 9.5 (sl_tokens (demo_sleeve ''sa''))\<rparr>)"
proof -
  obtain r w where run: "perceive demo_ext demo_noble ''m'' (replicate 12 0) ''sa'' ''rain'' demo_view = (Inr (Reply r), w)"
    by (simp add: perceive_def demo_simps Let_def bindA_def lift_encrypt_demo ret_def ignoreA_def head_links_def
        update_row_def)
  have v: "x_view demo_ext s = s" for s by (simp add: demo_simps)
  from perceive_atomic [OF ext_ok_demo reg_inv_demo, of demo_noble "''m''" "replicate 12 0" "''sa''" "''rain''"] run
  have "\<exists>c. w = perceived demo_view ''sa'' (demo_sleeve ''sa'') c \<or>
      w = (perceived demo_view ''sa'' (demo_sleeve ''sa'') c)\<lparr>vw_events := vw_events demo_view @
        [SleevePerceive ''sa'' (sl_stackId (demo_sleeve ''sa'')) c 0.5]\<rparr>"
    by (cases r) (auto simp: safe_def v demo_view_def)
  then have "map_of (vw_sleeves w) ''sa'' =
       Some ((demo_sleeve ''sa'')\<lparr>sl_drift := 4, sl_tokens := set_tok Compute 9.5 (sl_tokens (demo_sleeve ''sa''))\<rparr>)"
    by (auto simp: perceived_def demo_view_def demo_sleeve_def)
  with run show ?thesis by simp
qed

end
