(* ===== verification/Needlecast.thy ===== *)
theory Needlecast
  imports Siyana
begin

text \<open>
  \<^verbatim>\<open>services/needlecast-router-svc/src/server.ts\<close>: the saga that transfers a stack from one sleeve to
  another.  The saga's compensation list is explicit: an exception before the source is frozen finds it
  empty, one after that finds the single entry that wakes the source up again.
\<close>

subsection \<open>The handler\<close>

text \<open>The value or the exception of an action as a value, for the \<open>try\<close> around the saga.\<close>

definition attempt :: "('s, 'a) act \<Rightarrow> ('s, 'a result) act" where
  "attempt m s = (case m s of (r, s') \<Rightarrow> (Inr r, s'))"

lemma safe_attempt [safe_intros]:
  "safe X m (\<lambda>x. Q (Inr x)) (\<lambda>v. \<forall>e. Q (Inl e) v) v \<Longrightarrow> safe X (attempt m) Q E v"
proof -
  assume a: "safe X m (\<lambda>x. Q (Inr x)) (\<lambda>v. \<forall>e. Q (Inl e) v) v"
  have "Q (fst (m s)) (x_view X (snd (m s)))" if "x_view X s = v" for s
    using a that by (cases "m s"; cases "fst (m s)") (auto simp: safe_def)
  then show ?thesis by (simp add: safe_def attempt_def split_beta)
qed

lemma safe_sum [safe_intros]:
  "(\<And>e. r = Inl e \<Longrightarrow> safe X (f e) Q E v) \<Longrightarrow> (\<And>x. r = Inr x \<Longrightarrow> safe X (g x) Q E v) \<Longrightarrow>
   safe X (case r of Inl e \<Rightarrow> f e | Inr x \<Rightarrow> g x) Q E v"
  by (cases r) simp_all

definition set_alive :: "bool \<Rightarrow> sleeve \<Rightarrow> sleeve" where
  "set_alive b s = s\<lparr>sl_alive := b\<rparr>"

text \<open>\<open>for (const u of undo) { try { await u(); } catch {} }\<close>.\<close>

definition rollback :: "('s, unit) act list \<Rightarrow> ('s, unit) act" where
  "rollback undo = forA ignoreA undo"

definition cost :: real where
  "cost = 5"

definition shard_list :: "'s ext \<Rightarrow> stack \<Rightarrow> ('s, string list) act" where
  "shard_list X st =
     (case head_links st of
        [] \<Rightarrow> ret []
      | head # _ \<Rightarrow>
          bindA (x_hippo_recall X \<lparr>ha_rootCid = head, ha_stackId = st_id st, ha_epoch = st_epoch st,
              ha_depth = 8, ha_memoryToken = 1000\<rparr>) (\<lambda>r.
          case hr_fragments r of
            None \<Rightarrow> throwA ''TypeError''
          | Some fs \<Rightarrow> ret (map hn_cid fs)))"

definition landed :: "stack \<Rightarrow> sleeve \<Rightarrow> sleeve \<Rightarrow> sleeve" where
  "landed st to r = r\<lparr>sl_drift := 0, sl_syncEpoch := st_epoch st,
     sl_tokens := set_tok Routing (tok (sl_tokens to) Routing - 0) (sl_tokens to)\<rparr>"

definition settled :: "sleeve \<Rightarrow> sleeve \<Rightarrow> sleeve" where
  "settled from r = r\<lparr>sl_tokens := set_tok Routing (tok (sl_tokens from) Routing - cost) (sl_tokens from)\<rparr>"

text \<open>Steps 2 to 7: shard, pin, anchor, reconstruct, settle and unfreeze.\<close>

definition transfer ::
  "'s ext \<Rightarrow> string \<Rightarrow> string \<Rightarrow> stack \<Rightarrow> sleeve \<Rightarrow> sleeve \<Rightarrow> ('s, string list) act" where
  "transfer X route sagaId st from to =
     bindA (shard_list X st) (\<lambda>shards.
     bindA (forA (\<lambda>c. ignoreA (x_hippo_pin X c)) shards) (\<lambda>_.
     bindA (x_publish X (NeedlecastRoute (sl_id from) (sl_id to) (st_id st) route shards sagaId)) (\<lambda>_.
     bindA (x_sleeve_update X (sl_id to) (landed st to)) (\<lambda>_.
     bindA (x_sleeve_update X (sl_id from) (settled from)) (\<lambda>_.
     bindA (x_sleeve_update X (sl_id from) (set_alive True)) (\<lambda>_.
     ret shards))))))"

definition saga ::
  "'s ext \<Rightarrow> string \<Rightarrow> string \<Rightarrow> stack \<Rightarrow> sleeve \<Rightarrow> sleeve \<Rightarrow> ('s, (string \<times> string \<times> nat) response) act" where
  "saga X route sagaId st from to =
     bindA (attempt (x_sleeve_update X (sl_id from) (set_alive False))) (\<lambda>frozen. case frozen of
       Inl e \<Rightarrow> bindA (rollback []) (\<lambda>_. ret (Refused 500 ''needlecast_failed''))
     | Inr _ \<Rightarrow>
         bindA (attempt (transfer X route sagaId st from to)) (\<lambda>done. case done of
           Inl e \<Rightarrow>
             bindA (rollback [bindA (x_sleeve_update X (sl_id from) (set_alive True)) (\<lambda>_. ret ())])
               (\<lambda>_. ret (Refused 500 ''needlecast_failed''))
         | Inr shards \<Rightarrow> ret (Reply (sagaId, route, length shards))))"

definition saga_id :: "noble \<Rightarrow> nat \<Rightarrow> string \<Rightarrow> string \<Rightarrow> string" where
  "saga_id lib now f t = ''needle:'' @ take 16 (sha256hex lib (Raw (Str (f @ t @ dec now))))"

definition needlecast ::
  "'s ext \<Rightarrow> noble \<Rightarrow> nat \<Rightarrow> string \<Rightarrow> string \<Rightarrow> ('s, (string \<times> string \<times> nat) response) act" where
  "needlecast X lib now f t =
     bindA (x_sleeve_find X f) (\<lambda>from_opt.
     bindA (x_sleeve_find X t) (\<lambda>to_opt.
       case from_opt of
         None \<Rightarrow> ret (Refused 404 ''sleeve not found'')
       | Some from \<Rightarrow> (case to_opt of
           None \<Rightarrow> ret (Refused 404 ''sleeve not found'')
         | Some to \<Rightarrow>
             (if sl_stackId from \<noteq> sl_stackId to then ret (Refused 409 ''stack_mismatch'')
              else bindA (x_stack_find X (sl_stackId from)) (\<lambda>stack_opt. case stack_opt of
                None \<Rightarrow> ret (Refused 404 ''stack not found'')
              | Some st \<Rightarrow>
                  (if tok (sl_tokens from) Routing < cost then ret (Refused 402 ''routing_token_exhausted'')
                   else saga X (sha256hex lib (Raw (Str (f @ t @ st_id st)))) (saga_id lib now f t) st from to))))))"

subsection \<open>Invariant and interface\<close>

lemma pins_safe [safe_intros]:
  "ext_ok X \<Longrightarrow> E v \<Longrightarrow> Q () v \<Longrightarrow> safe X (forA (\<lambda>c. ignoreA (x_hippo_pin X c)) cs) Q E v"
  by (rule safe_for [where J = "\<lambda>w. w = v"]) (simp_all add: safe_ignore safe_hippo_pin)

lemma shard_list_safe [safe_intros]:
  "ext_ok X \<Longrightarrow> E v \<Longrightarrow> (\<And>cs. Q cs v) \<Longrightarrow> safe X (shard_list X st) Q E v"
  unfolding shard_list_def by (intro safe_intros) simp_all

text \<open>The views the saga passes through: frozen, announced, landed on the target, settled.\<close>

fun saga_view :: "view \<Rightarrow> stack \<Rightarrow> sleeve \<Rightarrow> sleeve \<Rightarrow> event \<Rightarrow> nat \<Rightarrow> view" where
  "saga_view v st from to ev 0 = v\<lparr>vw_sleeves := update_row (sl_id from) (set_alive False) (vw_sleeves v)\<rparr>"
| "saga_view v st from to ev (Suc n) =
     (let w = saga_view v st from to ev n in
      if n = 0 then w\<lparr>vw_events := vw_events w @ [ev]\<rparr>
      else if n = 1 then w\<lparr>vw_sleeves := update_row (sl_id to) (landed st to) (vw_sleeves w)\<rparr>
      else w\<lparr>vw_sleeves := update_row (sl_id from) (settled from) (vw_sleeves w)\<rparr>)"

definition woken :: "string \<Rightarrow> view \<Rightarrow> view" where
  "woken k v = v\<lparr>vw_sleeves := update_row k (set_alive True) (vw_sleeves v)\<rparr>"

lemma saga_views:
  "saga_view v st from to ev 0 = v\<lparr>vw_sleeves := update_row (sl_id from) (set_alive False) (vw_sleeves v)\<rparr>"
  "saga_view v st from to ev 1 = (saga_view v st from to ev 0)\<lparr>vw_events := vw_events v @ [ev]\<rparr>"
  "saga_view v st from to ev 2 = (saga_view v st from to ev 1)\<lparr>vw_sleeves :=
     update_row (sl_id to) (landed st to) (vw_sleeves (saga_view v st from to ev 1))\<rparr>"
  "saga_view v st from to ev 3 = (saga_view v st from to ev 2)\<lparr>vw_sleeves :=
     update_row (sl_id from) (settled from) (vw_sleeves (saga_view v st from to ev 2))\<rparr>"
  by (simp_all add: numeral_2_eq_2 numeral_3_eq_3 Let_def)

lemma transfer_safe:
  assumes "ext_ok X" "\<And>n ev. n \<le> 3 \<Longrightarrow> E (saga_view v st from to ev n)"
    and "\<And>cs. Q cs (woken (sl_id from) (saga_view v st from to
           (NeedlecastRoute (sl_id from) (sl_id to) (st_id st) route cs sagaId) 3))"
  shows "safe X (transfer X route sagaId st from to) Q E (saga_view v st from to ev 0)"
proof -
  let ?ev = "\<lambda>cs. NeedlecastRoute (sl_id from) (sl_id to) (st_id st) route cs sagaId"
  have 1: "(saga_view v st from to ev 0)\<lparr>vw_events := vw_events (saga_view v st from to ev 0) @ [?ev cs]\<rparr> =
      saga_view v st from to (?ev cs) 1" for cs by simp
  show ?thesis
    unfolding transfer_def
    by (intro safe_intros assms(1); (simp only: 1 saga_views(3) [symmetric] saga_views(4) [symmetric] woken_def [symmetric])?)
      (use assms(2,3) in \<open>simp_all del: saga_view.simps\<close>)
qed

text \<open>What the guards have established when the saga starts.\<close>

definition saga_ready :: "view \<Rightarrow> string \<Rightarrow> string \<Rightarrow> stack \<Rightarrow> sleeve \<Rightarrow> sleeve \<Rightarrow> bool" where
  "saga_ready v f t st from to \<longleftrightarrow> map_of (vw_sleeves v) f = Some from \<and> map_of (vw_sleeves v) t = Some to \<and>
     sl_stackId from = sl_stackId to \<and> map_of (vw_stacks v) (sl_stackId from) = Some st \<and>
     sl_id from = f \<and> sl_id to = t \<and> st_id st = sl_stackId from \<and> cost \<le> tok (sl_tokens from) Routing"

text \<open>What a failed saga may leave: nothing, or a prefix of its steps with the source awake again or, if
  the compensation failed as well, still asleep.\<close>

definition saga_left :: "view \<Rightarrow> stack \<Rightarrow> sleeve \<Rightarrow> sleeve \<Rightarrow> view \<Rightarrow> bool" where
  "saga_left v st from to w \<longleftrightarrow> w = v \<or>
     (\<exists>n ev. n \<le> 3 \<and> (w = saga_view v st from to ev n \<or> w = woken (sl_id from) (saga_view v st from to ev n)))"

lemma rollback_safe:
  assumes "ext_ok X" "Q () w" "Q () (woken k w)"
  shows "safe X (rollback [bindA (x_sleeve_update X k (set_alive True)) (\<lambda>_. ret ())]) Q E w"
  unfolding rollback_def forA.simps
  by (intro safe_intros assms(1)) (use assms in \<open>simp_all add: woken_def\<close>)

definition saga_reply :: "view \<Rightarrow> stack \<Rightarrow> sleeve \<Rightarrow> sleeve \<Rightarrow> (string \<times> string \<times> nat) response \<Rightarrow> view \<Rightarrow> bool" where
  "saga_reply v st from to r w = (case r of
      Refused c m \<Rightarrow> c = 500 \<and> saga_left v st from to w
    | Reply (sagaId, route, n) \<Rightarrow> \<exists>cs. length cs = n \<and> w = woken (sl_id from) (saga_view v st from to
        (NeedlecastRoute (sl_id from) (sl_id to) (st_id st) route cs sagaId) 3))"

lemma saga_safe:
  assumes "ext_ok X"
  shows "safe X (saga X route sagaId st from to) (saga_reply v st from to) E v"
proof -
  have left: "saga_left v st from to v"
    "n \<le> 3 \<Longrightarrow> saga_left v st from to (saga_view v st from to ev n)"
    "n \<le> 3 \<Longrightarrow> saga_left v st from to (woken (sl_id from) (saga_view v st from to ev n))" for n ev
    by (auto simp: saga_left_def)
  have start: "v\<lparr>vw_sleeves := update_row (sl_id from) (set_alive False) (vw_sleeves v)\<rparr> = saga_view v st from to undefined 0"
    by simp
  have fail: "safe X (bindA (rollback [bindA (x_sleeve_update X (sl_id from) (set_alive True)) (\<lambda>_. ret ())])
      (\<lambda>_. ret (Refused 500 m))) (saga_reply v st from to) E (saga_view v st from to ev n)" if "n \<le> 3" for n ev m
    by (intro safe_bind rollback_safe safe_ret assms(1)) (use left that in \<open>auto simp: saga_reply_def\<close>)
  show ?thesis
    unfolding saga_def
  proof (rule safe_bind, rule safe_attempt, rule safe_sleeve_update [OF assms(1)], intro allI)
    fix e
    show "safe X (case Inl e of Inl e \<Rightarrow> bindA (rollback []) (\<lambda>_. ret (Refused 500 ''needlecast_failed'')) | Inr y \<Rightarrow> g y)
        (saga_reply v st from to) E v" for g
      using left(1) by (simp add: rollback_def safe_bind safe_ret saga_reply_def)
  next
    fix old
    show "safe X (case Inr (set_alive False old) of
          Inl e \<Rightarrow> bindA (rollback []) (\<lambda>_. ret (Refused 500 ''needlecast_failed''))
        | Inr _ \<Rightarrow> bindA (attempt (transfer X route sagaId st from to)) (\<lambda>done. case done of
           Inl e \<Rightarrow>
             bindA (rollback [bindA (x_sleeve_update X (sl_id from) (set_alive True)) (\<lambda>_. ret ())])
               (\<lambda>_. ret (Refused 500 ''needlecast_failed''))
         | Inr shards \<Rightarrow> ret (Reply (sagaId, route, length shards))))
      (saga_reply v st from to) E (v\<lparr>vw_sleeves := update_row (sl_id from) (set_alive False) (vw_sleeves v)\<rparr>)"
      unfolding start sum.case
    proof (rule safe_bind, rule safe_attempt, rule transfer_safe [OF assms(1)])
      show "\<forall>e. safe X (case Inl e of
           Inl e \<Rightarrow> bindA (rollback [bindA (x_sleeve_update X (sl_id from) (set_alive True)) (\<lambda>_. ret ())])
               (\<lambda>_. ret (Refused 500 ''needlecast_failed''))
         | Inr shards \<Rightarrow> ret (Reply (sagaId, route, length shards)))
         (saga_reply v st from to) E (saga_view v st from to ev n)" if "n \<le> 3" for n ev
        using fail [OF that] by simp
    qed (simp only: sum.case, rule safe_ret, auto simp: saga_reply_def simp del: saga_view.simps)
  qed
qed

lemma saga_view_parts:
  "vw_stacks (saga_view v st from to ev n) = vw_stacks v"
  "vw_audit (saga_view v st from to ev n) = vw_audit v"
  "map_of (vw_sleeves (saga_view v st from to ev n)) k = None \<longleftrightarrow> map_of (vw_sleeves v) k = None"
  by (induction n) (auto simp: Let_def)

subsection \<open>Properties\<close>

lemma needlecast_safe:
  assumes "ext_ok X" "reg_inv v"
  shows "safe X (needlecast X lib now f t)
    (\<lambda>r w. (case r of Refused c m \<Rightarrow> c \<in> {402, 404, 409} | _ \<Rightarrow> False) \<and> w = v \<or>
       (\<exists>st from to. saga_ready v f t st from to \<and> saga_reply v st from to r w))
    (\<lambda>w. w = v) v"
proof -
  have ready: "saga_ready v f t st from to"
    if "map_of (vw_sleeves v) f = Some from" "map_of (vw_sleeves v) t = Some to" "sl_stackId from = sl_stackId to"
      "map_of (vw_stacks v) (sl_stackId from) = Some st" "\<not> tok (sl_tokens from) Routing < cost" for st "from" to
    using that assms(2) by (auto simp: saga_ready_def reg_inv_sleeve_facts reg_inv_stack)
  show ?thesis
    unfolding needlecast_def
    by (intro safe_bind safe_sleeve_find [OF assms(1)] safe_option safe_if safe_ret safe_stack_find [OF assms(1)]
        safe_conseq [OF saga_safe [OF assms(1)]]; auto dest: ready)
qed



lemma saga_view_tok:
  assumes "saga_ready v f t st from to" "map_of (vw_sleeves v) k = Some s"
  shows "\<exists>s'. map_of (vw_sleeves (saga_view v st from to ev n)) k = Some s' \<and> sl_stackId s' = sl_stackId s \<and>
    tok (sl_tokens s') kd = tok (sl_tokens s) kd - (if k = f \<and> kd = Routing \<and> 3 \<le> n then cost else 0)"
proof (induction n)
  case 0
  with assms show ?case by (auto simp: set_alive_def)
next
  case (Suc n)
  then obtain s' where s': "map_of (vw_sleeves (saga_view v st from to ev n)) k = Some s'" "sl_stackId s' = sl_stackId s"
    "tok (sl_tokens s') kd = tok (sl_tokens s) kd - (if k = f \<and> kd = Routing \<and> 3 \<le> n then cost else 0)" by blast
  have ids: "sl_id from = f" "sl_id to = t" "k = f \<Longrightarrow> s = from" "k = t \<Longrightarrow> s = to"
    using assms by (auto simp: saga_ready_def)
  consider "n = 0" | "n = 1" | "2 \<le> n" by linarith
  then show ?case
  proof cases
    case 1
    with s' show ?thesis by (simp add: Let_def)
  next
    case 2
    with s' ids show ?thesis by (cases "k = t") (simp_all add: Let_def landed_def)
  next
    case 3
    then have "saga_view v st from to ev (Suc n) = (let w = saga_view v st from to ev n in
        w\<lparr>vw_sleeves := update_row f (settled from) (vw_sleeves w)\<rparr>)" using ids(1) by (simp add: Let_def)
    with s' ids 3 show ?thesis by (cases "k = f") (simp_all add: Let_def settled_def)
  qed
qed

definition charge_kept :: "string \<Rightarrow> string \<Rightarrow> view \<Rightarrow> sleeve \<Rightarrow> real \<Rightarrow> view \<Rightarrow> bool" where
  "charge_kept f k v s c w \<longleftrightarrow> vw_stacks w = vw_stacks v \<and>
     (\<exists>s'. map_of (vw_sleeves w) k = Some s' \<and> sl_stackId s' = sl_stackId s \<and>
       (\<forall>kd. tok (sl_tokens s') kd = tok (sl_tokens s) kd - (if k = f \<and> kd = Routing then c else 0)))"

lemma charge_kept_saga:
  assumes "saga_ready v f t st from to" "map_of (vw_sleeves v) k = Some s"
  shows "charge_kept f k v s (if 3 \<le> n then cost else 0) (saga_view v st from to ev n)"
    and "charge_kept f k v s (if 3 \<le> n then cost else 0) (woken f (saga_view v st from to ev n))"
proof -
  let ?c = "if 3 \<le> n then cost else 0"
  obtain s' where s': "map_of (vw_sleeves (saga_view v st from to ev n)) k = Some s'" "sl_stackId s' = sl_stackId s"
    using saga_view_tok [OF assms, where n = n and ev = ev] by blast
  have "tok (sl_tokens s') kd = tok (sl_tokens s) kd - (if k = f \<and> kd = Routing then ?c else 0)" for kd
    using saga_view_tok [OF assms, where n = n and ev = ev and kd = kd] s' by auto
  with s' show "charge_kept f k v s ?c (saga_view v st from to ev n)"
    "charge_kept f k v s ?c (woken f (saga_view v st from to ev n))"
    by (auto simp: charge_kept_def saga_view_parts woken_def set_alive_def)
qed

lemma charge_cases:
  assumes "map_of (vw_sleeves v) k = Some s"
    and "(case r of Refused c m \<Rightarrow> c \<in> {402, 404, 409} | _ \<Rightarrow> False) \<and> w = v \<or>
       (\<exists>st from to. saga_ready v f t st from to \<and> saga_reply v st from to r w)"
  shows "\<exists>c. c \<in> {0, cost} \<and> ((case r of Reply _ \<Rightarrow> True | _ \<Rightarrow> False) \<longrightarrow> c = cost) \<and> charge_kept f k v s c w \<and>
    (k = f \<longrightarrow> c = 0 \<or> c \<le> tok (sl_tokens s) Routing)"
  using assms(2)
proof (elim disjE conjE exE)
  assume "case r of Refused c m \<Rightarrow> c \<in> {402, 404, 409} | _ \<Rightarrow> False" "w = v"
  then show ?thesis using assms(1) by (intro exI [of _ 0]) (auto simp: charge_kept_def split: response.splits)
next
  fix st "from" to
  assume r: "saga_ready v f t st from to" "saga_reply v st from to r w"
  have f: "sl_id from = f" "k = f \<Longrightarrow> cost \<le> tok (sl_tokens s) Routing"
    using r(1) assms(1) by (auto simp: saga_ready_def)
  note kept = charge_kept_saga [OF r(1) assms(1)]
  show ?thesis
  proof (cases r)
    case (Reply x)
    obtain sagaId route n where x: "x = (sagaId, route, n)" by (cases x)
    with r(2) Reply obtain ev where "w = woken f (saga_view v st from to ev 3)" by (auto simp: saga_reply_def f(1))
    with kept(2) [of 3 ev] f(2) show ?thesis by (intro exI [of _ cost]) simp
  next
    case (Refused c m)
    with r(2) have "saga_left v st from to w" by (simp add: saga_reply_def)
    then consider "w = v" | n ev where "n \<le> 3" "w = saga_view v st from to ev n \<or> w = woken f (saga_view v st from to ev n)"
      unfolding saga_left_def f(1) by blast
    then show ?thesis
    proof cases
      case 1
      with assms(1) Refused show ?thesis by (intro exI [of _ 0]) (auto simp: charge_kept_def)
    next
      case 2
      with kept [of n ev] f(2) Refused show ?thesis
        by (intro exI [of _ "if 3 \<le> n then cost else 0"]) (auto simp: cost_def)
    qed
  qed
qed



subsection \<open>A world in which the saga fails\<close>

text \<open>In this world of tables the update that would set a sleeve with at most five routing tokens alive fails.\<close>

definition failing_ext :: "view ext" where
  "failing_ext = demo_ext\<lparr>x_sleeve_update := (\<lambda>k f s. case map_of (vw_sleeves s) k of
     None \<Rightarrow> (Inl ''P2025'', s)
   | Some old \<Rightarrow> if sl_alive (f old) \<and> tok (sl_tokens old) Routing \<le> 5 then (Inl ''timeout'', s)
       else (Inr (f old), s\<lparr>vw_sleeves := update_row k f (vw_sleeves s)\<rparr>))\<rparr>"

lemma ext_ok_failing: "ext_ok failing_ext"
  unfolding ext_ok_def
  by (intro conjI allI effect_simple)
    (auto simp: failing_ext_def demo_ext_def table_ext_def no_fragments_def split: if_splits option.splits)

text \<open>The transfer is not atomic from the caller's point of view, whatever the comment at the top of the file
  says.  There is a world with the documented effects in which the last step of a needlecast fails: the
  caller is told \<open>needlecast_failed\<close>, but the source has paid its five tokens and stays asleep, the target
  has been synchronised and the route has been announced.\<close>

lemma needlecast_not_atomic:
  "ext_ok failing_ext \<and> reg_inv demo_view \<and>
   (\<exists>w. needlecast failing_ext demo_noble 7 ''sa'' ''sb'' demo_view = (Inr (Refused 500 ''needlecast_failed''), w) \<and>
     length (vw_events w) = 1 \<and>
     map_option sl_alive (map_of (vw_sleeves w) ''sa'') = Some False \<and>
     map_option (\<lambda>s. tok (sl_tokens s) Routing) (map_of (vw_sleeves w) ''sa'') = Some 5 \<and>
     map_option sl_drift (map_of (vw_sleeves w) ''sb'') = Some 0)"
  by (intro conjI ext_ok_failing reg_inv_demo)
    (simp add: needlecast_def saga_def transfer_def shard_list_def head_links_def failing_ext_def demo_simps bindA_def
      ret_def attempt_def set_alive_def cost_def update_row_def landed_def settled_def rollback_def ignoreA_def set_tok_def)

text \<open>C23: in a world without faults a needlecast whose guards hold returns, with one shard for every
  fragment that the hippocampus recalled from the stack's head, down to depth eight.\<close>

theorem needlecast_succeeds:
  assumes "map_of (vw_sleeves v) f = Some from" "map_of (vw_sleeves v) t = Some to"
    and "sl_id from = f" "sl_id to = t" "sl_stackId from = sl_stackId to"
    and "map_of (vw_stacks v) (sl_stackId from) = Some st" "5 \<le> tok (sl_tokens from) Routing"
    and "\<And>a. ha_depth a = 8 \<Longrightarrow> \<exists>r. recall_reply a = Inr r \<and> hr_fragments r = Some fs"
    and "st_episodicHead st = Some (c # cs)"
  shows "\<exists>sagaId route w. needlecast (table_ext put_reply recall_reply) lib now f t v =
    (Inr (Reply (sagaId, route, length fs)), w)"
proof -
  have pins: "forA (\<lambda>c. ignoreA (x_hippo_pin (table_ext put_reply recall_reply) c)) cs s = (Inr (), s)" for cs s
    by (induction cs) (simp_all add: ret_def bindA_def ignoreA_def table_ext_def)
  obtain r where r: "recall_reply \<lparr>ha_rootCid = c # cs, ha_stackId = st_id st, ha_epoch = st_epoch st,
      ha_depth = 8, ha_memoryToken = 1000\<rparr> = Inr r" "hr_fragments r = Some fs"
    using assms(8) [of "\<lparr>ha_rootCid = c # cs, ha_stackId = st_id st, ha_epoch = st_epoch st,
      ha_depth = 8, ha_memoryToken = 1000\<rparr>"] by auto
  have shards: "shard_list (table_ext put_reply recall_reply) st s = (Inr (map hn_cid fs), s)" for s
    using assms(9) r by (simp add: shard_list_def head_links_def bindA_def table_ext_def ret_def)
  show ?thesis
    using assms(1-7) shards pins
    by (simp add: needlecast_def saga_def transfer_def attempt_def bindA_def ret_def cost_def table_calls)
qed

text \<open>A hippocampus that recalls one fragment.\<close>

definition demo_fragment :: hippo_node where
  "demo_fragment = \<lparr>hn_cid = ''ecca://head'', hn_ciphertext = \<lparr>ep_iv = [], ep_ct = [], ep_v = 1\<rparr>,
     hn_links = [], hn_epoch = 2, hn_kind = ''episodic'', hn_pinned = True, hn_stackId = st_id demo_stack\<rparr>"

definition one_fragment :: "hippo_recall_args \<Rightarrow> hippo_recall_reply result" where
  "one_fragment a = Inr \<lparr>hr_fragments = Some [demo_fragment], hr_broken = None, hr_fidelity = 1\<rparr>"

theorem needlecast_succeeds_witness:
  "\<exists>sagaId route w. needlecast (table_ext (\<lambda>i. Inl ''down'') one_fragment) demo_noble 7 ''sb'' ''sa'' demo_view =
     (Inr (Reply (sagaId, route, 1)), w)"
  using needlecast_succeeds [of demo_view "''sb''" "demo_sleeve ''sb''" "''sa''" "demo_sleeve ''sa''" demo_stack
      one_fragment "[demo_fragment]" "CHR ''e''" "''cca://head''" "\<lambda>i. Inl ''down''" demo_noble 7]
  by (simp add: demo_view_def demo_sleeve_def demo_stack_def one_fragment_def)

subsection \<open>The service keeps the registry invariant\<close>

lemma reg_inv_saga_view:
  assumes "reg_inv v" "saga_ready v f t st from to"
  shows "reg_inv (saga_view v st from to ev n)"
proof (induction n)
  case 0
  show ?case unfolding saga_view.simps
    by (rule reg_inv_update_sleeve) (simp_all add: assms(1) set_alive_def reg_inv_sleeve_facts [OF assms(1)])
next
  case (Suc n)
  have t: "tokens_ok (sl_tokens from)" "tokens_ok (sl_tokens to)"
    using assms reg_inv_sleeve_facts(2) by (auto simp: saga_ready_def)
  have land: "reg_inv (w\<lparr>vw_sleeves := update_row (sl_id to) (landed st to) (vw_sleeves w)\<rparr>)" if "reg_inv w" for w
    by (rule reg_inv_update_sleeve [OF that]) (simp add: landed_def tokens_ok_set [OF t(2)] tokens_okD [OF t(2)])
  have settle: "reg_inv (w\<lparr>vw_sleeves := update_row (sl_id from) (settled from) (vw_sleeves w)\<rparr>)" if "reg_inv w" for w
    using assms(2)
    by (intro reg_inv_update_sleeve [OF that])
      (simp add: settled_def saga_ready_def tokens_ok_set [OF t(1)] reg_inv_sleeve_facts(3) [OF that])
  show ?case unfolding saga_view.simps Let_def
    using Suc land [OF Suc] settle [OF Suc] by (simp only: reg_inv_other split: if_split) blast
qed

lemma reg_inv_woken: "reg_inv v \<Longrightarrow> reg_inv (woken k v)"
  unfolding woken_def by (rule reg_inv_update_sleeve) (auto simp: set_alive_def reg_inv_sleeve_facts)

lemma needlecast_inv:
  assumes "ext_ok X" "reg_inv v"
  shows "safe X (needlecast X lib now f t) (\<lambda>_. reg_inv) reg_inv v"
proof (rule safe_conseq [OF needlecast_safe [OF assms]])
  fix r w
  assume "(case r of Refused c m \<Rightarrow> c \<in> {402, 404, 409} | _ \<Rightarrow> False) \<and> w = v \<or>
       (\<exists>st from to. saga_ready v f t st from to \<and> saga_reply v st from to r w)"
  then show "reg_inv w"
    using assms(2) reg_inv_saga_view [OF assms(2)] reg_inv_woken
    by (fastforce simp: saga_reply_def saga_left_def simp del: saga_view.simps split: response.splits)
qed (use assms in simp)

fun needlecast_api :: "noble \<Rightarrow> 's ext \<Rightarrow> nat \<times> string \<times> string \<Rightarrow> ('s, unit) act" where
  "needlecast_api lib X (now, f, t) = bindA (needlecast X lib now f t) (\<lambda>_. ret ())"

interpretation needle_api: service "needlecast_api lib" reg_inv for lib
proof
  fix X :: "'a ext" and v q
  assume "ext_ok X" "reg_inv v"
  then show "safe X (needlecast_api lib X q) (\<lambda>_. reg_inv) reg_inv v"
    by (cases q; simp only: needlecast_api.simps; intro safe_bind safe_conseq [OF needlecast_inv])
      (simp_all add: safe_ret)
qed

end
