(* ===== verification/Compositor.thy ===== *)
theory Compositor
  imports Needlecast
begin

text \<open>
  \<^verbatim>\<open>services/dhf-compositor/src/server.ts\<close>: reconstruction of a stack's memory, recall from the
  hippocampus and decryption of every fragment under the stack's current epoch key.
\<close>

subsection \<open>The handler\<close>

text \<open>An entry of the reply carries the text or the error of its fragment.\<close>

record decoded =
  de_cid :: string
  de_epoch :: nat
  de_text :: "string result"

definition decode :: "noble \<Rightarrow> bytes \<Rightarrow> hippo_node \<Rightarrow> decoded" where
  "decode lib key frag = \<lparr>de_cid = hn_cid frag, de_epoch = hn_epoch frag, de_text = decrypt lib (hn_ciphertext frag) key\<rparr>"

text \<open>\<open>Number(s?.tokens?.memory ?? body.depth)\<close>.\<close>

definition memory_budget :: "'s ext \<Rightarrow> string option \<Rightarrow> nat \<Rightarrow> ('s, real) act" where
  "memory_budget X sleeveId depth = (case sleeveId of
     None \<Rightarrow> ret (real depth)
   | Some i \<Rightarrow> if i = [] then ret (real depth) else bindA (x_sleeve_find X i) (\<lambda>s. ret (case s of
       None \<Rightarrow> real depth
     | Some s \<Rightarrow> (case map_of (sl_tokens s) Memory of None \<Rightarrow> real depth | Some m \<Rightarrow> m))))"

definition reconstruct ::
  "'s ext \<Rightarrow> noble \<Rightarrow> string \<Rightarrow> string \<Rightarrow> string option \<Rightarrow> nat option \<Rightarrow>
   ('s, (decoded list \<times> string list option \<times> real) response) act" where
  "reconstruct X lib ms stackId sleeveId depth_opt =
     (let depth = (case depth_opt of None \<Rightarrow> 8 | Some d \<Rightarrow> d) in
      if depth < 1 \<or> 64 < depth then throwA ''ZodError''
      else bindA (x_stack_find X stackId) (\<lambda>found. case found of
        None \<Rightarrow> ret (Refused 404 ''stack not found'')
      | Some st \<Rightarrow>
          (case head_links st of
             [] \<Rightarrow> ret (Reply ([], Some [], 1))
           | head # _ \<Rightarrow>
               bindA (memory_budget X sleeveId depth) (\<lambda>memoryToken.
               bindA (x_hippo_recall X \<lparr>ha_rootCid = head, ha_stackId = st_id st, ha_epoch = st_epoch st,
                   ha_depth = depth, ha_memoryToken = memoryToken\<rparr>) (\<lambda>r.
               case hr_fragments r of
                 None \<Rightarrow> throwA ''TypeError''
               | Some fs \<Rightarrow>
                   ret (Reply (map (decode lib (epochKey lib ms (st_id st) (st_epoch st))) fs,
                     hr_broken r, hr_fidelity r)))))))"

subsection \<open>Properties\<close>

lemma memory_budget_safe [safe_intros]:
  "ext_ok X \<Longrightarrow> E v \<Longrightarrow> (\<And>m. Q m v) \<Longrightarrow> safe X (memory_budget X i d) Q E v"
  unfolding memory_budget_def by (intro safe_intros) simp_all

text \<open>Reconstruction only reads.\<close>

lemma reconstruct_reads:
  "ext_ok X \<Longrightarrow> safe X (reconstruct X lib ms i sl d) (\<lambda>_ w. w = v) (\<lambda>w. w = v) v"
  unfolding reconstruct_def Let_def by (intro safe_intros) simp_all

fun reconstruct_api :: "noble \<Rightarrow> string \<Rightarrow> 's ext \<Rightarrow> string \<times> string option \<times> nat option \<Rightarrow> ('s, unit) act" where
  "reconstruct_api lib ms X (i, sl, d) = bindA (reconstruct X lib ms i sl d) (\<lambda>_. ret ())"

interpretation reconstruct_api: service "reconstruct_api lib ms" reg_inv for lib ms
proof
  fix X :: "'a ext" and v and q :: "string \<times> string option \<times> nat option"
  assume a: "ext_ok X" "reg_inv v"
  obtain i sl d where "q = (i, sl, d)" by (cases q)
  with a show "safe X (reconstruct_api lib ms X q) (\<lambda>_. reg_inv) reg_inv v"
    by (auto intro!: safe_bind safe_ret safe_conseq [OF reconstruct_reads])
qed

text \<open>What the gateway posts to the hippocampus when it remembers a text.\<close>

definition memory_of :: "noble \<Rightarrow> string \<Rightarrow> bytes \<Rightarrow> stack \<Rightarrow> string \<Rightarrow> enc_payload result" where
  "memory_of lib ms rnd st txt = encrypt lib rnd (Str txt) (epochKey lib ms (st_id st) (st_epoch st))"

lemma remember_puts_memory_of:
  "remember X lib ms rnd i txt pin = (if txt = [] then throwA ''ZodError''
     else bindA (x_stack_find X i) (\<lambda>found. case found of
        None \<Rightarrow> ret (Refused 404 ''not found'')
      | Some st \<Rightarrow>
          bindA (lift (memory_of lib ms rnd st txt)) (\<lambda>ciphertext.
          bindA (x_hippo_put X \<lparr>hp_stackId = st_id st, hp_epoch = st_epoch st, hp_ciphertext = ciphertext,
              hp_links = head_links st, hp_kind = ''episodic'', hp_pinned = (pin = Some True)\<rparr>) (\<lambda>c.
          bindA (x_stack_update X (st_id st) (\<lambda>s. s\<lparr>st_episodicHead := Some c\<rparr>)) (\<lambda>_.
          ret (Reply c))))))"
  by (simp only: remember_def memory_of_def)

text \<open>C10: what the gateway encrypts, the compositor gives back: if the hippocampus recalls fragments that were
  remembered for the stack in its current epoch, with texts \<open>ts\<close>, in any order and however often, the reply lists
  exactly these texts, fragment by fragment, with the recalled fidelity.\<close>

theorem reconstruct_remembered:
  assumes "noble_ok lib"
    and "map_of (vw_stacks v) i = Some st" "st_episodicHead st = Some (c # cs)" "1 \<le> d" "d \<le> 64"
    and "\<And>a. ha_depth a = d \<Longrightarrow> ha_stackId a = st_id st \<Longrightarrow> \<exists>r. recall_reply a = Inr r \<and> hr_fragments r = Some fs"
    and "list_all2 (\<lambda>f txt. \<exists>rnd. length rnd = 12 \<and> memory_of lib ms rnd st txt = Inr (hn_ciphertext f)) fs ts"
  shows "\<exists>ds broken fidelity. reconstruct (table_ext put_reply recall_reply) lib ms i None (Some d) v =
      (Inr (Reply (ds, broken, fidelity)), v) \<and> map de_text ds = map Inr ts \<and> map de_cid ds = map hn_cid fs"
proof -
  let ?k = "epochKey lib ms (st_id st) (st_epoch st)"
  let ?a = "\<lparr>ha_rootCid = c # cs, ha_stackId = st_id st, ha_epoch = st_epoch st, ha_depth = d, ha_memoryToken = real d\<rparr>"
  obtain r where r: "recall_reply ?a = Inr r" "hr_fragments r = Some fs" using assms(6) [of ?a] by auto
  have dec: "decrypt lib p ?k = Inr t" if "length rnd = 12" "memory_of lib ms rnd st t = Inr p" for p t rnd
    using encrypt_decrypt [OF assms(1) that(1), of t ms "st_id st" "st_epoch st"] that by (simp add: memory_of_def)
  have "map (\<lambda>f. decrypt lib (hn_ciphertext f) ?k) fs = map Inr ts"
    using assms(7) by (induction rule: list_all2_induct) (auto simp: dec)
  moreover have "reconstruct (table_ext put_reply recall_reply) lib ms i None (Some d) v =
      (Inr (Reply (map (decode lib ?k) fs, hr_broken r, hr_fidelity r)), v)"
    using assms(2-5) r
    by (simp add: reconstruct_def head_links_def memory_budget_def bindA_def ret_def table_calls)
  ultimately show ?thesis by (simp add: decode_def comp_def)
qed

definition rain_fragment :: hippo_node where
  "rain_fragment = demo_fragment\<lparr>hn_ciphertext := \<lparr>ep_iv = hex_of (replicate 12 0),
     ep_ct = hex_of (utf8 ''rain'' @ epochKey demo_noble ''m'' (st_id demo_stack) 2), ep_v = 1\<rparr>\<rparr>"

theorem reconstruct_remembered_witness:
  "\<exists>d broken fidelity. reconstruct (table_ext (\<lambda>i. Inl ''down'')
       (\<lambda>a. Inr \<lparr>hr_fragments = Some [rain_fragment], hr_broken = None, hr_fidelity = 1\<rparr>)) demo_noble ''m''
       (st_id demo_stack) None (Some 3) demo_view = (Inr (Reply ([d], broken, fidelity)), demo_view) \<and>
     de_text d = Inr ''rain''"
proof -
  have st: "map_of (vw_stacks demo_view) (st_id demo_stack) = Some demo_stack" by (simp add: demo_view_def)
  have "memory_of demo_noble ''m'' (replicate 12 0) demo_stack ''rain'' = Inr (hn_ciphertext rain_fragment)"
    using lift_encrypt_demo [of "''rain''" "''m''" "st_id demo_stack" 2 demo_view]
    by (simp add: memory_of_def rain_fragment_def lift_def) (simp add: demo_stack_def)
  then have "list_all2 (\<lambda>f txt. \<exists>rnd. length rnd = 12 \<and> memory_of demo_noble ''m'' rnd demo_stack txt = Inr (hn_ciphertext f))
      [rain_fragment] [''rain'']" by (auto intro!: exI [of _ "replicate 12 0"])
  from reconstruct_remembered [OF noble_ok_demo st _ _ _ _ this, of "CHR ''e''" "''cca://head''" 3
      "\<lambda>a. Inr \<lparr>hr_fragments = Some [rain_fragment], hr_broken = None, hr_fidelity = 1\<rparr>" "\<lambda>i. Inl ''down''"]
  obtain ds broken fidelity where "reconstruct (table_ext (\<lambda>i. Inl ''down'')
       (\<lambda>a. Inr \<lparr>hr_fragments = Some [rain_fragment], hr_broken = None, hr_fidelity = 1\<rparr>)) demo_noble ''m''
       (st_id demo_stack) None (Some 3) demo_view = (Inr (Reply (ds, broken, fidelity)), demo_view)"
    "map de_text ds = [Inr ''rain'']"
    by (auto simp: demo_stack_def)
  then show ?thesis by (cases ds) auto
qed

end
