(* ===== verification/Bus.thy ===== *)
theory Bus
  imports Siyana
begin

text \<open>
  The event taxonomy and the axonal bus: \<^verbatim>\<open>packages/proto/src/events.ts\<close> (the id formats, the event types,
  the subject conventions and the stream) and \<^verbatim>\<open>packages/bus/src/index.ts\<close> (subjects of published events
  and the consumer loop).  How the NATS server matches a subject against a filter is a parameter;
  \<open>nats_ok\<close> states the two documented rules the code relies on.
\<close>

subsection \<open>Id formats\<close>

definition is_lower :: "char \<Rightarrow> bool" where
  "is_lower c \<longleftrightarrow> (let n = of_char c :: nat in 97 \<le> n \<and> n \<le> 122)"

text \<open>
  The regular expressions \<^verbatim>\<open>^pre:[a-z]+:\d+:[0-9a-f]+$\<close>: no class contains a colon, so matching greedily
  field by field is the same as matching.
\<close>

definition id_format :: "string \<Rightarrow> string \<Rightarrow> bool" where
  "id_format pre s =
     (let p = pre @ '':''; r = drop (length p) s;
          word = takeWhile is_lower r; r1 = dropWhile is_lower r;
          r2 = drop 1 r1; num = takeWhile is_digit r2; r3 = dropWhile is_digit r2
      in take (length p) s = p \<and> word \<noteq> [] \<and> take 1 r1 = '':'' \<and> num \<noteq> [] \<and> take 1 r3 = '':'' \<and>
         drop 1 r3 \<noteq> [] \<and> list_all is_hex_char (drop 1 r3))"

definition StackId :: "string \<Rightarrow> bool" where
  "StackId s = id_format ''stack'' s"

definition SleeveId :: "string \<Rightarrow> bool" where
  "SleeveId s = id_format ''sleeve'' s"

definition EmbodimentType :: "string list" where
  "EmbodimentType = [''human'', ''ai'', ''mining'', ''memory'']"

subsection \<open>Events and subjects\<close>

fun event_type :: "event \<Rightarrow> string" where
  "event_type (StackCreated _ _ _ _ _) = ''stack.created''"
| "event_type (SleeveSpawned _ _ _) = ''sleeve.spawned''"
| "event_type (SleeveDecommissioned _ _) = ''sleeve.decommissioned''"
| "event_type (SleevePerceive _ _ _ _) = ''sleeve.perceive''"
| "event_type (MemoryRecall _ _ _ _ _) = ''memory.recall''"
| "event_type (NeedlecastRoute _ _ _ _ _ _) = ''needlecast.route''"
| "event_type (EpochTransition _ _) = ''epoch.transition''"
| "event_type (SleeveDrift _ _ _) = ''sleeve.drift''"
| "event_type (SleeveDesync _ _ _) = ''sleeve.desync''"
| "event_type (ResidueDetected _ _ _) = ''coordination.residue.detected''"

text \<open>The types of the discriminated union \<open>EccaEvent\<close>.\<close>

definition EccaEvent :: "string list" where
  "EccaEvent = [''stack.created'', ''sleeve.spawned'', ''sleeve.decommissioned'', ''sleeve.perceive'', ''memory.recall'',
     ''needlecast'', ''sleeve.drift'', ''cross-chain.desync'', ''residue.detected'', ''residue.resolved'',
     ''epoch.transition'', ''coordination.tick'']"

definition SUBJECTS :: "(string \<times> string) list" where
  "SUBJECTS = [(''stacks'', ''ecca.stacks.>''), (''sleeves'', ''ecca.sleeves.>''), (''needlecast'', ''ecca.needlecast.>''),
     (''memory'', ''ecca.memory.>''), (''residue'', ''ecca.residue.>''), (''epoch'', ''ecca.epoch.>''),
     (''coordination'', ''ecca.coordination.>'')]"

definition STREAM_SUBJECTS :: "string list" where
  "STREAM_SUBJECTS = [''ecca.>'']"

text \<open>\<open>event.type.replace(/\./g, '.')\<close> replaces every dot by a dot.\<close>

definition subject :: "event \<Rightarrow> string" where
  "subject ev = ''ecca.'' @ event_type ev"

definition nats_ok :: "(string \<Rightarrow> string \<Rightarrow> bool) \<Rightarrow> bool" where
  "nats_ok matches \<longleftrightarrow>
     (\<forall>p s. CHR ''*'' \<notin> set p \<and> CHR ''>'' \<notin> set p \<longrightarrow>
        matches (p @ ''.>'') s = (take (length p + 1) s = p @ ''.'' \<and> length p + 1 < length s) \<and>
        matches p s = (s = p))"

text \<open>A matcher with these rules; patterns with a star match nothing here.\<close>

definition demo_matches :: "string \<Rightarrow> string \<Rightarrow> bool" where
  "demo_matches p s =
     (if 2 \<le> length p \<and> drop (length p - 2) p = ''.>''
      then take (length p - 1) s = take (length p - 1) p \<and> length p - 1 < length s
      else s = p)"

lemma nats_ok_demo [simp]: "nats_ok demo_matches"
proof -
  have "drop n p \<noteq> ''.>''" if "CHR ''>'' \<notin> set p" for n p
    using that in_set_dropD [of "CHR ''>''" n p] by auto
  then show ?thesis by (auto simp: nats_ok_def demo_matches_def)
qed

subsection \<open>The consumer loop\<close>

datatype disposition = Ack | Nak

definition handle_message :: "('m \<Rightarrow> ('s, unit) act) \<Rightarrow> 'm \<Rightarrow> 's \<Rightarrow> disposition \<times> 's" where
  "handle_message handler m s = (case handler m s of (Inr _, s') \<Rightarrow> (Ack, s') | (Inl _, s') \<Rightarrow> (Nak, s'))"

fun consume :: "('m \<Rightarrow> ('s, unit) act) \<Rightarrow> 'm list \<Rightarrow> 's \<Rightarrow> ('m \<times> disposition) list \<times> 's" where
  "consume handler [] s = ([], s)"
| "consume handler (m # ms) s =
     (case handle_message handler m s of (d, s') \<Rightarrow> (case consume handler ms s' of (ds, s'') \<Rightarrow> ((m, d) # ds, s'')))"

subsection \<open>Properties\<close>

lemma dropWhile_stop: "list_all p xs \<Longrightarrow> \<not> p c \<Longrightarrow> takeWhile p (xs @ c # ys) = xs \<and> dropWhile p (xs @ c # ys) = c # ys"
  by (simp add: list_all_iff takeWhile_tail dropWhile_append)

lemma id_formatI:
  assumes "list_all is_lower w" "w \<noteq> []" "list_all is_hex_char h" "h \<noteq> []"
  shows "id_format pre (pre @ '':'' @ w @ '':'' @ dec n @ '':'' @ h)"
proof -
  have c: "\<not> is_lower CHR '':''" "\<not> is_digit CHR '':''" by (simp_all add: is_lower_def is_digit_def)
  show ?thesis
    using assms dropWhile_stop [OF assms(1) c(1), of "dec n @ '':'' @ h"] dropWhile_stop [OF list_all_digit_dec c(2), of n h]
    by (simp add: id_format_def Let_def)
qed

text \<open>Every id the gateway makes has the format its events promise: a new stack's id is a \<open>StackId\<close> and
  a new sleeve's id a \<open>SleeveId\<close>, for every kind the request schema accepts, every count and every clock.\<close>

lemma new_ids_valid:
  assumes "noble_ok lib"
  shows "list_all (\<lambda>kind. StackId (st_id (new_stack lib now priv name kind n))) [''human'', ''ai''] \<and>
    list_all (\<lambda>kind. SleeveId (sl_id (new_sleeve lib now st kind host n))) EmbodimentType"
proof -
  have hex: "list_all is_hex_char (take m (sha256hex lib x))" "0 < m \<Longrightarrow> take m (sha256hex lib x) \<noteq> []" for m x
  proof -
    have h: "sha256hex lib x = hex_of (n_sha256 lib (blob_bytes lib (content_blob x)))" by (rule sha256hex_eq [OF assms])
    show "list_all is_hex_char (take m (sha256hex lib x))"
      unfolding h by (auto simp: list_all_iff dest!: in_set_takeD is_hex_char_hex_of)
    have "length (sha256hex lib x) = 64" unfolding h by (simp add: length_sha256 [OF assms])
    then show "0 < m \<Longrightarrow> take m (sha256hex lib x) \<noteq> []" by (cases "sha256hex lib x") auto
  qed
  have low: "list_all is_lower ''human''" "list_all is_lower ''ai''" "list_all is_lower ''mining''" "list_all is_lower ''memory''"
    by (simp_all add: is_lower_def)
  have "StackId (st_id (new_stack lib now priv name kind n))" if "list_all is_lower kind" "kind \<noteq> []" for kind
    using id_formatI [OF that hex(1) [of 12 "Raw (Str (name @ dec now))"] hex(2) [of 12 "Raw (Str (name @ dec now))"], of "''stack''" n]
    by (simp add: StackId_def new_stack_def)
  moreover have "SleeveId (sl_id (new_sleeve lib now st kind host n))" if "list_all is_lower kind" "kind \<noteq> []" for kind
    using id_formatI [OF that hex(1) [of 8 "Raw (Str (st_id st @ dec now))"] hex(2) [of 8 "Raw (Str (st_id st @ dec now))"], of "''sleeve''" n]
    by (simp add: SleeveId_def new_sleeve_def)
  ultimately show ?thesis using low by (simp add: EmbodimentType_def)
qed

lemma new_ids_valid_witness:
  "StackId (st_id (new_stack demo_noble 1700000000 (replicate 32 7) ''ada'' ''ai'' 12)) \<and>
   SleeveId (sl_id (new_sleeve demo_noble 1700000000 demo_stack ''memory'' None 1))"
  using new_ids_valid [OF noble_ok_demo, of 1700000000 "replicate 32 7" "''ada''" 12 demo_stack None]
    new_ids_valid [OF noble_ok_demo, of 1700000000 "replicate 32 7" "''ada''" 1 demo_stack None]
  by (simp add: EmbodimentType_def)

text \<open>Every published event reaches the stream.  But the published subjects and the taxonomy have drifted apart:
  three of the ten published types are not in the union \<open>EccaEvent\<close>, and no published event is on the
  subjects that \<open>SUBJECTS\<close> gives for stacks, sleeves and residues.\<close>

lemma bus_subjects:
  assumes "nats_ok matches"
  shows "list_ex (\<lambda>p. matches p (subject ev)) STREAM_SUBJECTS \<and>
    (event_type ev \<in> set EccaEvent) = (case ev of NeedlecastRoute _ _ _ _ _ _ \<Rightarrow> False | SleeveDesync _ _ _ \<Rightarrow> False
      | ResidueDetected _ _ _ \<Rightarrow> False | _ \<Rightarrow> True) \<and>
    list_all (\<lambda>k. map_option (\<lambda>p. matches p (subject ev)) (map_of SUBJECTS k) = Some False)
      [''stacks'', ''sleeves'', ''residue'']"
proof -
  have m: "matches (p @ ''.>'') s = (take (length p + 1) s = p @ ''.'' \<and> length p + 1 < length s)"
    if "CHR ''*'' \<notin> set p" "CHR ''>'' \<notin> set p" for p s
    using assms that unfolding nats_ok_def by blast
  show ?thesis
    using m [of "''ecca''"] m [of "''ecca.stacks''"] m [of "''ecca.sleeves''"] m [of "''ecca.residue''"]
    by (cases ev) (simp_all add: STREAM_SUBJECTS_def SUBJECTS_def EccaEvent_def subject_def)
qed

lemma bus_subjects_witness:
  "demo_matches ''ecca.>'' (subject (EpochTransition 3 [])) \<and>
   \<not> demo_matches ''ecca.stacks.>'' (subject (StackCreated [] [] [] 1 []))"
  using bus_subjects [OF nats_ok_demo, of "EpochTransition 3 []"] bus_subjects [OF nats_ok_demo, of "StackCreated [] [] [] 1 []"]
  by (simp add: STREAM_SUBJECTS_def SUBJECTS_def)
end
