(* ===== verification/Thalamus.thy ===== *)
theory Thalamus
  imports Bus "HOL-Library.Sublist"
begin

text \<open>
  \<^verbatim>\<open>services/thalamus-router/src/server.ts\<close>: the three event buffers, and the tick that folds them into a
  coherence root, anchors it and announces the epoch.  Medulla, the cortex wallet and the proof service
  are calls of a parameter \<^theory_text>\<open>chain\<close>; \<open>matches\<close> is the subject matching of the bus.
\<close>

subsection \<open>The buffers\<close>

record thalamus =
  th_epoch :: nat
  th_evm :: "string list"
  th_ipfs :: "string list"
  th_sleeves :: "string list"

definition thalamus_start :: thalamus where
  "thalamus_start = \<lparr>th_epoch = 0, th_evm = [], th_ipfs = [], th_sleeves = []\<rparr>"

text \<open>The fields the handlers read from an event: \<open>ev.cid\<close>, \<open>ev.txHash\<close> and \<open>ev.sleeveId ?? ev.stackId\<close>.\<close>

fun event_cid :: "event \<Rightarrow> string option" where
  "event_cid (SleevePerceive _ _ c _) = Some c"
| "event_cid _ = None"

definition event_txHash :: "event \<Rightarrow> string option" where
  "event_txHash ev = None"

fun event_id :: "event \<Rightarrow> string option" where
  "event_id (StackCreated i _ _ _ _) = Some i"
| "event_id (SleeveSpawned i _ _) = Some i"
| "event_id (SleeveDecommissioned i _) = Some i"
| "event_id (SleevePerceive i _ _ _) = Some i"
| "event_id (MemoryRecall i _ _ _ _) = Some i"
| "event_id (NeedlecastRoute _ _ i _ _ _) = Some i"
| "event_id (EpochTransition _ _) = None"
| "event_id (SleeveDrift i _ _) = Some i"
| "event_id (SleeveDesync i _ _) = Some i"
| "event_id (ResidueDetected _ _ i) = Some i"

text \<open>\<open>JSON.stringify\<close> of a string and of the object \<open>{ t, id }\<close>, whose \<open>id\<close> is left out when it is undefined.\<close>

definition json_char :: "char \<Rightarrow> string" where
  "json_char c = (let n = of_char c :: nat in
     if c = CHR 0x22 then [CHR 0x5C, CHR 0x22] else if c = CHR 0x5C then [CHR 0x5C, CHR 0x5C]
     else if n = 8 then [CHR 0x5C, CHR ''b''] else if n = 9 then [CHR 0x5C, CHR ''t'']
     else if n = 10 then [CHR 0x5C, CHR ''n''] else if n = 12 then [CHR 0x5C, CHR ''f'']
     else if n = 13 then [CHR 0x5C, CHR ''r'']
     else if n < 32 then [CHR 0x5C, CHR ''u'', CHR ''0'', CHR ''0''] @ hex_byte (word_of_nat n) else [c])"

definition json_string :: "string \<Rightarrow> string" where
  "json_string s = [CHR 0x22] @ concat (map json_char s) @ [CHR 0x22]"

definition event_json :: "event \<Rightarrow> string" where
  "event_json ev = ''{'' @ json_string ''t'' @ '':'' @ json_string (event_type ev) @
     (case event_id ev of None \<Rightarrow> [] | Some i \<Rightarrow> '','' @ json_string ''id'' @ '':'' @ json_string i) @ ''}''"

definition on_memory :: "noble \<Rightarrow> event \<Rightarrow> thalamus \<Rightarrow> thalamus" where
  "on_memory lib ev t = (case event_cid ev of
     None \<Rightarrow> t
   | Some c \<Rightarrow> if c = [] then t else t\<lparr>th_ipfs := th_ipfs t @ [sha256hex lib (Raw (Str c))]\<rparr>)"

definition on_sleeve :: "noble \<Rightarrow> event \<Rightarrow> thalamus \<Rightarrow> thalamus" where
  "on_sleeve lib ev t = t\<lparr>th_sleeves := th_sleeves t @ [sha256hex lib (Raw (Str (event_json ev)))]\<rparr>"

definition on_evm :: "event \<Rightarrow> thalamus \<Rightarrow> thalamus" where
  "on_evm ev t = (case event_txHash ev of
     None \<Rightarrow> t
   | Some h \<Rightarrow> if h = [] then t else t\<lparr>th_evm := th_evm t @ [h]\<rparr>)"

text \<open>Delivery of one published event to the three subscriptions.\<close>

definition receive :: "(string \<Rightarrow> string \<Rightarrow> bool) \<Rightarrow> noble \<Rightarrow> event \<Rightarrow> thalamus \<Rightarrow> thalamus" where
  "receive matches lib ev t =
     (let t1 = (if matches ''ecca.memory.>'' (subject ev) then on_memory lib ev t else t);
          t2 = (if matches ''ecca.sleeve.>'' (subject ev) then on_sleeve lib ev t1 else t1)
      in if matches ''ecca.chain.evm.>'' (subject ev) then on_evm ev t2 else t2)"

subsection \<open>The tick\<close>

definition zero_root :: string where
  "zero_root = replicate 64 CHR ''0''"

definition fold_root :: "noble \<Rightarrow> string list \<Rightarrow> string" where
  "fold_root lib hs = (if hs \<noteq> [] then merkleRoot lib (map Str hs) else zero_root)"

definition tick_roots :: "noble \<Rightarrow> thalamus \<Rightarrow> shard_roots" where
  "tick_roots lib t = \<lparr>sr_evm = fold_root lib (th_evm t), sr_btc = zero_root, sr_ipfs = fold_root lib (th_ipfs t),
     sr_sleeves = fold_root lib (th_sleeves t)\<rparr>"

record anchor_reply =
  an_height :: "nat option"
  an_blockHash :: "string option"
  an_epoch :: "nat option"

record commit_args =
  cm_epoch :: nat
  cm_roots :: "string list"
  cm_height :: nat

record 's chain =
  c_submit :: "string \<Rightarrow> string \<Rightarrow> string \<Rightarrow> string \<Rightarrow> ('s, anchor_reply) act"
  c_proof :: "string option \<Rightarrow> ('s, string) act"
  c_commit :: "commit_args \<Rightarrow> ('s, unit) act"

definition or_else :: "'a option \<Rightarrow> 'a \<Rightarrow> 'a" where
  "or_else x d = (case x of None \<Rightarrow> d | Some y \<Rightarrow> y)"

text \<open>\<open>0x\<close> and the digits without an \<open>0x\<close> of their own, padded with zeros to 64.\<close>

definition pad :: "string \<Rightarrow> string" where
  "pad hex = (let h = (if take 2 hex = ''0x'' then drop 2 hex else hex) in ''0x'' @ replicate (64 - length h) CHR ''0'' @ h)"

definition drained :: "thalamus \<Rightarrow> thalamus" where
  "drained t = t\<lparr>th_evm := [], th_ipfs := [], th_sleeves := []\<rparr>"

definition bridge :: "'s chain \<Rightarrow> bool \<Rightarrow> nat \<Rightarrow> string \<Rightarrow> shard_roots \<Rightarrow> string \<Rightarrow> nat \<Rightarrow> ('s, unit) act" where
  "bridge C deployed epoch cross r synaptic height =
     (if deployed
      then ignoreA (c_commit C \<lparr>cm_epoch = epoch,
        cm_roots = [pad cross, pad (sr_evm r), pad (sr_ipfs r), pad (sr_sleeves r), pad synaptic], cm_height = height\<rparr>)
      else ret ())"

definition tick_epoch_row :: "nat \<Rightarrow> string \<Rightarrow> shard_roots \<Rightarrow> anchor_reply \<Rightarrow> epoch_row" where
  "tick_epoch_row epoch cross r a = \<lparr>ep_number = epoch, ep_crossRoot = cross, ep_evmRoot = sr_evm r,
     ep_ipfsRoot = sr_ipfs r, ep_sleevesRoot = sr_sleeves r, ep_medullaHeight = or_else (an_height a) 0,
     ep_anchorBlockHash = an_blockHash a\<rparr>"

text \<open>
  Everything after the roots were read.  The result is the current epoch and whether the end of the
  \<open>try\<close> block, which clears the buffers, is reached: only publishing can throw, all other calls are caught.
\<close>

definition tick_chain :: "'s ext \<Rightarrow> 's chain \<Rightarrow> noble \<Rightarrow> bool \<Rightarrow> nat \<Rightarrow> shard_roots \<Rightarrow> ('s, nat \<times> bool) act" where
  "tick_chain X C lib deployed current r =
     (let cross = coherenceRoot lib r in
      bindA (tryA (bindA (c_submit C cross (sr_evm r) (sr_ipfs r) (sr_sleeves r)) (\<lambda>a. ret (Some a))) (\<lambda>_. ret None)) (\<lambda>anchor.
      case anchor of
        None \<Rightarrow> ret (current, True)
      | Some a \<Rightarrow>
          let epoch = or_else (an_epoch a) (current + 1) in
          bindA (tryA (c_proof C (an_blockHash a)) (\<lambda>_. ret zero_root)) (\<lambda>synaptic.
          bindA (bridge C deployed epoch cross r synaptic (or_else (an_height a) 0)) (\<lambda>_.
          bindA (ignoreA (x_epoch_upsert X (tick_epoch_row epoch cross r a))) (\<lambda>_.
          tryA (bindA (x_publish X (EpochTransition epoch cross)) (\<lambda>_. ret (epoch, True))) (\<lambda>_. ret (epoch, False)))))))"

definition tick_end :: "nat \<times> bool \<Rightarrow> thalamus \<Rightarrow> thalamus" where
  "tick_end out t = (case out of (epoch, cleared) \<Rightarrow>
     let t' = t\<lparr>th_epoch := epoch\<rparr> in if cleared then drained t' else t')"

text \<open>A tick during which no event arrives.\<close>

definition tick :: "'s ext \<Rightarrow> 's chain \<Rightarrow> noble \<Rightarrow> bool \<Rightarrow> thalamus \<Rightarrow> ('s, thalamus) act" where
  "tick X C lib deployed t = bindA (tick_chain X C lib deployed (th_epoch t) (tick_roots lib t)) (\<lambda>out. ret (tick_end out t))"

subsection \<open>The chain calls leave the registry and the bus alone\<close>

definition chain_ok :: "'s ext \<Rightarrow> 's chain \<Rightarrow> bool" where
  "chain_ok X C \<longleftrightarrow>
     (\<forall>c e i s. effect X (c_submit C c e i s) (\<lambda>r v v'. v' = v)) \<and>
     (\<forall>b. effect X (c_proof C b) (\<lambda>r v v'. v' = v)) \<and>
     (\<forall>a. effect X (c_commit C a) (\<lambda>r v v'. v' = v))"

lemma effect_keeps: "effect X m (\<lambda>r v v'. v' = v) \<Longrightarrow> E v \<Longrightarrow> (\<And>r. Q r v) \<Longrightarrow> safe X m Q E v"
  by (erule effect_safe) auto

lemma safe_chain_submit [safe_intros]:
  "chain_ok X C \<Longrightarrow> E v \<Longrightarrow> (\<And>r. Q r v) \<Longrightarrow> safe X (c_submit C c e i s) Q E v"
  by (rule effect_keeps) (simp_all add: chain_ok_def)

lemma safe_chain_proof [safe_intros]:
  "chain_ok X C \<Longrightarrow> E v \<Longrightarrow> (\<And>r. Q r v) \<Longrightarrow> safe X (c_proof C b) Q E v"
  by (rule effect_keeps) (simp_all add: chain_ok_def)

lemma safe_chain_commit [safe_intros]:
  "chain_ok X C \<Longrightarrow> E v \<Longrightarrow> (\<And>r. Q r v) \<Longrightarrow> safe X (c_commit C a) Q E v"
  by (rule effect_keeps) (simp_all add: chain_ok_def)

lemma bridge_safe: "chain_ok X C \<Longrightarrow> Q () v \<Longrightarrow> safe X (bridge C deployed epoch cross r synaptic height) Q E v"
  unfolding bridge_def by (intro safe_if safe_ignore safe_chain_commit safe_ret)

definition demo_chain :: "view chain" where
  "demo_chain = \<lparr>c_submit = (\<lambda>c e i r s. (Inr \<lparr>an_height = Some 5, an_blockHash = Some c, an_epoch = None\<rparr>, s)),
     c_proof = (\<lambda>b s. (Inl ''no proof'', s)), c_commit = (\<lambda>a s. (Inl ''reverted'', s))\<rparr>"

lemma chain_ok_demo: "chain_ok demo_ext demo_chain"
  unfolding chain_ok_def by (intro conjI allI effect_simple) (simp_all add: demo_chain_def)

subsection \<open>Properties of the tick\<close>

text \<open>The outcome of a tick: submission failed, or anchored as \<open>a\<close>, with the rows of the epoch table after it
  and whether the transition was announced.\<close>

definition tick_post :: "noble \<Rightarrow> view \<Rightarrow> thalamus \<Rightarrow> thalamus \<Rightarrow> view \<Rightarrow> bool" where
  "tick_post lib v t t' w \<longleftrightarrow> t' = drained t \<and> w = v \<or>
     (\<exists>a rows told. let epoch = or_else (an_epoch a) (th_epoch t + 1); r = tick_roots lib t; cross = coherenceRoot lib r in
        t' = (if told then drained t else t)\<lparr>th_epoch := epoch\<rparr> \<and>
        rows \<in> {vw_epochs v, vw_epochs v @ [(epoch, tick_epoch_row epoch cross r a)]} \<and>
        w = v\<lparr>vw_epochs := rows, vw_events := vw_events v @ (if told then [EpochTransition epoch cross] else [])\<rparr>)"

lemma tick_post_fail: "tick_post lib v t (tick_end (th_epoch t, True) t) v"
  by (simp add: tick_post_def tick_end_def drained_def)

lemma tick_post_anchored:
  assumes "epoch = or_else (an_epoch a) (th_epoch t + 1)" "r = tick_roots lib t" "cross = coherenceRoot lib r"
    and "rows \<in> {vw_epochs v, vw_epochs v @ [(epoch, tick_epoch_row epoch cross r a)]}"
  shows "tick_post lib v t (tick_end (epoch, told) t)
    (v\<lparr>vw_epochs := rows, vw_events := vw_events v @ (if told then [EpochTransition epoch cross] else [])\<rparr>)"
  unfolding tick_post_def using assms
  by (intro disjI2 exI [of _ a] exI [of _ rows] exI [of _ told]) (auto simp: Let_def tick_end_def drained_def)

lemma announce_safe:
  assumes "ext_ok X" "epoch = or_else (an_epoch a) (th_epoch t + 1)" "r = tick_roots lib t" "cross = coherenceRoot lib r"
    and "rows \<in> {vw_epochs v, vw_epochs v @ [(epoch, tick_epoch_row epoch cross r a)]}"
  shows "safe X (tryA (bindA (x_publish X (EpochTransition epoch cross)) (\<lambda>_. ret (epoch, True))) (\<lambda>_. ret (epoch, False)))
    (\<lambda>out. tick_post lib v t (tick_end out t)) E (v\<lparr>vw_epochs := rows\<rparr>)"
  using tick_post_anchored [OF assms(2-5), of True] tick_post_anchored [OF assms(2-5), of False]
  by (intro safe_intros allI assms(1)) simp_all

lemma tick_chain_safe:
  assumes "ext_ok X" "chain_ok X C"
  shows "safe X (tick_chain X C lib deployed (th_epoch t) (tick_roots lib t))
    (\<lambda>out. tick_post lib v t (tick_end out t)) E v"
proof -
  define r where "r = tick_roots lib t"
  define cross where "cross = coherenceRoot lib r"
  have rest: "safe X (bindA (tryA (c_proof C (an_blockHash a)) (\<lambda>_. ret zero_root)) (\<lambda>synaptic.
      bindA (bridge C deployed epoch cross r synaptic (or_else (an_height a) 0)) (\<lambda>_.
      bindA (ignoreA (x_epoch_upsert X (tick_epoch_row epoch cross r a))) (\<lambda>_.
      tryA (bindA (x_publish X (EpochTransition epoch cross)) (\<lambda>_. ret (epoch, True))) (\<lambda>_. ret (epoch, False))))))
      (\<lambda>out. tick_post lib v t (tick_end out t)) E v" if e: "epoch = or_else (an_epoch a) (th_epoch t + 1)" for a epoch
  proof -
    note ann = announce_safe [OF assms(1) e r_def cross_def, where v = v and E = E]
    have same: "safe X (tryA (bindA (x_publish X (EpochTransition epoch cross)) (\<lambda>_. ret (epoch, True))) (\<lambda>_. ret (epoch, False)))
        (\<lambda>out. tick_post lib v t (tick_end out t)) E v"
      using ann [of "vw_epochs v"] by simp
    have "safe X (ignoreA (x_epoch_upsert X (tick_epoch_row epoch cross r a)))
        (\<lambda>_. safe X (tryA (bindA (x_publish X (EpochTransition epoch cross)) (\<lambda>_. ret (epoch, True))) (\<lambda>_. ret (epoch, False)))
          (\<lambda>out. tick_post lib v t (tick_end out t)) E) E v"
      by (intro safe_ignore safe_epoch_upsert [OF assms(1)] same ann) (simp add: tick_epoch_row_def)
    then show ?thesis
      by (intro safe_bind safe_try safe_chain_proof [OF assms(2)] bridge_safe [OF assms(2)] safe_ret allI)
  qed
  show ?thesis
    unfolding tick_chain_def Let_def r_def [symmetric] cross_def [symmetric]
  proof (rule safe_bind, rule safe_try, rule safe_bind, rule safe_chain_submit [OF assms(2)])
  qed (intro allI safe_ret; simp only: option.case; rule safe_ret tick_post_fail rest; rule refl tick_post_fail)+
qed



text \<open>The hippocampus and EVM shards of every coherence root are constant: whatever events the services
  publish, in whatever order, no handler finds a \<open>cid\<close> or a \<open>txHash\<close> on the subjects it listens to.  Only
  the sleeve events enter the root, one leaf for every published sleeve event and nothing else.\<close>

lemma tick_roots_only_sleeves:
  assumes "nats_ok matches"
  shows "let t = fold (receive matches lib) evs thalamus_start in
    sr_ipfs (tick_roots lib t) = replicate 64 CHR ''0'' \<and> sr_evm (tick_roots lib t) = replicate 64 CHR ''0'' \<and>
    th_sleeves t = map (\<lambda>ev. sha256hex lib (Raw (Str (event_json ev))))
      (filter (\<lambda>ev. case ev of SleeveSpawned _ _ _ \<Rightarrow> True | SleeveDecommissioned _ _ \<Rightarrow> True | SleevePerceive _ _ _ _ \<Rightarrow> True
         | SleeveDrift _ _ _ \<Rightarrow> True | SleeveDesync _ _ _ \<Rightarrow> True | _ \<Rightarrow> False) evs)"
proof -
  have m: "matches (p @ ''.>'') s = (take (length p + 1) s = p @ ''.'' \<and> length p + 1 < length s)"
    if "CHR ''*'' \<notin> set p" "CHR ''>'' \<notin> set p" for p s
    using assms that unfolding nats_ok_def by blast
  let ?sl = "\<lambda>ev. case ev of SleeveSpawned _ _ _ \<Rightarrow> True | SleeveDecommissioned _ _ \<Rightarrow> True | SleevePerceive _ _ _ _ \<Rightarrow> True
         | SleeveDrift _ _ _ \<Rightarrow> True | SleeveDesync _ _ _ \<Rightarrow> True | _ \<Rightarrow> False"
  have one: "receive matches lib ev t = (if ?sl ev then on_sleeve lib ev t else t)" for ev t
    using m [of "''ecca.memory''"] m [of "''ecca.sleeve''"]
    by (cases ev) (simp_all add: receive_def subject_def on_memory_def on_evm_def event_txHash_def Let_def)
  have "th_ipfs (fold (receive matches lib) evs t) = th_ipfs t \<and> th_evm (fold (receive matches lib) evs t) = th_evm t \<and>
      th_sleeves (fold (receive matches lib) evs t) = th_sleeves t @
        map (\<lambda>ev. sha256hex lib (Raw (Str (event_json ev)))) (filter ?sl evs)" for t
    by (induction evs arbitrary: t) (simp_all add: one on_sleeve_def)
  then show ?thesis
    by (simp add: Let_def tick_roots_def fold_root_def zero_root_def thalamus_start_def)
qed

lemma tick_roots_only_sleeves_witness:
  "sr_ipfs (tick_roots demo_noble (fold (receive demo_matches demo_noble)
      [MemoryRecall ''s'' ''ecca://head'' 1 3 0, SleevePerceive ''sa'' ''s'' ''ecca://new'' 0.5] thalamus_start)) =
     replicate 64 CHR ''0'' \<and>
   length (th_sleeves (fold (receive demo_matches demo_noble)
      [MemoryRecall ''s'' ''ecca://head'' 1 3 0, SleevePerceive ''sa'' ''s'' ''ecca://new'' 0.5] thalamus_start)) = 1"
  using tick_roots_only_sleeves [OF nats_ok_demo, of demo_noble
      "[MemoryRecall ''s'' ''ecca://head'' 1 3 0, SleevePerceive ''sa'' ''s'' ''ecca://new'' 0.5]"]
  by (simp add: Let_def)

subsection \<open>Ticks and events interleaved\<close>

text \<open>
  A tick awaits the chain between reading the buffers and clearing them, and the event handlers and other ticks run
  meanwhile.  The step relation interleaves these atomic segments; besides the router's state it keeps
  the leaves read by unfinished ticks, all leaves heard so far and the leaf lists that were anchored.
\<close>

record arbiter =
  ab_state :: thalamus
  ab_open :: "string list list"
  ab_heard :: "string list"
  ab_folded :: "string list list"

definition arbiter_start :: arbiter where
  "arbiter_start = \<lparr>ab_state = thalamus_start, ab_open = [], ab_heard = [], ab_folded = []\<rparr>"

definition leaf_of :: "noble \<Rightarrow> event \<Rightarrow> string" where
  "leaf_of lib ev = sha256hex lib (Raw (Str (event_json ev)))"

inductive arbiter_step :: "noble \<Rightarrow> arbiter \<Rightarrow> arbiter \<Rightarrow> bool" for lib where
  hear: "arbiter_step lib a (a\<lparr>ab_state := on_sleeve lib ev (ab_state a), ab_heard := ab_heard a @ [leaf_of lib ev]\<rparr>)"
| start: "arbiter_step lib a (a\<lparr>ab_open := ab_open a @ [th_sleeves (ab_state a)]\<rparr>)"
| finish: "ab_open a = xs @ leaves # ys \<Longrightarrow> anchored \<or> cleared \<Longrightarrow>
    arbiter_step lib a (a\<lparr>ab_open := xs @ ys, ab_state := tick_end (epoch, cleared) (ab_state a),
      ab_folded := ab_folded a @ (if anchored then [leaves] else [])\<rparr>)"

inductive_cases arbiter_stepE: "arbiter_step lib a b"

definition arbiter_inv :: "arbiter \<Rightarrow> bool" where
  "arbiter_inv a \<longleftrightarrow> suffix (th_sleeves (ab_state a)) (ab_heard a) \<and>
     (\<forall>s \<in> set (ab_open a) \<union> set (ab_folded a). sublist s (ab_heard a))"

lemma th_sleeves_tick_end: "th_sleeves (tick_end (epoch, cleared) t) = (if cleared then [] else th_sleeves t)"
  by (simp add: tick_end_def drained_def)

lemma arbiter_inv_step: "arbiter_inv a \<Longrightarrow> arbiter_step lib a b \<Longrightarrow> arbiter_inv b"
proof (erule arbiter_stepE)
  fix ev
  assume a: "arbiter_inv a"
    and b: "b = a\<lparr>ab_state := on_sleeve lib ev (ab_state a), ab_heard := ab_heard a @ [leaf_of lib ev]\<rparr>"
  have "sublist s (ab_heard a @ [leaf_of lib ev])" if "sublist s (ab_heard a)" for s
    using that by (simp add: sublist_append_rightI sublist_order.order.trans [OF that])
  with a show "arbiter_inv b" by (auto simp: b arbiter_inv_def on_sleeve_def leaf_of_def suffix_def)
next
  assume "arbiter_inv a" "b = a\<lparr>ab_open := ab_open a @ [th_sleeves (ab_state a)]\<rparr>"
  then show "arbiter_inv b" by (auto simp: arbiter_inv_def suffix_imp_sublist)
next
  fix xs leaves ys anchored cleared epoch
  assume "arbiter_inv a" "ab_open a = xs @ leaves # ys"
    "b = a\<lparr>ab_open := xs @ ys, ab_state := tick_end (epoch, cleared) (ab_state a),
      ab_folded := ab_folded a @ (if anchored then [leaves] else [])\<rparr>"
  then show "arbiter_inv b" by (auto simp: arbiter_inv_def th_sleeves_tick_end)
qed

lemma arbiter_inv_start: "arbiter_inv arbiter_start"
  by (simp add: arbiter_inv_def arbiter_start_def thalamus_start_def)

text \<open>C22: whatever the interleaving of ticks and events, every anchored leaf list is a contiguous run of the
  sleeve events that were heard, in the order they were heard, and the buffer is their most recent part: nothing is
  invented, reordered or skipped inside one root.\<close>

theorem folded_contiguous:
  assumes "(arbiter_step lib)\<^sup>*\<^sup>* arbiter_start a"
  shows "suffix (th_sleeves (ab_state a)) (ab_heard a) \<and> list_all (\<lambda>s. sublist s (ab_heard a)) (ab_folded a)"
proof -
  from assms have "arbiter_inv a"
    by (induction rule: rtranclp_induct) (auto intro: arbiter_inv_start arbiter_inv_step)
  then show ?thesis by (simp add: arbiter_inv_def list_all_iff)
qed

definition lost_end :: "noble \<Rightarrow> event \<Rightarrow> arbiter" where
  "lost_end lib ev = \<lparr>ab_state = tick_end (1, True) (on_sleeve lib ev thalamus_start), ab_open = [],
     ab_heard = [leaf_of lib ev], ab_folded = [[]]\<rparr>"

lemma lost_run: "(arbiter_step lib)\<^sup>*\<^sup>* arbiter_start (lost_end lib ev)"
proof -
  let ?a = "\<lparr>ab_state = thalamus_start, ab_open = [[]], ab_heard = [], ab_folded = []\<rparr>"
  let ?b = "\<lparr>ab_state = on_sleeve lib ev thalamus_start, ab_open = [[]], ab_heard = [leaf_of lib ev], ab_folded = []\<rparr>"
  have 1: "arbiter_step lib arbiter_start ?a"
    using arbiter_step.start [of lib arbiter_start] by (simp add: arbiter_start_def thalamus_start_def)
  have 2: "arbiter_step lib ?a ?b"
    using arbiter_step.hear [of lib ?a ev] by simp
  have 3: "arbiter_step lib ?b (lost_end lib ev)"
    using arbiter_step.finish [of ?b "[]" "[]" "[]" True True lib 1] by (simp add: lost_end_def)
  show ?thesis
    by (rule converse_rtranclp_into_rtranclp [where r = "arbiter_step lib", OF 1 converse_rtranclp_into_rtranclp
        [where r = "arbiter_step lib", OF 2 r_into_rtranclp [where r = "arbiter_step lib", OF 3]]])
qed

theorem folded_contiguous_witness:
  "\<exists>a. (arbiter_step demo_noble)\<^sup>*\<^sup>* arbiter_start a \<and> ab_folded a = [[]] \<and> length (ab_heard a) = 1 \<and>
     suffix (th_sleeves (ab_state a)) (ab_heard a)"
  using folded_contiguous [OF lost_run [of demo_noble "SleeveDrift ''sa'' ''s'' 16"]]
    lost_run [of demo_noble "SleeveDrift ''sa'' ''s'' 16"]
  by (intro exI [of _ "lost_end demo_noble (SleeveDrift ''sa'' ''s'' 16)"] conjI) (simp_all add: lost_end_def)

text \<open>Events can be lost although every tick is anchored and announced: a sleeve event that arrives while a
  tick awaits the chain is cleared with the buffer and is in no root, then or ever.\<close>

lemma event_during_tick_lost:
  "\<exists>a. (arbiter_step lib)\<^sup>*\<^sup>* arbiter_start a \<and> ab_heard a = [leaf_of lib ev] \<and> ab_open a = [] \<and>
     th_sleeves (ab_state a) = [] \<and> length (ab_folded a) = 1 \<and> leaf_of lib ev \<notin> set (concat (ab_folded a))"
  using lost_run [of lib ev]
  by (intro exI [of _ "lost_end lib ev"] conjI) (simp_all add: lost_end_def th_sleeves_tick_end)

end
