(* ===== verification/Faucet.thy ===== *)
theory Faucet
  imports Siyana
begin

text \<open>
  \<^verbatim>\<open>services/bandwidth-faucet/src/server.ts\<close>: the token grant and its rate limit.  The map \<open>last\<close> of
  the source, here \<open>seen\<close>, lives in the process; the handler is split where it first awaits the database, because another request may
  run there.
\<close>

subsection \<open>The handler\<close>

definition GRANT :: tokens where
  "GRANT = [(Compute, 100), (Memory, 100), (Sync, 50), (Routing, 50)]"

definition granted_tokens :: "tokens \<Rightarrow> tokens" where
  "granted_tokens t = [(Compute, tok t Compute + tok GRANT Compute), (Memory, tok t Memory + tok GRANT Memory),
     (Sync, tok t Sync + tok GRANT Sync), (Routing, tok t Routing + tok GRANT Routing), (Residue, tok t Residue)]"

type_synonym last_drips = "string \<Rightarrow> nat option"

definition last_drip :: "last_drips \<Rightarrow> string \<Rightarrow> nat" where
  "last_drip seen sid = (case seen sid of None \<Rightarrow> 0 | Some t \<Rightarrow> t)"

definition drip_limited :: "nat \<Rightarrow> nat \<Rightarrow> last_drips \<Rightarrow> string \<Rightarrow> bool" where
  "drip_limited rate now seen sid \<longleftrightarrow> now < last_drip seen sid + rate"

definition drip_grant :: "'s ext \<Rightarrow> nat \<Rightarrow> string \<Rightarrow> last_drips \<Rightarrow> ('s, nat response \<times> last_drips) act" where
  "drip_grant X now sid seen =
     bindA (x_sleeves_where X (\<lambda>s. sl_stackId s = sid \<and> sl_alive s)) (\<lambda>sleeves.
     if sleeves = [] then ret (Refused 404 ''no_alive_sleeves'', seen)
     else bindA (forA (\<lambda>s. bindA (x_sleeve_update X (sl_id s) (\<lambda>r. r\<lparr>sl_tokens := granted_tokens (sl_tokens s)\<rparr>))
                   (\<lambda>_. ret ())) sleeves) (\<lambda>_.
          ret (Reply (length sleeves), seen(sid := Some now))))"

definition drip :: "'s ext \<Rightarrow> nat \<Rightarrow> nat \<Rightarrow> last_drips \<Rightarrow> string \<Rightarrow> ('s, nat response \<times> last_drips) act" where
  "drip X rate now seen sid =
     (if drip_limited rate now seen sid then ret (Refused 429 ''rate_limited'', seen)
      else drip_grant X now sid seen)"

text \<open>A history of requests, each with the clock it reads; the result lists who was granted when.\<close>

fun drips :: "'s ext \<Rightarrow> nat \<Rightarrow> (nat \<times> string) list \<Rightarrow> last_drips \<Rightarrow> 's \<Rightarrow> (string \<times> nat) list \<times> 's" where
  "drips X rate [] seen s = ([], s)"
| "drips X rate ((now, sid) # qs) seen s =
     (case drip X rate now seen sid s of
        (Inl e, s') \<Rightarrow> drips X rate qs seen s'
      | (Inr (Refused c m, seen'), s') \<Rightarrow> drips X rate qs seen' s'
      | (Inr (Reply n, seen'), s') \<Rightarrow> (case drips X rate qs seen' s' of (gs, s'') \<Rightarrow> ((sid, now) # gs, s'')))"

subsection \<open>Granting\<close>

lemma tok_granted: "tok (granted_tokens t) k = tok t k + tok GRANT k"
  by (cases k) (simp_all add: granted_tokens_def GRANT_def)

lemma grant_nonneg [simp]: "0 \<le> tok GRANT k"
  by (cases k) (simp_all add: GRANT_def)

lemma tokens_ok_granted: "tokens_ok t \<Longrightarrow> tokens_ok (granted_tokens t)"
  by (simp add: tokens_ok_def tok_granted)

definition grant_row :: "sleeve \<Rightarrow> sleeve" where
  "grant_row s = s\<lparr>sl_tokens := granted_tokens (sl_tokens s)\<rparr>"

definition grant_view :: "string set \<Rightarrow> view \<Rightarrow> view" where
  "grant_view D v = v\<lparr>vw_sleeves := map (\<lambda>(k, s). (k, if k \<in> D then grant_row s else s)) (vw_sleeves v)\<rparr>"

lemma grant_view_empty [simp]: "grant_view {} v = v"
  by (simp add: grant_view_def)

lemma map_of_grant: "map_of (vw_sleeves (grant_view D v)) k =
  map_option (\<lambda>s. if k \<in> D then grant_row s else s) (map_of (vw_sleeves v) k)"
proof -
  have "map_of (map (\<lambda>(k, s). (k, if k \<in> D then grant_row s else s)) rows) k =
      map_option (\<lambda>s. if k \<in> D then grant_row s else s) (map_of rows k)" for rows
    by (induction rows) auto
  then show ?thesis by (simp add: grant_view_def)
qed

lemma grant_one:
  assumes "distinct (map fst (vw_sleeves v))" "map_of (vw_sleeves v) k = Some s" "k \<notin> D"
  shows "(grant_view D v)\<lparr>vw_sleeves := update_row k (\<lambda>r. r\<lparr>sl_tokens := granted_tokens (sl_tokens s)\<rparr>)
      (vw_sleeves (grant_view D v))\<rparr> = grant_view (insert k D) v"
proof -
  have "r = s" if "(k, r) \<in> set (vw_sleeves v)" for r
    using map_of_is_SomeI [OF assms(1) that] assms(2) by simp
  then have "update_row k (\<lambda>r. r\<lparr>sl_tokens := granted_tokens (sl_tokens s)\<rparr>) (vw_sleeves (grant_view D v)) =
      vw_sleeves (grant_view (insert k D) v)"
    using assms(3) by (auto simp: grant_view_def update_row_def grant_row_def)
  then show ?thesis by (simp add: grant_view_def)
qed

lemma grant_loop_safe:
  assumes "ext_ok X" "reg_inv v" "distinct (map sl_id xs)" "sl_id ` set xs \<inter> D = {}"
    and "\<And>s. s \<in> set xs \<Longrightarrow> map_of (vw_sleeves v) (sl_id s) = Some s"
    and "Q () (grant_view (D \<union> sl_id ` set xs) v)"
    and "\<And>D'. D' \<subseteq> D \<union> sl_id ` set xs \<Longrightarrow> E (grant_view D' v)"
  shows "safe X (forA (\<lambda>s. bindA (x_sleeve_update X (sl_id s) (\<lambda>r. r\<lparr>sl_tokens := granted_tokens (sl_tokens s)\<rparr>))
      (\<lambda>_. ret ())) xs) Q E (grant_view D v)"
  using assms(3-7)
proof (induction xs arbitrary: D)
  case Nil
  then show ?case by (simp add: safe_ret)
next
  case (Cons s xs)
  have one: "(grant_view D v)\<lparr>vw_sleeves := update_row (sl_id s) (\<lambda>r. r\<lparr>sl_tokens := granted_tokens (sl_tokens s)\<rparr>)
      (vw_sleeves (grant_view D v))\<rparr> = grant_view (insert (sl_id s) D) v"
    using Cons.prems assms(2) by (intro grant_one) (auto simp: reg_inv_def)
  have "safe X (forA (\<lambda>s. bindA (x_sleeve_update X (sl_id s) (\<lambda>r. r\<lparr>sl_tokens := granted_tokens (sl_tokens s)\<rparr>))
      (\<lambda>_. ret ())) xs) Q E (grant_view (insert (sl_id s) D) v)"
    using Cons.prems by (intro Cons.IH) auto
  then show ?case unfolding forA.simps
    by (intro safe_bind safe_sleeve_update [OF assms(1)] safe_ret) (use Cons.prems(5) one in auto)
qed

lemma reg_inv_distinct_ids:
  assumes "reg_inv v"
  shows "distinct (map sl_id (map snd (vw_sleeves v)))"
proof -
  have d: "distinct (map fst (vw_sleeves v))" using assms by (simp add: reg_inv_def)
  have "sl_id s = k" if "(k, s) \<in> set (vw_sleeves v)" for k s
    using reg_inv_sleeve_facts(1) [OF assms map_of_is_SomeI [OF d that]] .
  then have "map sl_id (map snd (vw_sleeves v)) = map fst (vw_sleeves v)" by auto
  with d show ?thesis by (simp only:)
qed

lemma mset_rows_distinct:
  assumes "reg_inv v" "mset r = mset (filter p (map snd (vw_sleeves v)))"
  shows "distinct (map sl_id r)" "s \<in> set r \<Longrightarrow> map_of (vw_sleeves v) (sl_id s) = Some s"
    "sl_id ` set r = {k. \<exists>s. map_of (vw_sleeves v) k = Some s \<and> p s}"
proof -
  have "mset (map sl_id r) = mset (map sl_id (filter p (map snd (vw_sleeves v))))"
    using assms(2) by (simp only: mset_map)
  then show "distinct (map sl_id r)"
    using distinct_map_filter [OF reg_inv_distinct_ids [OF assms(1)]] mset_eq_imp_distinct_iff by blast
  have set: "set r = {x \<in> set (map snd (vw_sleeves v)). p x}" by (rule mset_filter_set [OF assms(2)])
  then show row: "s \<in> set r \<Longrightarrow> map_of (vw_sleeves v) (sl_id s) = Some s" for s
    using reg_inv_row [OF assms(1)] by simp
  have 1: "k \<in> sl_id ` set r" if s: "map_of (vw_sleeves v) k = Some s" "p s" for k s
  proof -
    have "s \<in> set (map snd (vw_sleeves v))" using map_of_SomeD [OF s(1)] by (simp add: image_iff) force
    with s(2) have "s \<in> set r" unfolding set by simp
    moreover have "sl_id s = k" using reg_inv_sleeve_facts(1) [OF assms(1) s(1)] .
    ultimately show ?thesis by blast
  qed
  have 2: "\<exists>s. map_of (vw_sleeves v) (sl_id s0) = Some s \<and> p s" if "s0 \<in> set r" for s0
    using row [OF that] that unfolding set by blast
  show "sl_id ` set r = {k. \<exists>s. map_of (vw_sleeves v) k = Some s \<and> p s}"
    using 1 2 by blast
qed

text \<open>The sleeves a drip is for.\<close>

definition recipients :: "view \<Rightarrow> string \<Rightarrow> string set" where
  "recipients v sid = {k. \<exists>s. map_of (vw_sleeves v) k = Some s \<and> sl_stackId s = sid \<and> sl_alive s}"

definition drip_post :: "view \<Rightarrow> string \<Rightarrow> nat \<Rightarrow> last_drips \<Rightarrow> nat response \<times> last_drips \<Rightarrow> view \<Rightarrow> bool" where
  "drip_post v sid now seen out w = (case out of
      (Refused c m, seen') \<Rightarrow> c = 404 \<and> recipients v sid = {} \<and> w = v \<and> seen' = seen
    | (Reply n, seen') \<Rightarrow> n = card (recipients v sid) \<and> 0 < n \<and> w = grant_view (recipients v sid) v \<and>
        seen' = seen(sid := Some now))"

lemma drip_grant_safe:
  assumes "ext_ok X" "reg_inv v"
  shows "safe X (drip_grant X now sid seen) (drip_post v sid now seen)
    (\<lambda>w. \<exists>D \<subseteq> recipients v sid. w = grant_view D v) v"
proof -
  let ?E = "\<lambda>w. \<exists>D \<subseteq> recipients v sid. w = grant_view D v"
  have E: "?E v" by (intro exI [of _ "{}"]) simp
  have "safe X (if r = [] then ret (Refused 404 ''no_alive_sleeves'', seen)
     else bindA (forA (\<lambda>s. bindA (x_sleeve_update X (sl_id s) (\<lambda>r. r\<lparr>sl_tokens := granted_tokens (sl_tokens s)\<rparr>))
                   (\<lambda>_. ret ())) r) (\<lambda>_. ret (Reply (length r), seen(sid := Some now)))) (drip_post v sid now seen) ?E v"
    if r: "mset r = mset (filter (\<lambda>s. sl_stackId s = sid \<and> sl_alive s) (map snd (vw_sleeves v)))" for r
  proof (cases "r = []")
    case True
    with mset_rows_distinct(3) [OF assms(2) r] show ?thesis
      by (auto simp: drip_post_def recipients_def intro!: safe_ret)
  next
    case False
    have rec: "sl_id ` set r = recipients v sid"
      using mset_rows_distinct(3) [OF assms(2) r] by (simp add: recipients_def)
    moreover have d: "distinct (map sl_id r)" by (rule mset_rows_distinct(1) [OF assms(2) r])
    ultimately have n: "card (recipients v sid) = length r" "0 < length r"
      using distinct_card [OF d] False by (simp_all add: rec)
    have "safe X (forA (\<lambda>s. bindA (x_sleeve_update X (sl_id s) (\<lambda>r. r\<lparr>sl_tokens := granted_tokens (sl_tokens s)\<rparr>)) (\<lambda>_. ret ())) r)
        (\<lambda>_ w. w = grant_view (recipients v sid) v) ?E (grant_view {} v)"
      by (rule grant_loop_safe [OF assms d _ mset_rows_distinct(2) [OF assms(2) r]]) (auto simp: rec)
    with False show ?thesis
      by (auto simp: drip_post_def n intro!: safe_bind safe_ret elim!: safe_conseq)
  qed
  with E show ?thesis
    unfolding drip_grant_def by (intro safe_bind safe_sleeves_where [OF assms(1)])
qed

lemma drip_safe:
  assumes "ext_ok X" "reg_inv v"
  shows "safe X (drip X rate now seen sid)
    (\<lambda>out w. if drip_limited rate now seen sid then out = (Refused 429 ''rate_limited'', seen) \<and> w = v
      else drip_post v sid now seen out w)
    (\<lambda>w. \<exists>D \<subseteq> recipients v sid. w = grant_view D v) v"
  using drip_grant_safe [OF assms, where now = now and sid = sid and seen = seen]
  by (auto simp: drip_def intro!: safe_ret exI [of _ "{}"])

lemma drip_seen:
  assumes "drip X rate now seen sid s = (Inr (r, seen'), s')"
  shows "case r of Reply n \<Rightarrow> seen' = seen(sid := Some now) \<and> last_drip seen sid + rate \<le> now | Refused c m \<Rightarrow> seen' = seen"
  using assms unfolding drip_def drip_grant_def
  by (auto simp: bindA_def ret_def drip_limited_def split: if_splits prod.splits sum.splits)

text \<open>The rate limit as a relation between an earlier and a later grant.\<close>

definition spaced :: "nat \<Rightarrow> string \<times> nat \<Rightarrow> string \<times> nat \<Rightarrow> bool" where
  "spaced rate g g' \<longleftrightarrow> fst g = fst g' \<longrightarrow> snd g + rate \<le> snd g'"

lemma spaced_iff: "spaced rate (a, t) (b, u) \<longleftrightarrow> (a = b \<longrightarrow> t + rate \<le> u)"
  by (simp add: spaced_def)

lemma drips_spaced:
  "sorted_wrt (spaced rate) (fst (drips X rate qs seen s)) \<and>
   (\<forall>(a, t) \<in> set (fst (drips X rate qs seen s)). last_drip seen a + rate \<le> t)"
proof (induction qs arbitrary: seen s)
  case (Cons q qs)
  obtain now sid where q: "q = (now, sid)" by (cases q)
  obtain out s' where run: "drip X rate now seen sid s = (out, s')" by (cases "drip X rate now seen sid s")
  show ?case
  proof (cases out)
    case (Inl e)
    with Cons.IH [of seen s'] show ?thesis by (simp add: q run)
  next
    case (Inr o')
    then obtain r seen' where o: "out = Inr (r, seen')" by (cases o') auto
    show ?thesis
    proof (cases r)
      case (Refused c m)
      with Cons.IH [of seen' s'] drip_seen [of X rate now seen sid s r seen' s'] show ?thesis by (simp add: q run o)
    next
      case (Reply n)
      with drip_seen [of X rate now seen sid s r seen' s'] run o
      have d: "seen' = seen(sid := Some now)" "last_drip seen sid + rate \<le> now" by auto
      obtain gs s'' where rest: "drips X rate qs seen' s' = (gs, s'')" by (cases "drips X rate qs seen' s'")
      with Cons.IH [of seen' s'] have "sorted_wrt (spaced rate) gs" "\<forall>(a, t) \<in> set gs. last_drip seen' a + rate \<le> t"
        by simp_all
      moreover have res: "drips X rate (q # qs) seen s = ((sid, now) # gs, s'')"
        by (simp add: q run o Reply rest)
      ultimately show ?thesis
        using d unfolding res by (auto simp: spaced_iff last_drip_def split: if_splits)
    qed
  qed
qed simp

subsection \<open>Properties\<close>

text \<open>C18: a drip is refused with 429 exactly if the stack's last grant is less than the rate interval ago, and then
  changes nothing.  A reply means that every living sleeve of the stack, and nothing else, got exactly one
  grant; if the database fails half way, some of them have it, no sleeve has it twice, and the rate limit
  was not started.\<close>

theorem faucet_grant:
  assumes "ext_ok X" "reg_inv v"
  shows "safe X (drip X rate now seen sid)
    (\<lambda>(r, seen') w. case r of
       Refused c m \<Rightarrow> w = v \<and> seen' = seen \<and>
         (c = 429 \<and> now < last_drip seen sid + rate \<or> c = 404 \<and> recipients v sid = {} \<and> last_drip seen sid + rate \<le> now)
     | Reply n \<Rightarrow> last_drip seen sid + rate \<le> now \<and> n = card (recipients v sid) \<and> 0 < n \<and>
         w = grant_view (recipients v sid) v \<and> last_drip seen' sid = now)
    (\<lambda>w. \<exists>D \<subseteq> recipients v sid. w = grant_view D v) v"
  by (rule safe_conseq [OF drip_safe [OF assms]])
    (auto simp: drip_post_def drip_limited_def last_drip_def split: if_splits response.splits)

theorem faucet_grant_witness:
  "\<exists>s. map_of (vw_sleeves (snd (drip demo_ext 60000 90000 (\<lambda>_. None) ''stack:human:1:ab'' demo_view))) ''sb'' = Some s \<and>
     tok (sl_tokens s) Sync = 60 \<and> tok (sl_tokens s) Residue = 0"
proof -
  obtain n m w where run: "drip demo_ext 60000 90000 (\<lambda>_. None) ''stack:human:1:ab'' demo_view = (Inr (Reply n, m), w)"
    by (simp add: drip_def drip_limited_def last_drip_def drip_grant_def demo_simps bindA_def ret_def update_row_def)
  have v: "x_view demo_ext s = s" for s by (simp add: demo_simps)
  have w: "w = grant_view (recipients demo_view ''stack:human:1:ab'') demo_view"
    using faucet_grant [OF ext_ok_demo reg_inv_demo, of 60000 90000 "\<lambda>_. None" "''stack:human:1:ab''"] run
    by (auto simp: safe_def v)
  have "''sb'' \<in> recipients demo_view ''stack:human:1:ab''" by (simp add: recipients_def demo_view_def demo_sleeve_def)
  then show ?thesis
    unfolding run snd_conv w map_of_grant
    by (simp add: demo_view_def grant_row_def tok_granted) (simp add: demo_sleeve_def GRANT_def)
qed



text \<open>Two drips whose checks both run before either has finished are both granted: the check and the
  update of the rate limit are separated by the database calls.\<close>

lemma faucet_race:
  "\<not> drip_limited 60000 90000 (\<lambda>_. None) ''stack:human:1:ab'' \<and>
   (\<exists>w1 w2 m1 m2. drip_grant demo_ext 90000 ''stack:human:1:ab'' (\<lambda>_. None) demo_view = (Inr (Reply 2, m1), w1) \<and>
      drip_grant demo_ext 90000 ''stack:human:1:ab'' m1 w1 = (Inr (Reply 2, m2), w2) \<and>
      drip demo_ext 60000 90000 m1 ''stack:human:1:ab'' w1 = (Inr (Refused 429 ''rate_limited'', m1), w1) \<and>
      map_option (\<lambda>s. tok (sl_tokens s) Compute) (map_of (vw_sleeves w2) ''sa'') = Some 210)"
  by (simp add: drip_def drip_limited_def last_drip_def drip_grant_def demo_simps bindA_def ret_def update_row_def
      granted_tokens_def GRANT_def)

subsection \<open>The service keeps the registry invariant\<close>

lemma reg_inv_grant: "reg_inv v \<Longrightarrow> reg_inv (grant_view D v)"
proof -
  assume r: "reg_inv v"
  have keys: "map fst (vw_sleeves (grant_view D v)) = map fst (vw_sleeves v)"
    by (auto simp: grant_view_def)
  have "sleeve_ok (grant_view D v) k s" if a: "map_of (vw_sleeves (grant_view D v)) k = Some s" for k s
  proof -
    obtain s0 where s0: "map_of (vw_sleeves v) k = Some s0" "s = (if k \<in> D then grant_row s0 else s0)"
      using a unfolding map_of_grant map_option_eq_Some by blast
    have "vw_stacks (grant_view D v) = vw_stacks v" by (simp add: grant_view_def)
    with reg_inv_sleeve [OF r s0(1)] s0(2) show ?thesis
      by (auto simp: sleeve_ok_def grant_row_def tokens_ok_granted)
  qed
  then show ?thesis using r unfolding reg_inv_def keys by (simp add: grant_view_def)
qed

fun faucet_api :: "nat \<Rightarrow> 's ext \<Rightarrow> nat \<times> last_drips \<times> string \<Rightarrow> ('s, unit) act" where
  "faucet_api rate X (now, seen, sid) = bindA (drip X rate now seen sid) (\<lambda>_. ret ())"

lemma drip_inv: "ext_ok X \<Longrightarrow> reg_inv v \<Longrightarrow> safe X (drip X rate now seen sid) (\<lambda>_. reg_inv) reg_inv v"
proof (rule safe_conseq [OF drip_safe])
  assume v: "reg_inv v"
  fix out w
  assume "if drip_limited rate now seen sid then out = (Refused 429 ''rate_limited'', seen) \<and> w = v
      else drip_post v sid now seen out w"
  then show "reg_inv w"
    using v reg_inv_grant [OF v] by (cases "fst out") (auto simp: drip_post_def split: if_splits prod.splits)
qed (auto intro: reg_inv_grant)

interpretation drip_api: service "faucet_api rate" reg_inv for rate
proof
  fix X :: "'a ext" and v q
  assume "ext_ok X" "reg_inv v"
  then show "safe X (faucet_api rate X q) (\<lambda>_. reg_inv) reg_inv v"
    by (cases q; simp only: faucet_api.simps; intro safe_bind safe_conseq [OF drip_inv]) (simp_all add: safe_ret)
qed

end
