(* ===== verification/Treasury.thy ===== *)
theory Treasury
  imports Faucet
begin

text \<open>
  \<^verbatim>\<open>services/quellist-treasury-svc/src/server.ts\<close>: the emission on every epoch transition and the claim.  The
  listing of the last hundred emissions, a read ordered by time stamp, is not modelled; audit rows here
  carry no time stamp.
\<close>

subsection \<open>The handlers\<close>

definition raw_emission :: "real \<Rightarrow> token_balance" where
  "raw_emission e = \<lparr>tb_compute = e, tb_memory = e, tb_sync = e, tb_routing = e, tb_residue = 0\<rparr>"

definition elapsed :: "nat \<Rightarrow> stack \<Rightarrow> real" where
  "elapsed ev s = max 1 (real ev - real (st_epoch s))"

definition issuance :: "real \<Rightarrow> nat \<Rightarrow> stack \<Rightarrow> token_balance" where
  "issuance e ev s = effectiveBalance (raw_emission e) (st_cpv s) (st_binding s) (elapsed ev s)"

definition emission_row :: "real \<Rightarrow> nat \<Rightarrow> stack \<Rightarrow> audit" where
  "emission_row e ev s = \<lparr>au_stackId = st_id s, au_epoch = ev, au_action = ''treasury.emit'',
     au_detail = Issuance (issuance e ev s)\<rparr>"

definition set_epoch :: "nat \<Rightarrow> stack \<Rightarrow> stack" where
  "set_epoch ev s = s\<lparr>st_epoch := ev\<rparr>"

definition emit_one :: "'s ext \<Rightarrow> real \<Rightarrow> nat \<Rightarrow> stack \<Rightarrow> ('s, unit) act" where
  "emit_one X e ev s = bindA (ignoreA (x_audit_create X (emission_row e ev s))) (\<lambda>_.
     ignoreA (x_stack_update X (st_id s) (set_epoch ev)))"

definition emit :: "'s ext \<Rightarrow> real \<Rightarrow> nat \<Rightarrow> ('s, unit) act" where
  "emit X e ev = bindA (x_stacks X) (\<lambda>stacks. forA (emit_one X e ev) stacks)"

text \<open>\<open>Number(d[k] ?? 0)\<close>.\<close>

fun detail_amount :: "token_kind \<Rightarrow> audit_detail \<Rightarrow> real" where
  "detail_amount k (Issuance b) = amount k b"
| "detail_amount k (Consumption t) = tok t k"

definition is_emission :: "string \<Rightarrow> audit \<Rightarrow> bool" where
  "is_emission sid r \<longleftrightarrow> au_stackId r = sid \<and> au_action r = ''treasury.emit''"

definition claim :: "'s ext \<Rightarrow> string \<Rightarrow> ('s, tokens) act" where
  "claim X sid = bindA (x_audits_where X (is_emission sid)) (\<lambda>recent.
     ret (map (\<lambda>k. (k, foldl (\<lambda>t r. t + detail_amount k (au_detail r)) 0 recent)) [Compute, Memory, Sync, Routing]))"

subsection \<open>Claims\<close>

definition claimable :: "view \<Rightarrow> string \<Rightarrow> token_kind \<Rightarrow> real" where
  "claimable v sid k = (\<Sum>r\<leftarrow>filter (is_emission sid) (vw_audit v). detail_amount k (au_detail r))"

lemma foldl_claim_sum: "foldl (\<lambda>t r. t + f r) (c :: real) xs = c + (\<Sum>r\<leftarrow>xs. f r)"
  by (induction xs arbitrary: c) simp_all

lemma sum_list_mset_cong: "mset xs = mset ys \<Longrightarrow> (\<Sum>r\<leftarrow>xs. f r) = (\<Sum>r\<leftarrow>ys. (f r :: real))"
  by (metis mset_map sum_mset_sum_list)

lemma claim_safe:
  assumes "ext_ok X"
  shows "safe X (claim X sid) (\<lambda>t w. w = v \<and> (\<forall>k. k \<noteq> Residue \<longrightarrow> tok t k = claimable v sid k)) (\<lambda>w. w = v) v"
  unfolding claim_def
proof (intro safe_bind safe_audits_where [OF assms] safe_ret)
  fix r :: "audit list"
  assume "mset r = mset (filter (is_emission sid) (vw_audit v))"
  then have "(\<Sum>x\<leftarrow>r. detail_amount k (au_detail x)) = claimable v sid k" for k
    unfolding claimable_def by (rule sum_list_mset_cong)
  then show "v = v \<and> (\<forall>k. k \<noteq> Residue \<longrightarrow> tok (map (\<lambda>k. (k, foldl (\<lambda>t r. t + detail_amount k (au_detail r)) 0 r))
      [Compute, Memory, Sync, Routing]) k = claimable v sid k)"
    by (auto simp: foldl_claim_sum) (metis token_kind.exhaust)
qed simp

subsection \<open>Emission\<close>

lemma issuance_bounds:
  assumes "0 \<le> e" "valid_profile (st_cpv s)" "valid_curve (st_binding s)"
  shows "0 \<le> amount k (issuance e ev s)" "amount k (issuance e ev s) \<le> 2 * e"
proof -
  have "valid_balance (raw_emission e)" using assms(1) by (simp add: raw_emission_def valid_balance_def)
  then have "0 \<le> amount k (raw_emission e)" "amount k (raw_emission e) \<le> e"
    using assms(1) by (cases k; simp add: raw_emission_def)+
  moreover have "0 \<le> coeff k (st_cpv s)" "coeff k (st_cpv s) \<le> 2" using valid_coeff [OF assms(2)] by auto
  moreover define d where "d = (if k = Residue then 1 else decay (st_binding s) (elapsed ev s))"
  moreover have "0 \<le> d" "d \<le> 1" using decay_bounds [OF assms(3)] by (auto simp: d_def intro: less_imp_le)
  ultimately show "0 \<le> amount k (issuance e ev s)" "amount k (issuance e ev s) \<le> 2 * e"
    unfolding issuance_def amount_effective d_def [symmetric]
    using mult_mono [of "amount k (raw_emission e) * coeff k (st_cpv s)" "e * 2" d 1]
      mult_mono [of "amount k (raw_emission e)" e "coeff k (st_cpv s)" 2] by simp_all
qed

text \<open>The view after some stacks (ids in \<open>D\<close>) have moved to the new epoch and some emissions were logged.\<close>

definition emitted :: "nat \<Rightarrow> string set \<Rightarrow> audit list \<Rightarrow> view \<Rightarrow> view" where
  "emitted ev D rows v = v\<lparr>vw_audit := vw_audit v @ rows,
     vw_stacks := map (\<lambda>(k, s). (k, if k \<in> D then set_epoch ev s else s)) (vw_stacks v)\<rparr>"

lemma emitted_start: "emitted ev {} [] v = v"
  by (simp add: emitted_def)

lemma map_of_emitted: "map_of (vw_stacks (emitted ev D rows v)) k =
  map_option (\<lambda>s. if k \<in> D then set_epoch ev s else s) (map_of (vw_stacks v) k)"
proof -
  have "map_of (map (\<lambda>(k, s). (k, if k \<in> D then set_epoch ev s else s)) t) k =
      map_option (\<lambda>s. if k \<in> D then set_epoch ev s else s) (map_of t k)" for t
    by (induction t) auto
  then show ?thesis by (simp add: emitted_def)
qed

lemma emitted_audit: "(emitted ev D rows v)\<lparr>vw_audit := vw_audit (emitted ev D rows v) @ [r]\<rparr> = emitted ev D (rows @ [r]) v"
  by (simp add: emitted_def)

lemma emitted_epoch:
  "(emitted ev D rows v)\<lparr>vw_stacks := update_row k (set_epoch ev) (vw_stacks (emitted ev D rows v))\<rparr> = emitted ev (insert k D) rows v"
proof -
  have "update_row k (set_epoch ev) (map (\<lambda>(k, s). (k, if k \<in> D then set_epoch ev s else s)) t) =
      map (\<lambda>(k', s). (k', if k' \<in> insert k D then set_epoch ev s else s)) t" for t
    by (auto simp: update_row_def set_epoch_def)
  then show ?thesis by (simp add: emitted_def)
qed

lemma emit_loop_safe:
  assumes "ext_ok X" "\<And>D' new. D' \<subseteq> D \<union> st_id ` set xs \<Longrightarrow> mset new \<subseteq># mset (map (emission_row e ev) xs) \<Longrightarrow>
      Q () (emitted ev D' (rows @ new) v)"
  shows "safe X (forA (emit_one X e ev) xs) Q E (emitted ev D rows v)"
  using assms(2)
proof (induction xs arbitrary: D rows)
  case Nil
  from Nil.prems [of D "[]"] show ?case by (simp add: safe_ret)
next
  case (Cons s xs)
  let ?m = "forA (emit_one X e ev) xs"
  have rest: "safe X ?m Q E (emitted ev D' (rows @ new) v)"
    if "D' \<subseteq> insert (st_id s) D" "new = [] \<or> new = [emission_row e ev s]" for D' new
  proof (rule Cons.IH)
    fix D'' new'
    assume a: "D'' \<subseteq> D' \<union> st_id ` set xs" "mset new' \<subseteq># mset (map (emission_row e ev) xs)"
    have "mset (new @ new') \<subseteq># mset (map (emission_row e ev) (s # xs))"
      using that(2)
    proof
      assume "new = []"
      moreover have "mset (map (emission_row e ev) xs) \<subseteq># mset (map (emission_row e ev) (s # xs))"
        by (simp add: subseteq_mset_def)
      ultimately show ?thesis using subset_mset.order_trans [OF a(2)] by simp
    next
      assume "new = [emission_row e ev s]"
      with a(2) show ?thesis by simp
    qed
    with Cons.prems [of D'' "new @ new'"] that(1) a(1) show "Q () (emitted ev D'' ((rows @ new) @ new') v)" by auto
  qed
  show ?case unfolding forA.simps emit_one_def [of X e ev s]
    by (intro safe_bind safe_ignore safe_audit_create [OF assms(1)] safe_stack_update [OF assms(1)];
        (simp only: emitted_audit emitted_epoch)?; (rule rest | rule rest [of _ "[]", simplified]))
      auto
qed

lemma emit_safe:
  assumes "ext_ok X"
  shows "safe X (emit X e ev)
    (\<lambda>_ w. \<exists>D new. mset new \<subseteq># mset (map (emission_row e ev) (map snd (vw_stacks v))) \<and> w = emitted ev D new v)
    (\<lambda>w. w = v) v"
  unfolding emit_def
proof (intro safe_bind safe_stacks [OF assms])
  fix r
  assume "mset r = mset (map snd (vw_stacks v))"
  then have m: "mset (map (emission_row e ev) r) = mset (map (emission_row e ev) (map snd (vw_stacks v)))"
    by (simp only: mset_map)
  have "safe X (forA (emit_one X e ev) r)
    (\<lambda>_ w. \<exists>D new. mset new \<subseteq># mset (map (emission_row e ev) (map snd (vw_stacks v))) \<and> w = emitted ev D new v)
    (\<lambda>w. w = v) (emitted ev {} [] v)"
    by (rule emit_loop_safe [OF assms]) (use m in auto)
  then show "safe X (forA (emit_one X e ev) r)
    (\<lambda>_ w. \<exists>D new. mset new \<subseteq># mset (map (emission_row e ev) (map snd (vw_stacks v))) \<and> w = emitted ev D new v)
    (\<lambda>w. w = v) v" by (simp add: emitted_start)
qed simp

lemma is_emission_row: "is_emission sid (emission_row e ev s) \<longleftrightarrow> st_id s = sid"
  by (simp add: is_emission_def emission_row_def)

lemma own_emission:
  assumes "reg_inv v" "map_of (vw_stacks v) sid = Some st"
  shows "filter (is_emission sid) (map (emission_row e ev) (map snd (vw_stacks v))) = [emission_row e ev st]"
proof -
  have d: "distinct (map fst (vw_stacks v))" using assms(1) by (simp add: reg_inv_def)
  have id: "st_id s = k" if "(k, s) \<in> set (vw_stacks v)" for k s
    using reg_inv_stack [OF assms(1) map_of_is_SomeI [OF d that]] .
  have none: "filter (\<lambda>s. st_id s = sid) (map snd rows) = []"
    if "sid \<notin> fst ` set rows" "\<forall>(k, s) \<in> set rows. st_id s = k" for rows :: "(string \<times> stack) list"
    using that by (induction rows) auto
  have "filter (\<lambda>s. st_id s = sid) (map snd rows) = [st]"
    if "distinct (map fst rows)" "\<forall>(k, s) \<in> set rows. st_id s = k" "map_of rows sid = Some st" for rows
    using that
  proof (induction rows)
    case (Cons row rows)
    then show ?case
      using none [of rows] by (cases row; cases "fst row = sid") auto
  qed simp
  from this [OF d _ assms(2)] id have "filter (\<lambda>s. st_id s = sid) (map snd (vw_stacks v)) = [st]" by blast
  moreover have "filter (is_emission sid) (map (emission_row e ev) xs) = map (emission_row e ev) (filter (\<lambda>s. st_id s = sid) xs)" for xs
    by (simp add: filter_map comp_def is_emission_row)
  ultimately show ?thesis by (simp only: list.map)
qed

lemma claimable_emitted:
  assumes "reg_inv v" "map_of (vw_stacks v) sid = Some st"
    and "mset new \<subseteq># mset (map (emission_row e ev) (map snd (vw_stacks v)))"
  shows "claimable (emitted ev D new v) sid k \<in> {claimable v sid k, claimable v sid k + amount k (issuance e ev st)}"
    and "mset new = mset (map (emission_row e ev) (map snd (vw_stacks v))) \<Longrightarrow>
      claimable (emitted ev D new v) sid k = claimable v sid k + amount k (issuance e ev st)"
proof -
  let ?f = "\<lambda>r. detail_amount k (au_detail r)" and ?new = "filter (is_emission sid) new"
  have sum: "claimable (emitted ev D new v) sid k = claimable v sid k + (\<Sum>r\<leftarrow>?new. ?f r)"
    by (simp add: claimable_def emitted_def)
  have row: "?f (emission_row e ev st) = amount k (issuance e ev st)" by (simp add: emission_row_def)
  have own: "mset (filter (is_emission sid) (map (emission_row e ev) (map snd (vw_stacks v)))) = {#emission_row e ev st#}"
    unfolding own_emission [OF assms(1,2)] by simp
  have "mset ?new \<subseteq># {#emission_row e ev st#}"
    using multiset_filter_mono [OF assms(3), of "is_emission sid"] own by (simp only: mset_filter)
  then have "mset ?new = {#} \<or> mset ?new = {#emission_row e ev st#}"
    by (metis nonempty_subseteq_mset_eq_single)
  then have new: "?new = [] \<or> ?new = [emission_row e ev st]"
    by (simp only: mset_zero_iff mset_single_iff)
  then show "claimable (emitted ev D new v) sid k \<in> {claimable v sid k, claimable v sid k + amount k (issuance e ev st)}"
    unfolding sum using row by (elim disjE) (simp_all only:, simp_all)
  assume "mset new = mset (map (emission_row e ev) (map snd (vw_stacks v)))"
  then have "mset ?new = {#emission_row e ev st#}"
    using own by (metis mset_filter)
  then have "?new = [emission_row e ev st]" by (simp only: mset_single_iff)
  then show "claimable (emitted ev D new v) sid k = claimable v sid k + amount k (issuance e ev st)"
    unfolding sum by (simp only:) (simp add: row)
qed

subsection \<open>The treasury in a world without faults\<close>

lemma emit_one_table:
  assumes "map_of (vw_stacks v) (st_id s) \<noteq> None"
  shows "emit_one (table_ext put_reply recall_reply) e ev s (emitted ev D rows v) =
    (Inr (), emitted ev (insert (st_id s) D) (rows @ [emission_row e ev s]) v)"
proof -
  have "map_of (vw_stacks (emitted ev D (rows @ [emission_row e ev s]) v)) (st_id s) \<noteq> None"
    using assms by (auto simp: map_of_emitted)
  then show ?thesis
    by (simp add: emit_one_def bindA_def ignoreA_def table_calls emitted_audit emitted_epoch del: not_None_eq)
qed

lemma emit_loop_table:
  assumes "\<And>s. s \<in> set xs \<Longrightarrow> map_of (vw_stacks v) (st_id s) \<noteq> None"
  shows "forA (emit_one (table_ext put_reply recall_reply) e ev) xs (emitted ev D rows v) =
     (Inr (), emitted ev (D \<union> st_id ` set xs) (rows @ map (emission_row e ev) xs) v)"
  using assms
proof (induction xs arbitrary: D rows)
  case (Cons s xs)
  show ?case
    using Cons.IH [of "insert (st_id s) D" "rows @ [emission_row e ev s]"] Cons.prems
    by (simp add: bindA_def emit_one_table)
qed (simp add: ret_def)

lemma emit_table:
  assumes "reg_inv v"
  shows "emit (table_ext put_reply recall_reply) e ev v =
    (Inr (), emitted ev (fst ` set (vw_stacks v)) (map (emission_row e ev) (map snd (vw_stacks v))) v)"
proof -
  have d: "distinct (map fst (vw_stacks v))" using assms by (simp add: reg_inv_def)
  have id: "st_id s = k" "map_of (vw_stacks v) (st_id s) = Some s" if "(k, s) \<in> set (vw_stacks v)" for k s
    using reg_inv_stack [OF assms map_of_is_SomeI [OF d that]] map_of_is_SomeI [OF d that] by simp_all
  have ids: "st_id ` set (map snd (vw_stacks v)) = fst ` set (vw_stacks v)"
    using id(1) by (force simp: image_iff)
  have "map_of (vw_stacks v) (st_id s) \<noteq> None" if "s \<in> set (map snd (vw_stacks v))" for s
    using that id(2) by auto
  from emit_loop_table [of "map snd (vw_stacks v)" v put_reply recall_reply e ev "{}" "[]", OF this]
  have "forA (emit_one (table_ext put_reply recall_reply) e ev) (map snd (vw_stacks v)) v =
      (Inr (), emitted ev (fst ` set (vw_stacks v)) (map (emission_row e ev) (map snd (vw_stacks v))) v)"
    unfolding emitted_start ids by simp
  then show ?thesis by (simp add: emit_def bindA_def table_calls)
qed

subsection \<open>Properties\<close>

text \<open>C20: one delivery of an epoch transition pays each stack at most once, in any world and however many of its
  writes fail: what a stack can claim stays the same or grows by exactly its effective balance of the raw
  emission over the elapsed epochs, and the only other change to the stack is its epoch.\<close>

theorem treasury_pays_once:
  assumes "ext_ok X" "reg_inv v" "map_of (vw_stacks v) sid = Some st"
  shows "safe X (emit X e ev)
    (\<lambda>_ w. (claimable w sid k = claimable v sid k \<or> claimable w sid k = claimable v sid k + amount k (issuance e ev st)) \<and>
       (map_of (vw_stacks w) sid = Some st \<or> map_of (vw_stacks w) sid = Some (st\<lparr>st_epoch := ev\<rparr>)) \<and>
       vw_sleeves w = vw_sleeves v \<and> vw_events w = vw_events v)
    (\<lambda>w. w = v) v"
proof (rule safe_conseq [OF emit_safe [OF assms(1)]])
  fix r w
  assume "\<exists>D new. mset new \<subseteq># mset (map (emission_row e ev) (map snd (vw_stacks v))) \<and> w = emitted ev D new v"
  then obtain D new where m: "mset new \<subseteq># mset (map (emission_row e ev) (map snd (vw_stacks v)))"
    and w: "w = emitted ev D new v" by blast
  have "vw_sleeves w = vw_sleeves v \<and> vw_events w = vw_events v" by (simp add: w emitted_def)
  moreover have "map_of (vw_stacks w) sid = Some st \<or> map_of (vw_stacks w) sid = Some (st\<lparr>st_epoch := ev\<rparr>)"
    unfolding w map_of_emitted assms(3) by (simp add: set_epoch_def)
  ultimately show "(claimable w sid k = claimable v sid k \<or> claimable w sid k = claimable v sid k + amount k (issuance e ev st)) \<and>
       (map_of (vw_stacks w) sid = Some st \<or> map_of (vw_stacks w) sid = Some (st\<lparr>st_epoch := ev\<rparr>)) \<and>
       vw_sleeves w = vw_sleeves v \<and> vw_events w = vw_events v"
    using claimable_emitted(1) [OF assms(2,3) m, of D k] by (simp add: w)
qed

theorem treasury_pays_once_witness:
  "claimable (snd (emit demo_ext 100 7 demo_view)) (st_id demo_stack) Residue = 0"
proof -
  have v: "x_view demo_ext s = s" for s by (simp add: demo_simps)
  have st: "map_of (vw_stacks demo_view) (st_id demo_stack) = Some demo_stack" by (simp add: demo_view_def)
  have z: "claimable demo_view (st_id demo_stack) Residue = 0" by (simp add: claimable_def demo_view_def empty_view_def)
  have i: "tb_residue (issuance 100 7 demo_stack) = 0"
    by (simp add: issuance_def effectiveBalance_def raw_emission_def Let_def)
  obtain w where run: "emit demo_ext 100 7 demo_view = (Inr (), w)"
    using emit_table [OF reg_inv_demo] by (simp add: demo_ext_def)
  from treasury_pays_once [OF ext_ok_demo reg_inv_demo st, of 100 7 Residue] show ?thesis
    by (auto simp: safe_def v run z i)
qed

text \<open>In a world without faults every transition pays every stack, and the claim endpoint reports the sum
  of all payments ever made: after a delivery it is what it was before plus the new issuance.  Claiming
  itself changes nothing, so the same amount can be claimed again.\<close>

lemma treasury_claim_accumulates:
  assumes "reg_inv v" "map_of (vw_stacks v) sid = Some st" "k \<noteq> Residue"
  shows "\<exists>w t. emit (table_ext put_reply recall_reply) e ev v = (Inr (), w) \<and>
    claim (table_ext put_reply recall_reply) sid w = (Inr t, w) \<and>
    tok t k = claimable v sid k + amount k (issuance e ev st) \<and>
    map_of (vw_stacks w) sid = Some (st\<lparr>st_epoch := ev\<rparr>)"
proof -
  define w where "w = emitted ev (fst ` set (vw_stacks v)) (map (emission_row e ev) (map snd (vw_stacks v))) v"
  have run: "emit (table_ext put_reply recall_reply) e ev v = (Inr (), w)"
    using emit_table [OF assms(1)] by (simp add: w_def)
  obtain t where claim: "claim (table_ext put_reply recall_reply) sid w = (Inr t, w)"
    by (simp add: claim_def bindA_def table_calls ret_def)
  have "tok t k = claimable w sid k"
    using safeD_Inr [OF claim_safe [OF ext_ok_table], of put_reply recall_reply sid w t w] claim assms(3)
    by (simp add: table_calls)
  also have "\<dots> = claimable v sid k + amount k (issuance e ev st)"
    unfolding w_def by (rule claimable_emitted(2) [OF assms(1,2)]) simp_all
  finally have t: "tok t k = claimable v sid k + amount k (issuance e ev st)" .
  have "sid \<in> fst ` set (vw_stacks v)" using map_of_SomeD [OF assms(2)] by force
  then have "map_of (vw_stacks w) sid = Some (st\<lparr>st_epoch := ev\<rparr>)"
    by (simp add: w_def map_of_emitted assms(2) set_epoch_def)
  with run claim t show ?thesis by blast
qed

lemma treasury_claim_accumulates_witness:
  "\<exists>w t. emit demo_ext 100 2 demo_view = (Inr (), w) \<and> claim demo_ext (st_id demo_stack) w = (Inr t, w) \<and>
     tok t Compute = 100 * max 0.25 (exp (- 0.05))"
proof -
  have st: "map_of (vw_stacks demo_view) (st_id demo_stack) = Some demo_stack" by (simp add: demo_view_def)
  have z: "claimable demo_view (st_id demo_stack) Compute = 0" by (simp add: claimable_def demo_view_def empty_view_def)
  have i: "amount Compute (issuance 100 2 demo_stack) = 100 * max 0.25 (exp (- 0.05))"
    by (simp add: issuance_def effectiveBalance_def raw_emission_def Let_def elapsed_def demo_stack_def decay_def)
  show ?thesis
    using treasury_claim_accumulates [OF reg_inv_demo st token_kind.distinct(7), of
        "\<lambda>i. Inr (''ecca://'' @ replicate 64 CHR ''0'' @ ''@0'')" no_fragments 100 2] z i
    unfolding demo_ext_def [symmetric] by auto
qed

subsection \<open>The service keeps the registry invariant\<close>

lemma reg_inv_emitted:
  assumes "reg_inv v"
  shows "reg_inv (emitted ev D rows v)"
proof -
  have keys: "map fst (vw_stacks (emitted ev D rows v)) = map fst (vw_stacks v)"
    by (auto simp: emitted_def)
  have rest: "vw_sleeves (emitted ev D rows v) = vw_sleeves v" by (simp add: emitted_def)
  have "st_id st = k" if a: "map_of (vw_stacks (emitted ev D rows v)) k = Some st" for k st
  proof -
    obtain s0 where "map_of (vw_stacks v) k = Some s0" "st = (if k \<in> D then set_epoch ev s0 else s0)"
      using a unfolding map_of_emitted map_option_eq_Some by blast
    with reg_inv_stack [OF assms] show ?thesis by (auto simp: set_epoch_def)
  qed
  moreover have "sleeve_ok (emitted ev D rows v) k s" if "map_of (vw_sleeves v) k = Some s" for k s
    using reg_inv_sleeve [OF assms that] by (auto simp: sleeve_ok_def map_of_emitted)
  ultimately show ?thesis using assms unfolding reg_inv_def keys rest by blast
qed

datatype treasury_request = OnEpoch nat | Claim string

fun treasury :: "real \<Rightarrow> 's ext \<Rightarrow> treasury_request \<Rightarrow> ('s, unit) act" where
  "treasury e X (OnEpoch ev) = emit X e ev"
| "treasury e X (Claim sid) = bindA (claim X sid) (\<lambda>_. ret ())"

interpretation treasury_api: service "treasury e" reg_inv for e
proof
  fix X :: "'a ext" and v q
  assume a: "ext_ok X" "reg_inv v"
  show "safe X (treasury e X q) (\<lambda>_. reg_inv) reg_inv v"
  proof (cases q)
    case (OnEpoch ev)
    then show ?thesis
      using a by (auto intro!: safe_conseq [OF emit_safe] reg_inv_emitted)
  next
    case (Claim sid)
    then show ?thesis
      using a by (auto intro!: safe_bind safe_ret safe_conseq [OF claim_safe])
  qed
qed

end
