(* ===== verification/Workers.thy ===== *)
theory Workers
  imports Thalamus Treasury
begin

text \<open>
  \<^verbatim>\<open>workers/runner/src/server.ts\<close>: the six workers, as the actions their subscriptions and timers run.  The
  anchor table and the medulla node behind the epoch anchor worker are two calls of a parameter.
\<close>

subsection \<open>Epoch anchor\<close>

record anchor =
  ar_height :: "nat option"
  ar_blockHash :: string
  ar_roots :: shard_roots
  ar_crossRoot :: string
  ar_synapticFieldRoot :: string

record 's anchors =
  a_latest :: "('s, anchor) act"
  a_create :: "nat \<Rightarrow> nat \<Rightarrow> anchor \<Rightarrow> ('s, unit) act"

definition epochAnchor :: "'s anchors \<Rightarrow> nat \<Rightarrow> ('s, unit) act" where
  "epochAnchor A ev = ignoreA (bindA (a_latest A) (\<lambda>a. ignoreA (a_create A ev (or_else (ar_height a) 0) a)))"

subsection \<open>Drift detector\<close>

definition drift_events :: "real \<Rightarrow> sleeve \<Rightarrow> event list" where
  "drift_events mx s = SleeveDrift (sl_id s) (sl_stackId s) (sl_drift s) #
     (if mx * 2 < sl_drift s then [SleeveDesync (sl_id s) (sl_stackId s) (sl_drift s)] else [])"

definition driftDetector :: "'s ext \<Rightarrow> real \<Rightarrow> ('s, nat) act" where
  "driftDetector X mx =
     bindA (x_sleeves_where X (\<lambda>s. sl_alive s \<and> mx < sl_drift s)) (\<lambda>drifty.
     bindA (forA (\<lambda>s.
       bindA (x_publish X (SleeveDrift (sl_id s) (sl_stackId s) (sl_drift s))) (\<lambda>_.
       if mx * 2 < sl_drift s then x_publish X (SleeveDesync (sl_id s) (sl_stackId s) (sl_drift s)) else ret ())) drifty) (\<lambda>_.
     ret (length drifty)))"

subsection \<open>Residue collector\<close>

definition desync_residue :: "noble \<Rightarrow> nat \<Rightarrow> string \<Rightarrow> string \<Rightarrow> residue" where
  "desync_residue lib ts sleeveId stackId =
     \<lparr>re_id = sha256hex lib (Raw (Str (''desync:'' @ sleeveId @ '':'' @ dec ts))), re_kind = ''speculative-divergence'',
      re_stackId = stackId, re_sleeveId = sleeveId, re_status = ''open'', re_payoutEst = 5\<rparr>"

definition on_desync :: "'s ext \<Rightarrow> noble \<Rightarrow> nat \<Rightarrow> string \<Rightarrow> string \<Rightarrow> ('s, unit) act" where
  "on_desync X lib ts sleeveId stackId =
     (let r = desync_residue lib ts sleeveId stackId in
      bindA (ignoreA (x_residue_create X r)) (\<lambda>_.
      x_publish X (ResidueDetected (re_id r) ''speculative-divergence'' stackId)))"

definition stale_residue :: "noble \<Rightarrow> nat \<Rightarrow> sleeve \<Rightarrow> residue" where
  "stale_residue lib ev s =
     \<lparr>re_id = sha256hex lib (Raw (Str (''stale:'' @ sl_id s @ '':'' @ dec ev))), re_kind = ''stale-ordering'',
      re_stackId = sl_stackId s, re_sleeveId = sl_id s, re_status = ''open'', re_payoutEst = 2\<rparr>"

definition is_stale :: "nat \<Rightarrow> sleeve \<Rightarrow> bool" where
  "is_stale ev s \<longleftrightarrow> sl_alive s \<and> int (sl_syncEpoch s) < int ev - 4"

definition on_stale :: "'s ext \<Rightarrow> noble \<Rightarrow> nat \<Rightarrow> ('s, unit) act" where
  "on_stale X lib ev =
     bindA (x_sleeves_where X (is_stale ev)) (\<lambda>stale.
     forA (\<lambda>s. ignoreA (x_residue_create X (stale_residue lib ev s))) stale)"

subsection \<open>Memory reconciler and pinning\<close>

definition heal_stack :: "'s ext \<Rightarrow> stack \<Rightarrow> ('s, nat) act" where
  "heal_stack X s =
     (case head_links s of
        [] \<Rightarrow> ret 0
      | head # _ \<Rightarrow>
          bindA (tryA (bindA (x_hippo_recall X \<lparr>ha_rootCid = head, ha_stackId = st_id s, ha_epoch = st_epoch s,
              ha_depth = 4, ha_memoryToken = 100\<rparr>) (\<lambda>r. ret (Some r))) (\<lambda>_. ret None)) (\<lambda>r.
          case r of
            None \<Rightarrow> ret 0
          | Some r \<Rightarrow>
              let broken = or_else (hr_broken r) [] in
              bindA (forA (\<lambda>c. if CHR ''#'' \<notin> set c then ignoreA (x_hippo_pin X c) else ret ()) broken) (\<lambda>_.
              ret (length broken))))"

fun heal_all :: "'s ext \<Rightarrow> stack list \<Rightarrow> nat \<Rightarrow> ('s, nat) act" where
  "heal_all X [] healed = ret healed"
| "heal_all X (s # ss) healed = bindA (heal_stack X s) (\<lambda>n. heal_all X ss (healed + n))"

definition memoryReconciler :: "'s ext \<Rightarrow> ('s, nat) act" where
  "memoryReconciler X = bindA (x_stacks X) (\<lambda>all. heal_all X (take 100 (filter (\<lambda>s. st_episodicHead s \<noteq> None) all)) 0)"

definition pinningService :: "'s ext \<Rightarrow> string list option \<Rightarrow> ('s, unit) act" where
  "pinningService X shards = forA (\<lambda>c. ignoreA (x_hippo_pin X c)) (or_else shards [])"

subsection \<open>Bandwidth meter\<close>

text \<open>The map \<open>acc\<close>, in insertion order.\<close>

type_synonym meter = "(string \<times> tokens) list"

definition no_bandwidth :: tokens where
  "no_bandwidth = [(Compute, 0), (Memory, 0), (Routing, 0), (Sync, 0)]"

definition bump :: "string \<Rightarrow> token_kind \<Rightarrow> real \<Rightarrow> meter \<Rightarrow> meter" where
  "bump sid k v acc =
     (let cur = or_else (map_of acc sid) no_bandwidth in AList.update sid (set_tok k (tok cur k + v) cur) acc)"

fun on_bandwidth :: "event \<Rightarrow> meter \<Rightarrow> meter" where
  "on_bandwidth (SleevePerceive _ sid _ computeCost) acc = bump sid Compute computeCost acc"
| "on_bandwidth (MemoryRecall sid _ _ fragments _) acc = bump sid Memory (real fragments) acc"
| "on_bandwidth (NeedlecastRoute _ _ sid _ _ _) acc = bump sid Routing 5 acc"
| "on_bandwidth _ acc = acc"

definition meter_row :: "nat \<Rightarrow> string \<times> tokens \<Rightarrow> audit" where
  "meter_row ev e = \<lparr>au_stackId = fst e, au_epoch = ev, au_action = ''bandwidth.consumed'', au_detail = Consumption (snd e)\<rparr>"

definition flush_bandwidth :: "'s ext \<Rightarrow> nat \<Rightarrow> meter \<Rightarrow> ('s, meter) act" where
  "flush_bandwidth X ev acc = bindA (forA (\<lambda>e. ignoreA (x_audit_create X (meter_row ev e))) acc) (\<lambda>_. ret [])"

subsection \<open>Properties of the drift detector\<close>

lemma publish_all_safe:
  assumes "ext_ok X"
    and "\<And>x v. safe X (f x) (\<lambda>_ w. w = v\<lparr>vw_events := vw_events v @ g x\<rparr>)
           (\<lambda>w. \<exists>es. prefix es (g x) \<and> w = v\<lparr>vw_events := vw_events v @ es\<rparr>) v"
  shows "safe X (forA f xs) (\<lambda>_ w. w = v\<lparr>vw_events := vw_events v @ concat (map g xs)\<rparr>)
           (\<lambda>w. \<exists>es. prefix es (concat (map g xs)) \<and> w = v\<lparr>vw_events := vw_events v @ es\<rparr>) v"
proof (induction xs arbitrary: v)
  case (Cons x xs)
  show ?case unfolding forA.simps
  proof (rule safe_bind, rule safe_conseq [OF assms(2)])
    fix r w
    assume w: "w = v\<lparr>vw_events := vw_events v @ g x\<rparr>"
    have ext: "\<exists>es'. prefix es' (concat (map g (x # xs))) \<and> u = v\<lparr>vw_events := vw_events v @ es'\<rparr>"
      if "prefix es (concat (map g xs))" "u = w\<lparr>vw_events := vw_events w @ es\<rparr>" for es u
      using that by (intro exI [of _ "g x @ es"]) (simp add: w)
    show "safe X (forA f xs) (\<lambda>_ w. w = v\<lparr>vw_events := vw_events v @ concat (map g (x # xs))\<rparr>)
           (\<lambda>w. \<exists>es. prefix es (concat (map g (x # xs))) \<and> w = v\<lparr>vw_events := vw_events v @ es\<rparr>) w"
      by (rule safe_conseq [OF Cons]) (simp add: w, blast intro: ext)
  next
    fix w
    assume "\<exists>es. prefix es (g x) \<and> w = v\<lparr>vw_events := vw_events v @ es\<rparr>"
    then show "\<exists>es. prefix es (concat (map g (x # xs))) \<and> w = v\<lparr>vw_events := vw_events v @ es\<rparr>"
      by (metis concat.simps(2) list.simps(9) prefix_prefix)
  qed
qed (simp add: safe_ret)

text \<open>One round of the drift detector announces exactly the living sleeves whose drift is above the
  maximum, in some order: one drift event each, directly followed by a desync event if the drift is above
  twice the maximum.  If publishing fails, a prefix of these events was announced.\<close>

lemma drift_detector_exact:
  assumes "ext_ok X"
  shows "safe X (driftDetector X mx)
    (\<lambda>n w. \<exists>rows. mset rows = mset (filter (\<lambda>s. sl_alive s \<and> mx < sl_drift s) (map snd (vw_sleeves v))) \<and>
       n = length rows \<and> w = v\<lparr>vw_events := vw_events v @ concat (map (drift_events mx) rows)\<rparr>)
    (\<lambda>w. \<exists>rows es. mset rows = mset (filter (\<lambda>s. sl_alive s \<and> mx < sl_drift s) (map snd (vw_sleeves v))) \<and>
       prefix es (concat (map (drift_events mx) rows)) \<and> w = v\<lparr>vw_events := vw_events v @ es\<rparr>) v"
proof -
  have one: "safe X (bindA (x_publish X (SleeveDrift (sl_id s) (sl_stackId s) (sl_drift s))) (\<lambda>_.
       if mx * 2 < sl_drift s then x_publish X (SleeveDesync (sl_id s) (sl_stackId s) (sl_drift s)) else ret ()))
      (\<lambda>_ w. w = v\<lparr>vw_events := vw_events v @ drift_events mx s\<rparr>)
      (\<lambda>w. \<exists>es. prefix es (drift_events mx s) \<and> w = v\<lparr>vw_events := vw_events v @ es\<rparr>) v" for s v
  proof -
    have "\<exists>es. prefix es (drift_events mx s) \<and> v = v\<lparr>vw_events := vw_events v @ es\<rparr>" by (rule exI [of _ "[]"]) simp
    moreover have "\<exists>es. prefix es (drift_events mx s) \<and>
        v\<lparr>vw_events := vw_events v @ [SleeveDrift (sl_id s) (sl_stackId s) (sl_drift s)]\<rparr> = v\<lparr>vw_events := vw_events v @ es\<rparr>"
      by (rule exI [of _ "[SleeveDrift (sl_id s) (sl_stackId s) (sl_drift s)]"]) (simp add: drift_events_def)
    ultimately show ?thesis
      by (intro safe_bind safe_publish [OF assms] safe_if safe_ret) (simp_all add: drift_events_def)
  qed
  let ?p = "\<lambda>s. sl_alive s \<and> mx < sl_drift s"
  show ?thesis
    unfolding driftDetector_def
  proof (intro safe_bind safe_sleeves_where [OF assms])
    show "\<exists>rows es. mset rows = mset (filter ?p (map snd (vw_sleeves v))) \<and>
       prefix es (concat (map (drift_events mx) rows)) \<and> v = v\<lparr>vw_events := vw_events v @ es\<rparr>"
      by (rule exI [of _ "filter ?p (map snd (vw_sleeves v))"], rule exI [of _ "[]"]) simp
  next
    fix r
    assume r: "mset r = mset (filter ?p (map snd (vw_sleeves v)))"
    show "safe X (forA (\<lambda>s.
       bindA (x_publish X (SleeveDrift (sl_id s) (sl_stackId s) (sl_drift s))) (\<lambda>_.
       if mx * 2 < sl_drift s then x_publish X (SleeveDesync (sl_id s) (sl_stackId s) (sl_drift s)) else ret ())) r)
      (\<lambda>_. safe X (ret (length r)) (\<lambda>n w. \<exists>rows. mset rows = mset (filter ?p (map snd (vw_sleeves v))) \<and>
         n = length rows \<and> w = v\<lparr>vw_events := vw_events v @ concat (map (drift_events mx) rows)\<rparr>)
        (\<lambda>w. \<exists>rows es. mset rows = mset (filter ?p (map snd (vw_sleeves v))) \<and>
       prefix es (concat (map (drift_events mx) rows)) \<and> w = v\<lparr>vw_events := vw_events v @ es\<rparr>))
      (\<lambda>w. \<exists>rows es. mset rows = mset (filter ?p (map snd (vw_sleeves v))) \<and>
       prefix es (concat (map (drift_events mx) rows)) \<and> w = v\<lparr>vw_events := vw_events v @ es\<rparr>) v"
      by (rule safe_conseq [OF publish_all_safe [OF assms one]]) (use r in \<open>auto intro!: safe_ret\<close>)
  qed
qed

lemma drift_detector_exact_witness:
  "length (vw_events (snd (driftDetector demo_ext 1 demo_view))) = 4"
proof -
  have v: "x_view demo_ext s = s" for s by (simp add: demo_simps)
  obtain n w where run: "driftDetector demo_ext 1 demo_view = (Inr n, w)"
    by (simp add: driftDetector_def demo_simps bindA_def ret_def)
  have "length (concat (map (drift_events 1) rows)) = 4"
    if "mset rows = mset (filter (\<lambda>s. sl_alive s \<and> 1 < sl_drift s) (map snd (vw_sleeves demo_view)))" for rows
  proof -
    have m: "mset rows = {#demo_sleeve ''sa'', demo_sleeve ''sb''#}"
      using that by (simp add: demo_view_def) (simp add: demo_sleeve_def)
    have "length (concat (map (drift_events 1) rows)) = (\<Sum>s\<in>#mset rows. length (drift_events 1 s))"
      by (simp add: length_concat sum_mset_sum_list [symmetric] comp_def)
    also have "\<dots> = 4" unfolding m by (simp add: drift_events_def demo_sleeve_def)
    finally show ?thesis .
  qed
  moreover have "vw_events demo_view = []" by (simp add: demo_view_def empty_view_def)
  ultimately show ?thesis
    using drift_detector_exact [OF ext_ok_demo, of 1 demo_view] run by (auto simp: safe_def v)
qed

subsection \<open>Properties of the residue collector\<close>

definition residue_rows :: "residue list \<Rightarrow> (string \<times> residue) list" where
  "residue_rows rs = map (\<lambda>r. (re_id r, r)) rs"

lemma create_all_safe:
  assumes "ext_ok X"
  shows "safe X (forA (\<lambda>x. ignoreA (x_residue_create X (f x))) xs)
    (\<lambda>_ w. \<exists>ys. subseq ys xs \<and> w = v\<lparr>vw_residues := vw_residues v @ residue_rows (map f ys)\<rparr>) E v"
proof (induction xs arbitrary: v)
  case Nil
  show ?case unfolding forA.simps by (rule safe_ret) (rule exI [of _ "[]"], simp add: residue_rows_def)
next
  case (Cons x xs)
  have "safe X (forA (\<lambda>x. ignoreA (x_residue_create X (f x))) xs)
      (\<lambda>_ w. \<exists>ys. subseq ys (x # xs) \<and> w = v\<lparr>vw_residues := vw_residues v @ residue_rows (map f ys)\<rparr>) E v"
    by (rule safe_conseq [OF Cons]) auto
  moreover have "safe X (forA (\<lambda>x. ignoreA (x_residue_create X (f x))) xs)
      (\<lambda>_ w. \<exists>ys. subseq ys (x # xs) \<and> w = v\<lparr>vw_residues := vw_residues v @ residue_rows (map f ys)\<rparr>) E
      (v\<lparr>vw_residues := vw_residues v @ [(re_id (f x), f x)]\<rparr>)" (is "safe _ _ ?Q _ ?v")
  proof (rule safe_conseq [OF Cons])
    fix r :: unit and w
    assume "\<exists>ys. subseq ys xs \<and> w = ?v\<lparr>vw_residues := vw_residues ?v @ residue_rows (map f ys)\<rparr>"
    then obtain ys where "subseq ys xs" "w = ?v\<lparr>vw_residues := vw_residues ?v @ residue_rows (map f ys)\<rparr>" by blast
    then show "\<exists>ys. subseq ys (x # xs) \<and> w = v\<lparr>vw_residues := vw_residues v @ residue_rows (map f ys)\<rparr>"
      by (intro exI [of _ "x # ys"]) (simp add: residue_rows_def)
  qed
  ultimately show ?case unfolding forA.simps
    by (intro safe_bind safe_ignore safe_residue_create [OF assms])
qed

lemma create_table:
  "ignoreA (x_residue_create (table_ext put_reply recall_reply) r) v =
     (Inr (), if map_of (vw_residues v) (re_id r) = None then v\<lparr>vw_residues := vw_residues v @ [(re_id r, r)]\<rparr> else v)"
  by (simp add: ignoreA_def table_calls)

lemma create_all_again:
  assumes "\<And>x. x \<in> set xs \<Longrightarrow> map_of (vw_residues v) (re_id (f x)) \<noteq> None"
  shows "forA (\<lambda>x. ignoreA (x_residue_create (table_ext put_reply recall_reply) (f x))) xs v = (Inr (), v)"
  using assms
proof (induction xs)
  case (Cons x xs)
  have "map_of (vw_residues v) (re_id (f x)) \<noteq> None" using Cons.prems [of x] by simp
  with Cons show ?case by (simp add: bindA_def create_table del: not_None_eq)
qed (simp add: ret_def)

lemma create_all_table:
  "\<exists>w. forA (\<lambda>x. ignoreA (x_residue_create (table_ext put_reply recall_reply) (f x))) xs v = (Inr (), w) \<and>
     vw_sleeves w = vw_sleeves v \<and>
     (\<forall>k. map_of (vw_residues v) k \<noteq> None \<longrightarrow> map_of (vw_residues w) k \<noteq> None) \<and>
     (\<forall>x\<in>set xs. map_of (vw_residues w) (re_id (f x)) \<noteq> None)"
proof (induction xs arbitrary: v)
  case Nil
  show ?case by (intro exI [of _ v]) (simp add: ret_def)
next
  case (Cons x xs)
  define u where "u = (if map_of (vw_residues v) (re_id (f x)) = None
      then v\<lparr>vw_residues := vw_residues v @ [(re_id (f x), f x)]\<rparr> else v)"
  have u: "vw_sleeves u = vw_sleeves v" "map_of (vw_residues u) (re_id (f x)) \<noteq> None"
    "map_of (vw_residues v) k \<noteq> None \<Longrightarrow> map_of (vw_residues u) k \<noteq> None" for k
    by (auto simp: u_def map_add_def split: option.splits)
  obtain w where w: "forA (\<lambda>x. ignoreA (x_residue_create (table_ext put_reply recall_reply) (f x))) xs u = (Inr (), w)"
    "vw_sleeves w = vw_sleeves u" "\<forall>k. map_of (vw_residues u) k \<noteq> None \<longrightarrow> map_of (vw_residues w) k \<noteq> None"
    "\<forall>x\<in>set xs. map_of (vw_residues w) (re_id (f x)) \<noteq> None" using Cons.IH [of u] by blast
  have "forA (\<lambda>x. ignoreA (x_residue_create (table_ext put_reply recall_reply) (f x))) (x # xs) v = (Inr (), w)"
    using w(1) unfolding forA.simps by (simp only: bindA_def create_table u_def [symmetric] prod.case sum.case)
  with w u show ?case by (intro exI [of _ w]) auto
qed

text \<open>Stale-ordering residues are opened only for living sleeves that synchronised more than four epochs
  before the announced one, each at most once per round, with a payout of two, in any world.\<close>

lemma stale_residues_sound:
  assumes "ext_ok X"
  shows "safe X (on_stale X lib ev)
    (\<lambda>_ w. \<exists>rs ys. mset rs = mset (filter (\<lambda>s. sl_alive s \<and> sl_syncEpoch s + 4 < ev) (map snd (vw_sleeves v))) \<and> subseq ys rs \<and>
       w = v\<lparr>vw_residues := vw_residues v @ map (\<lambda>s. (re_id (stale_residue lib ev s), stale_residue lib ev s)) ys\<rparr>)
    (\<lambda>w. w = v) v"
proof -
  have p: "is_stale ev = (\<lambda>s. sl_alive s \<and> sl_syncEpoch s + 4 < ev)" by (auto simp: is_stale_def fun_eq_iff)
  show ?thesis
    unfolding on_stale_def
  proof (intro safe_bind safe_sleeves_where [OF assms])
    fix r
    assume "mset r = mset (filter (is_stale ev) (map snd (vw_sleeves v)))"
    then show "safe X (forA (\<lambda>s. ignoreA (x_residue_create X (stale_residue lib ev s))) r)
      (\<lambda>_ w. \<exists>rs ys. mset rs = mset (filter (\<lambda>s. sl_alive s \<and> sl_syncEpoch s + 4 < ev) (map snd (vw_sleeves v))) \<and> subseq ys rs \<and>
       w = v\<lparr>vw_residues := vw_residues v @ map (\<lambda>s. (re_id (stale_residue lib ev s), stale_residue lib ev s)) ys\<rparr>)
      (\<lambda>w. w = v) v"
      unfolding p by (intro safe_conseq [OF create_all_safe [OF assms]]) (auto simp: residue_rows_def comp_def)
  qed simp
qed

lemma stale_residues_sound_witness:
  "list_all (\<lambda>(k, r). re_payoutEst r = 2 \<and> re_sleeveId r \<in> {''sa'', ''sb''})
     (vw_residues (snd (on_stale demo_ext demo_noble 9 demo_view)))"
proof -
  have v: "x_view demo_ext s = s" for s by (simp add: demo_simps)
  obtain w where run: "on_stale demo_ext demo_noble 9 demo_view = (Inr (), w)"
    using create_all_table [of "\<lambda>i. Inr (''ecca://'' @ replicate 64 CHR ''0'' @ ''@0'')" no_fragments
        "stale_residue demo_noble 9" "filter (is_stale 9) (map snd (vw_sleeves demo_view))" demo_view]
    by (auto simp: on_stale_def bindA_def demo_ext_def table_calls)
  obtain rs ys where rs: "mset rs = mset (filter (\<lambda>s. sl_alive s \<and> sl_syncEpoch s + 4 < 9) (map snd (vw_sleeves demo_view)))"
    "subseq ys rs" "vw_residues w = vw_residues demo_view @ map (\<lambda>s. (re_id (stale_residue demo_noble 9 s), stale_residue demo_noble 9 s)) ys"
    using stale_residues_sound [OF ext_ok_demo, of demo_noble 9 demo_view] run by (auto simp: safe_def v)
  have "set rs \<subseteq> {demo_sleeve ''sa'', demo_sleeve ''sb''}"
    using mset_filter_set [OF rs(1)] by (auto simp: demo_view_def)
  then have "set ys \<subseteq> {demo_sleeve ''sa'', demo_sleeve ''sb''}" using rs(2) using list_emb_set [of "(=)" ys rs] by blast
  moreover have "vw_residues demo_view = []" by (simp add: demo_view_def empty_view_def)
  ultimately show ?thesis
    unfolding run snd_conv rs(3) by (auto simp: list_all_iff stale_residue_def demo_sleeve_def)
qed

text \<open>The residue ids make the handler idempotent: a redelivered epoch transition opens no residue a second
  time, because every create then meets its taken key.\<close>

lemma stale_residues_idempotent:
  "\<exists>w. on_stale (table_ext put_reply recall_reply) lib ev v = (Inr (), w) \<and>
     on_stale (table_ext put_reply recall_reply) lib ev w = (Inr (), w)"
proof -
  let ?rows = "\<lambda>v. filter (is_stale ev) (map snd (vw_sleeves v))"
  have run: "on_stale (table_ext put_reply recall_reply) lib ev v =
      forA (\<lambda>s. ignoreA (x_residue_create (table_ext put_reply recall_reply) (stale_residue lib ev s))) (?rows v) v" for v
    by (simp add: on_stale_def bindA_def table_calls)
  obtain w where w: "on_stale (table_ext put_reply recall_reply) lib ev v = (Inr (), w)" "vw_sleeves w = vw_sleeves v"
    "\<forall>s\<in>set (?rows v). map_of (vw_residues w) (re_id (stale_residue lib ev s)) \<noteq> None"
    unfolding run using create_all_table [of put_reply recall_reply "stale_residue lib ev" "?rows v" v] by blast
  then have "on_stale (table_ext put_reply recall_reply) lib ev w = (Inr (), w)"
    unfolding run by (intro create_all_again) auto
  with w(1) show ?thesis by blast
qed

subsection \<open>Properties of the bandwidth meter\<close>

fun bandwidth_cost :: "string \<Rightarrow> token_kind \<Rightarrow> event \<Rightarrow> real" where
  "bandwidth_cost sid k (SleevePerceive _ s _ c) = (if s = sid \<and> k = Compute then c else 0)"
| "bandwidth_cost sid k (MemoryRecall s _ _ n _) = (if s = sid \<and> k = Memory then real n else 0)"
| "bandwidth_cost sid k (NeedlecastRoute _ _ s _ _ _) = (if s = sid \<and> k = Routing then 5 else 0)"
| "bandwidth_cost sid k _ = 0"

definition metered :: "meter \<Rightarrow> string \<Rightarrow> token_kind \<Rightarrow> real" where
  "metered acc sid k = tok (or_else (map_of acc sid) no_bandwidth) k"

lemma tok_no_bandwidth [simp]: "tok no_bandwidth k = 0"
  by (simp add: no_bandwidth_def)

lemma metered_bump: "metered (bump s k' v acc) sid k = metered acc sid k + (if s = sid \<and> k = k' then v else 0)"
  by (auto simp: metered_def bump_def Let_def update_conv' or_else_def)

lemma metered_event: "metered (on_bandwidth ev acc) sid k = metered acc sid k + bandwidth_cost sid k ev"
  by (cases ev) (auto simp: metered_bump)

lemma metered_events: "metered (fold on_bandwidth evs acc) sid k = metered acc sid k + (\<Sum>ev\<leftarrow>evs. bandwidth_cost sid k ev)"
  by (induction evs arbitrary: acc) (simp_all add: metered_event)

lemma distinct_meter: "distinct (map fst acc) \<Longrightarrow> distinct (map fst (fold on_bandwidth evs acc))"
proof (induction evs arbitrary: acc)
  case (Cons ev evs)
  have "distinct (map fst (bump sid k v acc))" for sid k v
    using Cons.prems by (simp add: bump_def Let_def distinct_update)
  then have "distinct (map fst (on_bandwidth ev acc))" using Cons.prems by (cases ev) simp_all
  then show ?case using Cons.IH by simp
qed simp

lemma metered_rows:
  "distinct (map fst acc) \<Longrightarrow>
   (\<Sum>r\<leftarrow>filter (\<lambda>r. au_stackId r = sid) (map (meter_row ev) acc). detail_amount k (au_detail r)) = metered acc sid k"
proof (induction acc)
  case (Cons e acc)
  have "filter (\<lambda>r. au_stackId r = sid) (map (meter_row ev) acc) = []" if "sid \<notin> fst ` set acc"
    using that by (force simp: filter_empty_conv meter_row_def)
  moreover have "metered acc sid k = 0" if "sid \<notin> fst ` set acc"
    using that by (simp add: metered_def or_else_def map_of_eq_None_iff [THEN iffD2])
  ultimately show ?case
    using Cons by (cases e; cases "fst e = sid") (auto simp: metered_def or_else_def meter_row_def)
qed (simp add: metered_def or_else_def)

lemma flush_table:
  "flush_bandwidth (table_ext put_reply recall_reply) ev acc v =
     (Inr [], v\<lparr>vw_audit := vw_audit v @ map (meter_row ev) acc\<rparr>)"
proof -
  have "forA (\<lambda>e. ignoreA (x_audit_create (table_ext put_reply recall_reply) (meter_row ev e))) acc v =
      (Inr (), v\<lparr>vw_audit := vw_audit v @ map (meter_row ev) acc\<rparr>)"
    by (induction acc arbitrary: v) (simp_all add: ret_def bindA_def ignoreA_def table_calls)
  then show ?thesis by (simp add: flush_bandwidth_def bindA_def ret_def)
qed

text \<open>The meter loses and invents nothing: in a world without faults, flushing after any history of events
  writes at most one row per stack, whose amounts are for every token exactly the costs of that stack's
  events, and leaves the meter empty.\<close>

lemma bandwidth_conserved:
  "\<exists>rows. flush_bandwidth (table_ext put_reply recall_reply) ev (fold on_bandwidth evs []) v =
       (Inr [], v\<lparr>vw_audit := vw_audit v @ rows\<rparr>) \<and>
     distinct (map au_stackId rows) \<and>
     (\<forall>sid k. (\<Sum>r\<leftarrow>filter (\<lambda>r. au_stackId r = sid) rows. detail_amount k (au_detail r)) =
        (\<Sum>e\<leftarrow>evs. bandwidth_cost sid k e))"
proof -
  let ?acc = "fold on_bandwidth evs []"
  have d: "distinct (map fst ?acc)" by (rule distinct_meter) simp
  have ids: "map au_stackId (map (meter_row ev) ?acc) = map fst ?acc" by (simp add: meter_row_def)
  have sums: "(\<Sum>r\<leftarrow>filter (\<lambda>r. au_stackId r = sid) (map (meter_row ev) ?acc). detail_amount k (au_detail r)) =
        (\<Sum>e\<leftarrow>evs. bandwidth_cost sid k e)" for sid k
    unfolding metered_rows [OF d] metered_events by (simp add: metered_def or_else_def)
  show ?thesis
    using flush_table [of put_reply recall_reply ev ?acc v] d sums ids
    by (intro exI [of _ "map (meter_row ev) ?acc"] conjI allI) (simp_all only:)
qed

subsection \<open>The workers keep the registry invariant\<close>

datatype worker_request =
    DriftRound real
  | DesyncEvent nat string string
  | StaleEvent nat
  | ReconcileEvent
  | RouteEvent "string list option"
  | FlushEvent nat meter

fun worker :: "noble \<Rightarrow> 's ext \<Rightarrow> worker_request \<Rightarrow> ('s, unit) act" where
  "worker lib X (DriftRound mx) = bindA (driftDetector X mx) (\<lambda>_. ret ())"
| "worker lib X (DesyncEvent ts sl st) = on_desync X lib ts sl st"
| "worker lib X (StaleEvent ev) = on_stale X lib ev"
| "worker lib X ReconcileEvent = bindA (memoryReconciler X) (\<lambda>_. ret ())"
| "worker lib X (RouteEvent shards) = pinningService X shards"
| "worker lib X (FlushEvent ev acc) = bindA (flush_bandwidth X ev acc) (\<lambda>_. ret ())"

lemma loop_inv:
  assumes "reg_inv v" "\<And>x v. reg_inv v \<Longrightarrow> safe X (f x) (\<lambda>_. reg_inv) reg_inv v" "\<And>v. reg_inv v \<Longrightarrow> Q () v"
  shows "safe X (forA f xs) Q reg_inv v"
  using assms by (intro safe_for [where J = reg_inv])

lemma heal_stack_inv: "ext_ok X \<Longrightarrow> reg_inv v \<Longrightarrow> safe X (heal_stack X s) (\<lambda>_. reg_inv) reg_inv v"
  unfolding heal_stack_def Let_def
  by (intro safe_bind safe_try safe_list safe_option safe_ret allI loop_inv safe_hippo_recall safe_if safe_ignore safe_hippo_pin)

lemma heal_all_inv: "ext_ok X \<Longrightarrow> reg_inv v \<Longrightarrow> safe X (heal_all X ss n) (\<lambda>_. reg_inv) reg_inv v"
proof (induction ss arbitrary: n v)
  case (Cons s ss)
  show ?case unfolding heal_all.simps
    by (rule safe_bind, rule safe_conseq [OF heal_stack_inv [OF Cons.prems]]) (simp_all add: Cons)
qed (simp add: safe_ret)

lemma worker_inv:
  assumes "ext_ok X" "reg_inv v"
  shows "safe X (worker lib X q) (\<lambda>_. reg_inv) reg_inv v"
proof (cases q)
  case (DriftRound mx)
  show ?thesis unfolding DriftRound worker.simps driftDetector_def
    by (intro safe_bind safe_sleeves_where loop_inv safe_publish safe_if safe_ret assms) (simp_all add: assms)
next
  case (DesyncEvent ts sl st)
  show ?thesis unfolding DesyncEvent worker.simps on_desync_def Let_def
    by (intro safe_bind safe_ignore safe_residue_create safe_publish assms) (simp_all add: assms)
next
  case (StaleEvent ev)
  show ?thesis unfolding StaleEvent worker.simps on_stale_def
    by (intro safe_bind safe_sleeves_where loop_inv safe_ignore safe_residue_create assms) (simp_all add: assms)
next
  case ReconcileEvent
  show ?thesis unfolding ReconcileEvent worker.simps memoryReconciler_def
    by (intro safe_bind safe_stacks assms safe_conseq [OF heal_all_inv [OF assms]] safe_ret)
next
  case (RouteEvent shards)
  show ?thesis unfolding RouteEvent worker.simps pinningService_def
    by (intro loop_inv safe_ignore safe_hippo_pin assms)
next
  case (FlushEvent ev acc)
  show ?thesis unfolding FlushEvent worker.simps flush_bandwidth_def
    by (intro safe_bind loop_inv safe_ignore safe_audit_create safe_ret assms) (simp_all add: assms)
qed

interpretation worker_api: service "worker lib" reg_inv for lib
  by unfold_locales (rule worker_inv)

end
