(* ===== verification/Clients.thy ===== *)
theory Clients
  imports Inference Siyana
begin

text \<open>
  \<^verbatim>\<open>packages/chain/src/hippocampus.ts\<close> and \<^verbatim>\<open>packages/chain/src/medulla.ts\<close>: the HTTP clients of the memory and the
  mining node.  \<open>http\<close> is undici's \<open>request\<close>, an action of the outside world that answers or throws.  The type
  assertions \<open>as T\<close> on parsed bodies check nothing; how a JSON value looks through one is the parameter \<open>casts\<close>.
\<close>

subsection \<open>\<open>encodeURIComponent\<close>\<close>

definition uri_unreserved :: "char \<Rightarrow> bool" where
  "uri_unreserved c \<longleftrightarrow> (let n = code c in (48 \<le> n \<and> n \<le> 57) \<or> (65 \<le> n \<and> n \<le> 90) \<or> (97 \<le> n \<and> n \<le> 122)) \<or>
     c \<in> set ''-_.!~*()'' \<or> code c = 39"

definition upper_digit :: "nat \<Rightarrow> char" where
  "upper_digit n = (if n < 10 then char_of (48 + n) else char_of (55 + n))"

definition percent :: "byte \<Rightarrow> string" where
  "percent b = [CHR ''%'', upper_digit (unat b div 16), upper_digit (unat b mod 16)]"

definition uri_char :: "char \<Rightarrow> string" where
  "uri_char c = (if uri_unreserved c then [c] else concat (map percent (utf8_char c)))"

definition encodeURIComponent :: "string \<Rightarrow> string" where
  "encodeURIComponent s = concat (map uri_char s)"

subsection \<open>Requests and replies\<close>

datatype body = PutBody hippo_put_input | LeaseBody string nat | RecallBody hippo_recall_args | RpcBody nat string args

record client_request =
  cr_method :: string
  cr_url :: string
  cr_headers :: "(string \<times> string) list"
  cr_body :: "body option"

record client_reply =
  cl_status :: nat
  cl_text :: "string result"
  cl_json :: "json result"

record casts =
  as_cid :: "json \<Rightarrow> string"
  as_node :: "json \<Rightarrow> hippo_node"
  as_lease :: "json \<Rightarrow> bool \<times> nat"
  as_pin_status :: "json \<Rightarrow> string \<times> bool \<times> nat"
  as_recall :: "json \<Rightarrow> hippo_recall_reply"
  as_stat :: "json \<Rightarrow> nat \<times> nat \<times> nat"

type_synonym 's http = "client_request \<Rightarrow> ('s, client_reply) act"

definition post_json :: "string \<Rightarrow> body \<Rightarrow> client_request" where
  "post_json url b = \<lparr>cr_method = ''POST'', cr_url = url, cr_headers = [(''content-type'', ''application/json'')], cr_body = Some b\<rparr>"

definition plain :: "string \<Rightarrow> string \<Rightarrow> client_request" where
  "plain m url = \<lparr>cr_method = m, cr_url = url, cr_headers = [], cr_body = None\<rparr>"

text \<open>\<open>if (r.statusCode >= 400) throw\<close>, with or without the body's text in the message, and the parsed body.\<close>

definition failed_with_text :: "string \<Rightarrow> client_reply \<Rightarrow> ('s, unit) act" where
  "failed_with_text what r = (if 400 \<le> cl_status r
     then bindA (lift (cl_text r)) (\<lambda>t. throwA (what @ '' failed: '' @ dec (cl_status r) @ '' '' @ t)) else ret ())"

definition failed :: "string \<Rightarrow> client_reply \<Rightarrow> ('s, unit) act" where
  "failed what r = (if 400 \<le> cl_status r then throwA (what @ '' failed: '' @ dec (cl_status r)) else ret ())"

definition parsed :: "(json \<Rightarrow> 'a) \<Rightarrow> client_reply \<Rightarrow> ('s, 'a) act" where
  "parsed cast r = bindA (lift (cl_json r)) (\<lambda>j. ret (cast j))"

subsection \<open>The hippocampus client\<close>

definition hippo_put :: "'s http \<Rightarrow> casts \<Rightarrow> string \<Rightarrow> hippo_put_input \<Rightarrow> ('s, string) act" where
  "hippo_put http T base input =
     bindA (http (post_json (base @ ''/dag/put'') (PutBody input))) (\<lambda>r.
     bindA (failed_with_text ''put'' r) (\<lambda>_. parsed (as_cid T) r))"

definition hippo_get :: "'s http \<Rightarrow> casts \<Rightarrow> string \<Rightarrow> string \<Rightarrow> ('s, hippo_node option) act" where
  "hippo_get http T base c =
     bindA (http (plain ''GET'' (base @ ''/dag/get?cid='' @ encodeURIComponent c))) (\<lambda>r.
     if cl_status r = 404 then ret None
     else bindA (failed ''get'' r) (\<lambda>_. bindA (parsed (as_node T) r) (\<lambda>n. ret (Some n))))"

definition hippo_pin :: "'s http \<Rightarrow> string \<Rightarrow> string \<Rightarrow> ('s, unit) act" where
  "hippo_pin http base c =
     bindA (http (plain ''POST'' (base @ ''/pin/add?cid='' @ encodeURIComponent c))) (\<lambda>r. failed ''pin'' r)"

definition hippo_lease :: "'s http \<Rightarrow> casts \<Rightarrow> string \<Rightarrow> string \<Rightarrow> nat \<Rightarrow> ('s, bool \<times> nat) act" where
  "hippo_lease http T base c untilEpoch =
     bindA (http (post_json (base @ ''/pin/lease'') (LeaseBody c untilEpoch))) (\<lambda>r.
     bindA (failed_with_text ''lease'' r) (\<lambda>_. parsed (as_lease T) r))"

definition hippo_pinStatus :: "'s http \<Rightarrow> casts \<Rightarrow> string \<Rightarrow> string \<Rightarrow> nat \<Rightarrow> ('s, string \<times> bool \<times> nat) act" where
  "hippo_pinStatus http T base c epoch =
     bindA (http (plain ''GET'' (base @ ''/pin/status?cid='' @ encodeURIComponent c @ ''&epoch='' @ dec epoch))) (\<lambda>r.
     bindA (failed ''pinStatus'' r) (\<lambda>_. parsed (as_pin_status T) r))"

definition hippo_recall :: "'s http \<Rightarrow> casts \<Rightarrow> string \<Rightarrow> hippo_recall_args \<Rightarrow> ('s, hippo_recall_reply) act" where
  "hippo_recall http T base as =
     bindA (http (post_json (base @ ''/dhf/recall'') (RecallBody as))) (\<lambda>r.
     bindA (failed_with_text ''recall'' r) (\<lambda>_. parsed (as_recall T) r))"

definition hippo_snapshot :: "'s http \<Rightarrow> casts \<Rightarrow> string \<Rightarrow> ('s, nat \<times> nat \<times> nat) act" where
  "hippo_snapshot http T base = bindA (http (plain ''GET'' (base @ ''/stat''))) (\<lambda>r. parsed (as_stat T) r)"

subsection \<open>The medulla client\<close>

text \<open>The id of a call is the clock; the status code is not looked at.\<close>

definition medulla_error :: "string \<Rightarrow> json \<Rightarrow> string" where
  "medulla_error m err = ''medulla rpc '' @ m @ '': '' @ js_String (coalesce (opt_prop (Some err) ''message'') err)"

definition medulla_rpc :: "'s http \<Rightarrow> string \<Rightarrow> nat \<Rightarrow> string \<Rightarrow> args \<Rightarrow> ('s, js_value) act" where
  "medulla_rpc http base now m params =
     bindA (http (post_json (base @ ''/rpc'') (RpcBody now m params))) (\<lambda>r.
     bindA (lift (cl_json r)) (\<lambda>body.
     bindA (lift (prop_of (Some body) ''error'')) (\<lambda>err. case err of
       Some e \<Rightarrow> if truthy e then throwA (medulla_error m e) else ret (opt_prop (Some body) ''result'')
     | None \<Rightarrow> ret (opt_prop (Some body) ''result''))))"

definition getInfo :: "'s http \<Rightarrow> string \<Rightarrow> nat \<Rightarrow> ('s, js_value) act" where
  "getInfo http base now = medulla_rpc http base now ''getinfo'' []"

definition getEpochAnchor :: "'s http \<Rightarrow> string \<Rightarrow> nat \<Rightarrow> nat \<Rightarrow> ('s, js_value) act" where
  "getEpochAnchor http base now epoch = medulla_rpc http base now ''getepochanchor'' [(''epoch'', JNum (int epoch))]"

definition getLatestAnchor :: "'s http \<Rightarrow> string \<Rightarrow> nat \<Rightarrow> ('s, js_value) act" where
  "getLatestAnchor http base now = medulla_rpc http base now ''getlatestanchor'' []"

definition submitCoherenceRoot ::
  "'s http \<Rightarrow> string \<Rightarrow> nat \<Rightarrow> string \<Rightarrow> string \<Rightarrow> string \<Rightarrow> string \<Rightarrow> ('s, js_value) act" where
  "submitCoherenceRoot http base now cross evm ipfs sleeves = medulla_rpc http base now ''submitcoherenceroot''
     [(''crossRoot'', JStr cross), (''evmRoot'', JStr evm), (''ipfsRoot'', JStr ipfs), (''sleevesRoot'', JStr sleeves)]"

definition getSynapticProof :: "'s http \<Rightarrow> string \<Rightarrow> nat \<Rightarrow> string \<Rightarrow> ('s, js_value) act" where
  "getSynapticProof http base now blockHash = medulla_rpc http base now ''getsynapticproof'' [(''blockHash'', JStr blockHash)]"

definition joinPool :: "'s http \<Rightarrow> string \<Rightarrow> nat \<Rightarrow> string \<Rightarrow> string \<Rightarrow> ('s, js_value) act" where
  "joinPool http base now sleeveId pool = medulla_rpc http base now ''joinpool'' [(''sleeveId'', JStr sleeveId), (''pool'', JStr pool)]"

definition mineBlock :: "'s http \<Rightarrow> string \<Rightarrow> nat \<Rightarrow> string option \<Rightarrow> ('s, js_value) act" where
  "mineBlock http base now pool = medulla_rpc http base now ''mineblock''
     [(''pool'', JStr (case pool of None \<Rightarrow> ''genesis-pool'' | Some p \<Rightarrow> p))]"

subsection \<open>The client keeps the promises the services rely on\<close>

definition silent :: "'s ext \<Rightarrow> ('s, 'a) act \<Rightarrow> bool" where
  "silent X m \<longleftrightarrow> effect X m (\<lambda>r v v'. v' = v)"

lemma silent_iff: "silent X m \<longleftrightarrow> (\<forall>s. x_view X (snd (m s)) = x_view X s)"
proof -
  have "(case m s of (Inl e, s') \<Rightarrow> x_view X s' = x_view X s | (Inr r, s') \<Rightarrow> x_view X s' = x_view X s) =
      (x_view X (snd (m s)) = x_view X s)" for s
    by (cases "m s"; cases "fst (m s)") simp_all
  then show ?thesis by (simp add: silent_def effect_def)
qed

lemma silent_ret [intro]: "silent X (ret x)" "silent X (throwA e)" "silent X (lift r)"
  by (simp_all add: silent_iff ret_def throwA_def lift_def)

lemma silent_bind [intro]: "silent X m \<Longrightarrow> (\<And>x. silent X (f x)) \<Longrightarrow> silent X (bindA m f)"
  by (auto simp: silent_iff bindA_def split: prod.splits sum.splits) (metis snd_conv)+

lemma silent_if [intro]: "silent X m \<Longrightarrow> silent X m' \<Longrightarrow> silent X (if b then m else m')"
  by simp

lemma silent_parsed [intro]: "silent X (parsed cast r)" "silent X (failed what r)" "silent X (failed_with_text what r)"
  unfolding parsed_def failed_def failed_with_text_def by auto

lemma hippo_client_silent:
  assumes "\<And>q. silent X (http q)"
  shows "silent X (hippo_put http T base i)" "silent X (hippo_recall http T base a)" "silent X (hippo_pin http base c)"
  using assms unfolding hippo_put_def hippo_recall_def hippo_pin_def by blast+


definition demo_http :: "view http" where
  "demo_http q s = (Inr \<lparr>cl_status = (if cr_url q = ''b/dag/put'' then 507 else 200), cl_text = Inr ''full'', cl_json = Inr JNull\<rparr>, s)"

definition demo_casts :: casts where
  "demo_casts = \<lparr>as_cid = js_String,
     as_node = (\<lambda>j. \<lparr>hn_cid = [], hn_ciphertext = \<lparr>ep_iv = [], ep_ct = [], ep_v = 1\<rparr>, hn_links = [], hn_epoch = 0,
       hn_kind = [], hn_pinned = False, hn_stackId = []\<rparr>),
     as_lease = (\<lambda>j. (True, 0)), as_pin_status = (\<lambda>j. ([], True, 0)),
     as_recall = (\<lambda>j. \<lparr>hr_fragments = None, hr_broken = None, hr_fidelity = 1\<rparr>), as_stat = (\<lambda>j. (0, 0, 0))\<rparr>"


subsection \<open>Cids in addresses\<close>

definition upper_value :: "char \<Rightarrow> nat" where
  "upper_value c = (if code c < 65 then code c - 48 else code c - 55)"

fun percent_decode :: "string \<Rightarrow> bytes" where
  "percent_decode [] = []"
| "percent_decode (c # s) =
     (if c = CHR ''%'' then (case s of d # e # s' \<Rightarrow> word_of_nat (16 * upper_value d + upper_value e) # percent_decode s' | _ \<Rightarrow> [])
      else word_of_nat (code c) # percent_decode s)"

lemma upper_value_digit: "n < 16 \<Longrightarrow> upper_value (upper_digit n) = n"
  by (simp add: upper_value_def upper_digit_def code_def)

lemma decode_percent: "percent_decode (percent b @ s) = b # percent_decode s"
proof -
  have "word_of_nat (16 * (unat b div 16) + unat b mod 16) = b" by (subst mult_div_mod_eq) simp
  then show ?thesis by (simp add: percent_def upper_value_digit del: of_nat_add of_nat_mult)
qed

lemma decode_char: "percent_decode (uri_char c @ s) = utf8_char c @ percent_decode s"
proof (cases "uri_unreserved c")
  case True
  then have "code c < 128" "c \<noteq> CHR ''%''" by (auto simp: uri_unreserved_def code_def Let_def)
  with True show ?thesis by (simp add: uri_char_def utf8_char_def code_def)
next
  case False
  have "percent_decode (concat (map percent bs) @ s) = bs @ percent_decode s" for bs
    by (induction bs) (simp_all add: decode_percent)
  with False show ?thesis by (simp add: uri_char_def)
qed

lemma decode_encode: "percent_decode (encodeURIComponent s) = utf8 s"
proof (induction s)
  case (Cons c s)
  then show ?case by (simp add: encodeURIComponent_def decode_char)
qed (simp add: encodeURIComponent_def)

lemma uri_chars: "c \<in> set (encodeURIComponent s) \<Longrightarrow> uri_unreserved c \<or> c = CHR ''%''"
proof -
  have "uri_unreserved (upper_digit n)" if "n < 16" for n
    using that by (auto simp: uri_unreserved_def upper_digit_def code_def Let_def)
  then have "uri_unreserved d \<or> d = CHR ''%''" if "d \<in> set (percent b)" for b d
    using that by (auto simp: percent_def)
  then show "c \<in> set (encodeURIComponent s) \<Longrightarrow> uri_unreserved c \<or> c = CHR ''%''"
    by (auto simp: encodeURIComponent_def uri_char_def split: if_splits)
qed

text \<open>The cid in the address of a request.  Percent-encoding loses nothing: decoding gives back the bytes of
  the cid, no two cids share an encoding, and the encoding contains none of the characters that delimit an
  address, so what is asked about is exactly the given cid.\<close>

lemma uri_component_roundtrip:
  "percent_decode (encodeURIComponent c) = utf8 c \<and> utf8_decode (percent_decode (encodeURIComponent c)) = c \<and>
   (encodeURIComponent c = encodeURIComponent d) = (c = d) \<and>
   list_all (\<lambda>x. x \<notin> set ''/?&=#: '') (encodeURIComponent c)"
proof -
  have "(encodeURIComponent c = encodeURIComponent d) = (c = d)"
    using decode_encode [of c] decode_encode [of d] by (metis utf8_inj)
  moreover have "list_all (\<lambda>x. x \<notin> set ''/?&=#: '') (encodeURIComponent c)"
    unfolding list_all_iff by (auto dest!: uri_chars simp: uri_unreserved_def code_def Let_def)
  ultimately show ?thesis by (simp add: decode_encode)
qed

text \<open>An HTTP error with a JSON body that has no \<open>error\<close> field is a success of the call without a result.\<close>

lemma medulla_ignores_status:
  assumes "http (post_json (base @ ''/rpc'') (RpcBody now m params)) s = (Inr r, s')"
    and "cl_json r = Inr (JObj ps)" "map_of ps ''error'' = None"
  shows "medulla_rpc http base now m params s = (Inr (map_of ps ''result''), s')"
  using assms by (simp add: medulla_rpc_def bindA_def lift_def ret_def prop_of_def nullish_def opt_prop_def)

end
