(* ===== verification/Gateway.thy ===== *)
theory Gateway
  imports Needlecast Clients Bus
begin

text \<open>
  The parts of the gateway \<^verbatim>\<open>services/siyana-api/src/server.ts\<close> that look beyond the registry: requests that are passed
  on to other services, the listing of residues, and the fan-out of the bus to the WebSocket clients.
\<close>

subsection \<open>Requests between services\<close>

text \<open>A request may get lost on its way, or its answer may.\<close>

datatype net = Delivered | Unsent | Unanswered

definition fetch_via :: "net \<Rightarrow> ('s, 'a) act \<Rightarrow> ('s, 'a) act" where
  "fetch_via n m = (case n of
     Delivered \<Rightarrow> m
   | Unsent \<Rightarrow> throwA ''TypeError: fetch failed''
   | Unanswered \<Rightarrow> bindA m (\<lambda>_. throwA ''TypeError: fetch failed''))"

text \<open>A handler that throws is answered with status 500.\<close>

definition answered :: "('s, 'b response) act \<Rightarrow> ('s, 'b response) act" where
  "answered m = tryA m (\<lambda>e. ret (Refused 500 e))"

text \<open>
  The needlecast endpoint passes the request on to the needlecast router and answers with whatever JSON comes
  back, always with status 200; for a caller that only looks at the saga, every failure is the absence of one.
\<close>

definition forward_needlecast ::
  "net \<Rightarrow> 's ext \<Rightarrow> noble \<Rightarrow> nat \<Rightarrow> string \<Rightarrow> string \<Rightarrow> ('s, (string \<times> string \<times> nat) option response) act" where
  "forward_needlecast n X lib now f t =
     bindA (attempt (fetch_via n (answered (needlecast X lib now f t)))) (\<lambda>r.
     ret (Reply (case r of Inr (Reply out) \<Rightarrow> Some out | _ \<Rightarrow> None)))"

definition mining_block :: "'s http \<Rightarrow> string \<Rightarrow> nat \<Rightarrow> ('s, js_value) act" where
  "mining_block http base now = mineBlock http base now None"

text \<open>The fifty youngest residues, given the rows with the times of their detection.\<close>

definition list_residues :: "(nat \<times> residue) list \<Rightarrow> residue list" where
  "list_residues rows = take 50 (map snd (rev (sort_key fst rows)))"

subsection \<open>WebSocket fan-out\<close>

text \<open>
  The connected clients in the order of a JavaScript set, what each was sent, and whether its socket
  accepts.  A send that throws is dropped.
\<close>

record fanout =
  fo_clients :: "nat list"
  fo_sent :: "(nat \<times> event) list"

datatype fan_event = Opened nat | Closed nat | OnBus event "nat \<Rightarrow> bool"

fun send_all :: "(nat \<Rightarrow> bool) \<Rightarrow> event \<Rightarrow> nat list \<Rightarrow> (nat \<times> event) list" where
  "send_all accepts ev [] = []"
| "send_all accepts ev (c # cs) = (if accepts c then [(c, ev)] else []) @ send_all accepts ev cs"

fun fan_step :: "fanout \<Rightarrow> fan_event \<Rightarrow> fanout" where
  "fan_step f (Opened c) = (if c \<in> set (fo_clients f) then f else f\<lparr>fo_clients := fo_clients f @ [c]\<rparr>)"
| "fan_step f (Closed c) = f\<lparr>fo_clients := filter (\<lambda>d. d \<noteq> c) (fo_clients f)\<rparr>"
| "fan_step f (OnBus ev accepts) = f\<lparr>fo_sent := fo_sent f @ send_all accepts ev (fo_clients f)\<rparr>"

definition fan_after :: "fan_event list \<Rightarrow> fanout" where
  "fan_after es = foldl fan_step \<lparr>fo_clients = [], fo_sent = []\<rparr> es"

lemma send_all_filter: "send_all accepts ev cs = map (\<lambda>c. (c, ev)) (filter accepts cs)"
  by (induction cs) simp_all

lemma fan_after_snoc: "fan_after (es @ [e]) = fan_step (fan_after es) e"
  by (simp add: fan_after_def)

lemma fan_clients_distinct: "distinct (fo_clients (fan_after es))"
proof (induction es rule: rev_induct)
  case (snoc e es)
  then show ?case by (cases e) (simp_all add: fan_after_snoc)
qed (simp add: fan_after_def)

text \<open>What a client should have got: every event while it was connected and its socket accepted.\<close>

fun due :: "nat \<Rightarrow> bool \<Rightarrow> fan_event list \<Rightarrow> event list" where
  "due c on [] = []"
| "due c on (Opened d # es) = due c (on \<or> d = c) es"
| "due c on (Closed d # es) = due c (on \<and> d \<noteq> c) es"
| "due c on (OnBus ev accepts # es) = (if on \<and> accepts c then [ev] else []) @ due c on es"

definition got :: "nat \<Rightarrow> fanout \<Rightarrow> event list" where
  "got c f = map snd (filter (\<lambda>p. fst p = c) (fo_sent f))"

lemma got_all:
  "distinct cs \<Longrightarrow> map snd (filter (\<lambda>p. fst p = c) (send_all accepts ev cs)) = (if c \<in> set cs \<and> accepts c then [ev] else [])"
  by (induction cs) auto

lemma due_from:
  "distinct (fo_clients f) \<Longrightarrow> got c (foldl fan_step f es) = got c f @ due c (c \<in> set (fo_clients f)) es"
proof (induction es arbitrary: f)
  case (Cons e es)
  have "distinct (fo_clients (fan_step f e))" using Cons.prems by (cases e) auto
  note IH = Cons.IH [OF this]
  have "(c \<in> set (fo_clients (fan_step f (Opened d)))) = (c \<in> set (fo_clients f) \<or> d = c)"
    "(c \<in> set (fo_clients (fan_step f (Closed d)))) = (c \<in> set (fo_clients f) \<and> d \<noteq> c)" for d by auto
  with IH Cons.prems show ?case
    by (cases e) (simp_all only: foldl.simps due.simps, simp_all add: got_def got_all)
qed simp

text \<open>Every client gets exactly the events of the time it is connected, in their order and once each, however
  the sockets of the others behave.\<close>

lemma fanout_delivers: "got c (fan_after es) = due c False es"
  using due_from [of "\<lparr>fo_clients = [], fo_sent = []\<rparr>" c es] by (simp add: fan_after_def got_def)

end
