(* ===== verification/Sleeve.thy ===== *)
theory Sleeve
  imports Gateway
begin

text \<open>
  \<^verbatim>\<open>services/sleeve-runtime/src/server.ts\<close>: the process behind one sleeve.  It registers a sleeve with the
  gateway and then, depending on its kind, perceives, syncs or joins the mining pool in a timer.  It is
  composed here with the gateway's handlers of theory \<^theory_text>\<open>Siyana\<close>, over the network of theory \<^theory_text>\<open>Gateway\<close>.
  The random choice of a text is an argument; dashes and apostrophes of the texts are ASCII here.
\<close>

subsection \<open>Calls of the gateway\<close>

definition api :: "net \<Rightarrow> string \<Rightarrow> ('s, 'b response) act \<Rightarrow> ('s, 'b) act" where
  "api n what m = bindA (fetch_via n (answered m)) (\<lambda>r. case r of
     Reply b \<Rightarrow> ret b | Refused c e \<Rightarrow> throwA (''Error: '' @ what @ '' -> '' @ dec c))"

subsection \<open>Start\<close>

record sleeve_env =
  se_kind :: string
  se_stackId :: "string option"
  se_hostname :: string

definition ensureStack ::
  "'s ext \<Rightarrow> noble \<Rightarrow> sleeve_env \<Rightarrow> nat \<Rightarrow> bytes \<Rightarrow> net \<Rightarrow> net \<Rightarrow> ('s, string) act" where
  "ensureStack X lib cfg now priv n1 n2 =
     (case se_stackId cfg of
        Some (c # cs) \<Rightarrow> ret (c # cs)
      | _ \<Rightarrow>
          bindA (api n1 ''GET /v1/stacks'' (list_stacks X)) (\<lambda>found. case found of
             (st, _) # _ \<Rightarrow> ret (st_id st)
           | [] \<Rightarrow> bindA (api n2 ''POST /v1/stacks'' (create_stack X lib now priv (''auto-'' @ se_hostname cfg)
                 (Some (if se_kind cfg = ''ai'' then ''ai'' else ''human'')))) (\<lambda>(st, _). ret (st_id st))))"

text \<open>\<open>main\<close> up to the timer: the id of the registered sleeve.\<close>

definition sleeve_main ::
  "'s ext \<Rightarrow> noble \<Rightarrow> sleeve_env \<Rightarrow> nat \<Rightarrow> bytes \<Rightarrow> net \<Rightarrow> net \<Rightarrow> net \<Rightarrow> ('s, string) act" where
  "sleeve_main X lib cfg now priv n1 n2 n3 =
     bindA (ensureStack X lib cfg now priv n1 n2) (\<lambda>stackId.
     bindA (api n3 ''POST /v1/sleeves'' (spawn_sleeve X lib now stackId (Some (se_kind cfg)) (Some (se_hostname cfg)))) (\<lambda>created.
     ret (sl_id created)))"

subsection \<open>The timer\<close>

definition aiPrompts :: "string list" where
  "aiPrompts = [''Decompose the residue: which kind?'', ''Estimate drift between this sleeve and tip.'',
     ''What does coherence imply at epoch boundary?'', ''Identify the marginal benefit of this synaptic write.'']"

definition humanThoughts :: "string list" where
  "humanThoughts = [''I remember the rain through the window.'', ''A name on the tip of my tongue - gone.'',
     ''The corridor smells like ozone again.'',
     ''Was that voice mine or someone else'' @ [CHR 0x27] @ ''s?'']"

text \<open>
  What one firing of the timer meets: the random choice, the random bytes of the gateway, its clock, the
  network, and the language model: absent, failing, or answering with or without a \<open>response\<close>.
\<close>

record moment =
  mo_pick :: nat
  mo_rnd :: bytes
  mo_now :: nat
  mo_net :: net
  mo_llm :: "string option result option"

definition perceive_call :: "'s ext \<Rightarrow> noble \<Rightarrow> string \<Rightarrow> moment \<Rightarrow> string \<Rightarrow> string \<Rightarrow> ('s, unit) act" where
  "perceive_call X lib ms t i txt = ignoreA (api (mo_net t) (''POST /v1/sleeves/'' @ i @ ''/perceive'')
     (perceive X lib ms (mo_rnd t) i txt))"

definition tickHuman :: "'s ext \<Rightarrow> noble \<Rightarrow> string \<Rightarrow> moment \<Rightarrow> string \<Rightarrow> ('s, unit) act" where
  "tickHuman X lib ms t i = perceive_call X lib ms t i (humanThoughts ! (mo_pick t mod length humanThoughts))"

definition ai_prompt :: "moment \<Rightarrow> string" where
  "ai_prompt t = (let canned = aiPrompts ! (mo_pick t mod length aiPrompts) in
     case mo_llm t of Some (Inr (Some r)) \<Rightarrow> r | _ \<Rightarrow> canned)"

definition tickAI :: "'s ext \<Rightarrow> noble \<Rightarrow> string \<Rightarrow> moment \<Rightarrow> string \<Rightarrow> ('s, unit) act" where
  "tickAI X lib ms t i = perceive_call X lib ms t i (ai_prompt t)"

text \<open>\<open>pool\<close> is the call of the mining pool; it is given the host name, not the sleeve's id.\<close>

definition tickMining :: "(string \<Rightarrow> string \<Rightarrow> ('s, unit) act) \<Rightarrow> sleeve_env \<Rightarrow> ('s, unit) act" where
  "tickMining pool cfg = ignoreA (pool ''main'' (se_hostname cfg))"

text \<open>
  The sync call announces a JSON body and sends none.  \<open>lax\<close> says whether the web framework hands such a
  request to the handler; Fastify's documentation says it answers 400
  (\<^verbatim>\<open>FST_ERR_CTP_EMPTY_JSON_BODY\<close>).
\<close>

definition tickMemory :: "'s ext \<Rightarrow> bool \<Rightarrow> moment \<Rightarrow> string \<Rightarrow> ('s, unit) act" where
  "tickMemory X lax t i = ignoreA (api (mo_net t) (''POST /v1/sleeves/'' @ i @ ''/sync'')
     (if lax then sync_sleeve X (mo_now t) i else ret (Refused 400 ''FST_ERR_CTP_EMPTY_JSON_BODY'')))"

definition sleeve_tick ::
  "'s ext \<Rightarrow> noble \<Rightarrow> string \<Rightarrow> bool \<Rightarrow> (string \<Rightarrow> string \<Rightarrow> ('s, unit) act) \<Rightarrow> sleeve_env \<Rightarrow> string \<Rightarrow> moment \<Rightarrow> ('s, unit) act" where
  "sleeve_tick X lib ms lax pool cfg i t =
     (if se_kind cfg = ''ai'' then tickAI X lib ms t i
      else if se_kind cfg = ''mining'' then tickMining pool cfg
      else if se_kind cfg = ''memory'' then tickMemory X lax t i
      else tickHuman X lib ms t i)"

text \<open>The hook of the graceful shutdown.\<close>

definition sleeve_shutdown :: "'s ext \<Rightarrow> net \<Rightarrow> string \<Rightarrow> ('s, unit) act" where
  "sleeve_shutdown X n i = ignoreA (api n (''DELETE /v1/sleeves/'' @ i) (decommission X i))"

subsection \<open>Rules for calls of the gateway\<close>

lemma safe_fetch [safe_intros]:
  "E v \<Longrightarrow> safe X m (\<lambda>r v. Q r v \<and> E v) E v \<Longrightarrow> safe X (fetch_via n m) Q E v"
proof (cases n)
  case Unanswered
  assume m: "E v" "safe X m (\<lambda>r v. Q r v \<and> E v) E v"
  have "safe X m (\<lambda>r. safe X (throwA ''TypeError: fetch failed'') Q E) E v"
    by (rule safe_conseq [OF m(2)]) (simp_all add: safe_throw)
  with Unanswered show ?thesis by (simp add: fetch_via_def safe_bind)
qed (auto simp: fetch_via_def safe_throw elim: safe_conseq)

lemma safe_api:
  assumes "E v" "safe X m (\<lambda>r v. E v \<and> (case r of Reply b \<Rightarrow> Q b v | Refused c e \<Rightarrow> True)) E v"
  shows "safe X (api n what m) Q E v"
proof -
  let ?k = "\<lambda>r. case r of Reply b \<Rightarrow> ret b | Refused c e \<Rightarrow> throwA (''Error: '' @ what @ '' -> '' @ dec c)"
  have k: "safe X (?k r) Q E w" if "E w" "case r of Reply b \<Rightarrow> Q b w | Refused c e \<Rightarrow> True" for r w
    using that by (cases r) (simp_all add: safe_ret safe_throw)
  have "safe X (answered m) (\<lambda>r w. safe X (?k r) Q E w \<and> E w) E v"
    unfolding answered_def
  proof (rule safe_try, rule safe_conseq [OF assms(2)])
    fix w assume "E w"
    then show "\<forall>e. safe X (ret (Refused 500 e)) (\<lambda>r w. safe X (?k r) Q E w \<and> E w) E w"
      by (simp add: safe_ret safe_throw)
  qed (use k in auto)
  with assms(1) show ?thesis unfolding api_def by (intro safe_bind safe_fetch)
qed

lemma safe_api_keep:
  assumes "E v" "safe X m (\<lambda>r v. E v) E v"
  shows "safe X (api n what m) (\<lambda>_. E) E v"
proof (rule safe_api)
  show "safe X m (\<lambda>r w. E w \<and> (case r of Reply b \<Rightarrow> E w | Refused c e \<Rightarrow> True)) E v"
    by (rule safe_conseq [OF assms(2)]) (auto split: response.splits)
qed (rule assms(1))

lemma safe_tick: "E v \<Longrightarrow> safe X m (\<lambda>r v. E v) E v \<Longrightarrow> safe X (ignoreA (api n what m)) (\<lambda>_. E) F v"
  by (rule safe_ignore, rule safe_api_keep)

subsection \<open>What a sleeve can spend\<close>

text \<open>
  The account of a sleeve: a perception raises the drift by one and costs half a compute token, so drift
  plus twice the compute tokens stays what it was.
\<close>

definition drifted :: "string \<Rightarrow> sleeve \<Rightarrow> nat \<Rightarrow> view \<Rightarrow> bool" where
  "drifted i s k w \<longleftrightarrow> reg_inv w \<and> (\<exists>s'. map_of (vw_sleeves w) i = Some s' \<and>
     sl_stackId s' = sl_stackId s \<and> sl_alive s' = sl_alive s \<and>
     sl_drift s' = sl_drift s + real k \<and> tok (sl_tokens s') Compute = tok (sl_tokens s) Compute - real k / 2)"

definition perceptions :: "string \<Rightarrow> sleeve \<Rightarrow> nat \<Rightarrow> view \<Rightarrow> bool" where
  "perceptions i s n w \<longleftrightarrow> (\<exists>k \<le> n. drifted i s k w)"

lemma drifted_0: "reg_inv v \<Longrightarrow> map_of (vw_sleeves v) i = Some s \<Longrightarrow> drifted i s 0 v"
  by (simp add: drifted_def)

lemma perceptions_0: "reg_inv v \<Longrightarrow> map_of (vw_sleeves v) i = Some s \<Longrightarrow> perceptions i s 0 v"
  by (simp add: perceptions_def drifted_0)

lemma perceptions_mono: "perceptions i s m w \<Longrightarrow> m \<le> n \<Longrightarrow> perceptions i s n w"
  unfolding perceptions_def using le_trans by blast

lemma perceived_drifts:
  assumes "drifted i s k w" "map_of (vw_sleeves w) i = Some s1"
    and "w' = perceived w i s1 c \<or> w' = (perceived w i s1 c)\<lparr>vw_events := es\<rparr>" "reg_inv w'"
  shows "drifted i s (Suc k) w'"
proof -
  have s1: "sl_stackId s1 = sl_stackId s" "sl_alive s1 = sl_alive s"
    "sl_drift s1 = sl_drift s + real k" "tok (sl_tokens s1) Compute = tok (sl_tokens s) Compute - real k / 2"
    using assms(1,2) by (auto simp: drifted_def)
  let ?s = "s1\<lparr>sl_drift := sl_drift s1 + 1, sl_tokens := set_tok Compute (tok (sl_tokens s1) Compute - 0.5) (sl_tokens s1)\<rparr>"
  have "map_of (vw_sleeves w') i = Some ?s" using assms(2,3) by (auto simp: perceived_def)
  moreover have "sl_drift ?s = sl_drift s + real (Suc k)" "tok (sl_tokens ?s) Compute = tok (sl_tokens s) Compute - real (Suc k) / 2"
    using s1 by (simp_all add: field_simps)
  ultimately show ?thesis
    unfolding drifted_def using s1(1,2) assms(4) by (intro conjI exI [of _ ?s]) simp_all
qed

lemma perceived_counts:
  assumes "perceptions i s n w" "map_of (vw_sleeves w) i = Some s1"
    and "w' = perceived w i s1 c \<or> w' = (perceived w i s1 c)\<lparr>vw_events := es\<rparr>" "reg_inv w'"
  shows "perceptions i s (Suc n) w'"
  using assms perceived_drifts [OF _ assms(2-4)] unfolding perceptions_def by (meson Suc_le_mono)

lemma perceive_call_safe:
  assumes "ext_ok X" "perceptions i s n w"
  shows "safe X (perceive_call X lib ms t i txt) (\<lambda>_. perceptions i s (Suc n)) F w"
  unfolding perceive_call_def
proof (rule safe_tick)
  show up: "perceptions i s (Suc n) w" using assms(2) by (rule perceptions_mono) simp
  have r: "reg_inv w" using assms(2) by (auto simp: perceptions_def drifted_def)
  from perceive_inv [OF assms(1) r] perceive_safe [OF assms(1) r]
  show "safe X (perceive X lib ms (mo_rnd t) i txt) (\<lambda>r. perceptions i s (Suc n)) (perceptions i s (Suc n)) w"
    by (rule safe_conseq [OF safe_and])
      (auto simp: up perceived_counts [OF assms(2) _ disjI1 [OF refl]] perceived_counts [OF assms(2) _ disjI2 [OF refl]]
        split: response.splits)
qed

lemma human_tick_safe:
  assumes "ext_ok X" "se_kind cfg \<noteq> ''mining''" "se_kind cfg \<noteq> ''memory''" "perceptions i s n w"
  shows "safe X (sleeve_tick X lib ms lax pool cfg i t) (\<lambda>_. perceptions i s (Suc n)) F w"
  using perceive_call_safe [OF assms(1,4)] assms(2,3) by (auto simp: sleeve_tick_def tickAI_def tickHuman_def)

lemma human_ticks_safe:
  assumes "ext_ok X" "se_kind cfg \<noteq> ''mining''" "se_kind cfg \<noteq> ''memory''"
  shows "perceptions i s n w \<Longrightarrow>
    safe X (forA (sleeve_tick X lib ms lax pool cfg i) ts) (\<lambda>_. perceptions i s (n + length ts)) F w"
proof (induction ts arbitrary: n w)
  case Nil
  then show ?case by (simp add: safe_ret)
next
  case (Cons t ts)
  have rest: "safe X (forA (sleeve_tick X lib ms lax pool cfg i) ts) (\<lambda>_. perceptions i s (Suc n + length ts)) F w'"
    if "perceptions i s (Suc n) w'" for w'
    by (rule Cons.IH [OF that])
  have "safe X (sleeve_tick X lib ms lax pool cfg i t)
      (\<lambda>_. safe X (forA (sleeve_tick X lib ms lax pool cfg i) ts) (\<lambda>_. perceptions i s (Suc n + length ts)) F) F w"
    by (rule safe_conseq [OF human_tick_safe [OF assms Cons.prems, where F = F]]) (use rest in auto)
  then show ?case by (simp add: safe_bind)
qed


definition demo_moment :: "net \<Rightarrow> moment" where
  "demo_moment n = \<lparr>mo_pick = 5, mo_rnd = replicate 12 0, mo_now = 7, mo_net = n, mo_llm = None\<rparr>"

definition demo_sleeve_env :: sleeve_env where
  "demo_sleeve_env = \<lparr>se_kind = ''human'', se_stackId = None, se_hostname = ''h1''\<rparr>"


subsection \<open>Registration\<close>

lemma safe_prod [safe_intros]: "(\<And>a b. x = (a, b) \<Longrightarrow> safe X (f a b) Q E v) \<Longrightarrow> safe X (case x of (a, b) \<Rightarrow> f a b) Q E v"
  by (cases x) simp

definition registered :: "sleeve_env \<Rightarrow> string \<Rightarrow> view \<Rightarrow> bool" where
  "registered cfg i w \<longleftrightarrow> reg_inv w \<and> (\<exists>s. map_of (vw_sleeves w) i = Some s \<and> sl_alive s \<and>
     sl_embodimentType s = se_kind cfg \<and> sl_hostname s = Some (se_hostname cfg) \<and> sl_drift s = 0 \<and>
     tok (sl_tokens s) Compute = 250 \<and> tok (sl_tokens s) Sync = 250)"

lemma list_stacks_inv: "ext_ok X \<Longrightarrow> reg_inv v \<Longrightarrow> safe X (list_stacks X) (\<lambda>_. reg_inv) reg_inv v"
  unfolding list_stacks_def by (intro safe_intros) simp_all

lemma ensureStack_inv:
  assumes "ext_ok X" "reg_inv v"
  shows "safe X (ensureStack X lib cfg now priv n1 n2) (\<lambda>_. reg_inv) reg_inv v"
proof -
  have create: "safe X (bindA (api n2 what (create_stack X lib now priv name kind)) (\<lambda>(st, p). ret (st_id st))) (\<lambda>_. reg_inv) reg_inv w"
    if "reg_inv w" for w what name kind
    by (rule safe_bind, rule safe_conseq [OF safe_api_keep [where E = reg_inv, OF that create_stack_inv [OF assms(1) that]]])
      (auto intro: safe_ret split: prod.splits)
  have "safe X (bindA (api n1 what (list_stacks X)) (\<lambda>found. case found of (st, u) # us \<Rightarrow> ret (st_id st)
      | [] \<Rightarrow> bindA (api n2 what' (create_stack X lib now priv name kind)) (\<lambda>(st, p). ret (st_id st)))) (\<lambda>_. reg_inv) reg_inv v"
    for what what' name kind
    by (rule safe_bind, rule safe_conseq [OF safe_api_keep [where E = reg_inv, OF assms(2) list_stacks_inv [OF assms]]])
      (auto intro: safe_ret create split: list.splits prod.splits)
  then show ?thesis
    unfolding ensureStack_def by (auto intro: safe_ret simp: assms(2) split: option.splits list.splits)
qed

lemma spawn_fresh:
  assumes "ext_ok X" "reg_inv v"
  shows "safe X (spawn_sleeve X lib now i (Some kind) (Some host))
    (\<lambda>r w. reg_inv w \<and> (case r of Refused c e \<Rightarrow> True | Reply s \<Rightarrow> map_of (vw_sleeves w) (sl_id s) = Some s \<and> sl_alive s \<and>
       sl_embodimentType s = kind \<and> sl_hostname s = Some host \<and> sl_drift s = 0 \<and>
       tok (sl_tokens s) Compute = 250 \<and> tok (sl_tokens s) Sync = 250)) reg_inv v"
proof (rule safe_conseq [OF safe_and [OF spawn_sleeve_inv [OF assms]]])
  show "safe X (spawn_sleeve X lib now i (Some kind) (Some host))
    (\<lambda>r w. case r of Refused c e \<Rightarrow> True | Reply s \<Rightarrow> map_of (vw_sleeves w) (sl_id s) = Some s \<and> sl_alive s \<and>
       sl_embodimentType s = kind \<and> sl_hostname s = Some host \<and> sl_drift s = 0 \<and>
       tok (sl_tokens s) Compute = 250 \<and> tok (sl_tokens s) Sync = 250) (\<lambda>_. True) v"
    unfolding spawn_sleeve_def Let_def
    by (intro safe_intros assms(1)) (simp_all add: new_sleeve_def map_add_Some_iff tok_def)
qed simp_all

lemma sleeve_main_safe:
  assumes "ext_ok X" "reg_inv v"
  shows "safe X (sleeve_main X lib cfg now priv n1 n2 n3) (registered cfg) reg_inv v"
  unfolding sleeve_main_def
proof (rule safe_bind, rule safe_conseq [OF ensureStack_inv [OF assms]])
  fix sid w assume w: "reg_inv w"
  let ?m = "spawn_sleeve X lib now sid (Some (se_kind cfg)) (Some (se_hostname cfg))"
  have "safe X (api n3 ''POST /v1/sleeves'' ?m) (\<lambda>s. registered cfg (sl_id s)) reg_inv w"
  proof (rule safe_api [where E = reg_inv, OF w])
    show "safe X ?m (\<lambda>r w. reg_inv w \<and> (case r of Reply s \<Rightarrow> registered cfg (sl_id s) w | Refused c e \<Rightarrow> True)) reg_inv w"
      by (rule safe_conseq [OF spawn_fresh [OF assms(1) w]]) (auto simp: registered_def split: response.splits)
  qed
  then have "safe X (api n3 ''POST /v1/sleeves'' ?m) (\<lambda>s. safe X (ret (sl_id s)) (registered cfg) reg_inv) reg_inv w"
    by (rule safe_conseq) (auto intro: safe_ret)
  then show "safe X (bindA (api n3 ''POST /v1/sleeves'' ?m) (\<lambda>created. ret (sl_id created))) (registered cfg) reg_inv w"
    by (rule safe_bind)
qed

text \<open>Registration.  Whatever fails on the way, if the process comes up at all, the id it holds is that of a
  living sleeve in the registry, of the kind and host it was configured with, without drift, with the full
  allowance of tokens, and belonging to a stack that exists.\<close>

lemma sleeve_registers:
  assumes "ext_ok X" "reg_inv v"
  shows "safe X (sleeve_main X lib cfg now priv n1 n2 n3)
    (\<lambda>i w. \<exists>s. map_of (vw_sleeves w) i = Some s \<and> sl_alive s \<and> sl_embodimentType s = se_kind cfg \<and>
       sl_hostname s = Some (se_hostname cfg) \<and> sl_drift s = 0 \<and>
       tok (sl_tokens s) Compute = 250 \<and> tok (sl_tokens s) Sync = 250 \<and>
       map_of (vw_stacks w) (sl_stackId s) \<noteq> None)
    reg_inv v"
proof (rule safe_conseq [OF sleeve_main_safe [OF assms]])
  fix i w assume "registered cfg i w"
  then obtain s where s: "reg_inv w" "map_of (vw_sleeves w) i = Some s" "sl_alive s" "sl_embodimentType s = se_kind cfg"
    "sl_hostname s = Some (se_hostname cfg)" "sl_drift s = 0" "tok (sl_tokens s) Compute = 250" "tok (sl_tokens s) Sync = 250"
    by (auto simp: registered_def)
  have "map_of (vw_stacks w) (sl_stackId s) \<noteq> None"
    using reg_inv_sleeve [OF s(1,2)] by (simp add: sleeve_ok_def)
  with s show "\<exists>s. map_of (vw_sleeves w) i = Some s \<and> sl_alive s \<and> sl_embodimentType s = se_kind cfg \<and>
       sl_hostname s = Some (se_hostname cfg) \<and> sl_drift s = 0 \<and>
       tok (sl_tokens s) Compute = 250 \<and> tok (sl_tokens s) Sync = 250 \<and> map_of (vw_stacks w) (sl_stackId s) \<noteq> None"
    by blast
qed

lemma demo_main:
  "\<exists>i w. sleeve_main demo_ext demo_noble demo_sleeve_env 7 (replicate 32 1) Delivered Delivered Delivered empty_view = (Inr i, w)"
  by (simp add: sleeve_main_def ensureStack_def demo_sleeve_env_def list_stacks_def api_def answered_def fetch_via_def tryA_def
      create_stack_def spawn_sleeve_def demo_ext_def table_calls bindA_def ret_def ignoreA_def Let_def empty_view_def
      new_stack_def new_sleeve_def)

lemma sleeve_registers_witness:
  "\<exists>i w s. sleeve_main demo_ext demo_noble demo_sleeve_env 7 (replicate 32 1) Delivered Delivered Delivered empty_view = (Inr i, w) \<and>
     map_of (vw_sleeves w) i = Some s \<and> sl_alive s \<and> sl_embodimentType s = ''human''"
proof -
  obtain i w where run: "sleeve_main demo_ext demo_noble demo_sleeve_env 7 (replicate 32 1) Delivered Delivered Delivered empty_view = (Inr i, w)"
    using demo_main by blast
  have v: "x_view demo_ext s = s" for s by (simp add: demo_simps)
  from sleeve_registers [OF ext_ok_demo reg_inv_empty, of demo_noble demo_sleeve_env 7 "replicate 32 1" Delivered Delivered Delivered] run
  show ?thesis by (auto simp: safe_def v demo_sleeve_env_def)
qed

subsection \<open>Human sleeves drift away\<close>

lemma perceive_table:
  assumes "noble_ok lib" "length rnd = 12" "\<forall>q. \<exists>c. put q = Inr c" "reg_inv v" "map_of (vw_sleeves v) i = Some s"
  shows "if tok (sl_tokens s) Compute < 1
    then perceive (table_ext put recall_reply) lib ms rnd i input v = (Inr (Refused 402 ''compute_token_exhausted''), v)
    else \<exists>c thought. (\<exists>q. put q = Inr c) \<and> perceive (table_ext put recall_reply) lib ms rnd i input v =
      (Inr (Reply (c, thought)), (perceived v i s c)\<lparr>vw_events := vw_events v @ [SleevePerceive i (sl_stackId s) c 0.5]\<rparr>)"
proof -
  have "sl_id s = i" "map_of (vw_stacks v) (sl_stackId s) \<noteq> None"
    using reg_inv_sleeve [OF assms(4,5)] by (simp_all add: sleeve_ok_def)
  then obtain st where st: "map_of (vw_stacks v) (sl_stackId s) = Some st" "sl_id s = i" by auto
  have id: "st_id st = sl_stackId s" by (rule reg_inv_stack [OF assms(4) st(1)])
  define thought where "thought = ''['' @ sl_embodimentType s @ ''@'' @ last6 i @ ''] '' @ input"
  obtain p where p: "encrypt lib rnd (Str thought) (epochKey lib ms (st_id st) (st_epoch st)) = Inr p"
    using encrypt_decrypt [OF assms(1,2)] by blast
  obtain c where c: "put \<lparr>hp_stackId = st_id st, hp_epoch = st_epoch st, hp_ciphertext = p,
      hp_links = head_links st, hp_kind = ''episodic'', hp_pinned = False\<rparr> = Inr c" using assms(3) by blast
  show ?thesis
    using st p [unfolded thought_def] c id assms(5) unfolding perceive_def Let_def
    by (simp add: table_calls bindA_def ret_def lift_def ignoreA_def perceived_def) blast
qed

lemma call_table:
  assumes "noble_ok lib" "length (mo_rnd t) = 12" "mo_net t = Delivered" "\<forall>q. \<exists>c. put q = Inr c" "drifted i s k v"
  shows "\<exists>w. perceive_call (table_ext put recall_reply) lib ms t i txt v = (Inr (), w) \<and>
    drifted i s (if tok (sl_tokens s) Compute - real k / 2 < 1 then k else Suc k) w"
proof -
  let ?X = "table_ext put recall_reply"
  obtain s1 where s1: "reg_inv v" "map_of (vw_sleeves v) i = Some s1"
    "tok (sl_tokens s1) Compute = tok (sl_tokens s) Compute - real k / 2" using assms(5) by (auto simp: drifted_def)
  have call: "perceive_call ?X lib ms t i txt v = (Inr (), snd (perceive ?X lib ms (mo_rnd t) i txt v))"
    by (simp add: perceive_call_def ignoreA_def api_def fetch_via_def assms(3) answered_def tryA_def bindA_def ret_def throwA_def
        split: prod.splits sum.splits response.splits)
  show ?thesis
  proof (cases "tok (sl_tokens s1) Compute < 1")
    case True
    with perceive_table [OF assms(1,2,4) s1(1,2), where recall_reply = recall_reply and ms = ms and input = "txt"] assms(5) call s1(3) show ?thesis by simp
  next
    case False
    with perceive_table [OF assms(1,2,4) s1(1,2), where recall_reply = recall_reply and ms = ms and input = "txt"] obtain c th where
      p: "perceive ?X lib ms (mo_rnd t) i txt v =
        (Inr (Reply (c, th)), (perceived v i s1 c)\<lparr>vw_events := vw_events v @ [SleevePerceive i (sl_stackId s1) c 0.5]\<rparr>)"
      by auto
    have "safe ?X (perceive ?X lib ms (mo_rnd t) i txt) (\<lambda>_. reg_inv) reg_inv v"
      by (rule perceive_inv [OF ext_ok_table s1(1)])
    then have "reg_inv ((perceived v i s1 c)\<lparr>vw_events := vw_events v @ [SleevePerceive i (sl_stackId s1) c 0.5]\<rparr>)"
      unfolding safe_def using p by (auto simp: table_calls)
    from perceived_drifts [OF assms(5) s1(2) disjI2 [OF refl] this] call p False s1(3) show ?thesis by simp
  qed
qed

text \<open>The timer with no faults, firing with these moments.\<close>

definition calm :: "moment list \<Rightarrow> bool" where
  "calm ts \<longleftrightarrow> list_all (\<lambda>t. mo_net t = Delivered \<and> length (mo_rnd t) = 12) ts"

lemma ticks_table:
  assumes "noble_ok lib" "\<forall>q. \<exists>c. put q = Inr c" "se_kind cfg \<noteq> ''mining''" "se_kind cfg \<noteq> ''memory''"
    and "tok (sl_tokens s) Compute = 250"
  shows "calm ts \<Longrightarrow> drifted i s (min n 499) v \<Longrightarrow>
    \<exists>w. forA (sleeve_tick (table_ext put recall_reply) lib ms lax pool cfg i) ts v = (Inr (), w) \<and>
      drifted i s (min (n + length ts) 499) w"
proof (induction ts arbitrary: n v)
  case Nil
  then show ?case by (simp add: ret_def)
next
  case (Cons t ts)
  have t: "length (mo_rnd t) = 12" "mo_net t = Delivered" "calm ts" using Cons.prems(1) by (simp_all add: calm_def)
  let ?step = "sleeve_tick (table_ext put recall_reply) lib ms lax pool cfg i"
  have k: "(if tok (sl_tokens s) Compute - real (min n 499) / 2 < 1 then min n 499 else Suc (min n 499)) = min (Suc n) 499"
    by (simp add: assms(5) min_def)
  have "\<exists>w. ?step t v = (Inr (), w) \<and> drifted i s (min (Suc n) 499) w"
    using call_table [OF assms(1) t(1,2) assms(2) Cons.prems(2), where recall_reply = recall_reply and ms = ms] assms(3,4)
    unfolding k by (simp add: sleeve_tick_def tickHuman_def tickAI_def)
  then obtain w where w: "?step t v = (Inr (), w)" "drifted i s (min (Suc n) 499) w" by blast
  from Cons.IH [OF t(3) w(2)] w(1) show ?case by (simp add: bindA_def)
qed

text \<open>C3: no sleeve of kind human or AI ever syncs itself.  Without any fault, a freshly registered one has drifted by
  one for every firing of the timer, up to 499, where its 250 compute tokens are used up; it goes on living,
  and the gateway's list of desynchronised sleeves has it from the sixteenth firing on, for good.\<close>

theorem human_sleeve_desyncs:
  assumes "noble_ok lib" "\<forall>q. \<exists>c. put q = Inr c" "se_kind cfg \<noteq> ''mining''" "se_kind cfg \<noteq> ''memory''"
    and "reg_inv v0" "sleeve_main (table_ext put recall_reply) lib cfg now priv n1 n2 n3 v0 = (Inr i, v)" "calm ts"
  shows "\<exists>w s ds. forA (sleeve_tick (table_ext put recall_reply) lib ms lax pool cfg i) ts v = (Inr (), w) \<and>
    map_of (vw_sleeves w) i = Some s \<and> sl_alive s \<and> sl_drift s = real (min (length ts) 499) \<and>
    desynced (table_ext put recall_reply) 15 w = (Inr ds, w) \<and>
    ((i, sl_stackId s, sl_drift s) \<in> set ds) = (16 \<le> length ts)"
proof -
  let ?X = "table_ext put recall_reply"
  have "safe ?X (sleeve_main ?X lib cfg now priv n1 n2 n3) (registered cfg) reg_inv v0"
    by (rule sleeve_main_safe [OF ext_ok_table assms(5)])
  then have "registered cfg i v" unfolding safe_def using assms(6) by (auto simp: table_calls)
  then obtain s0 where s0: "reg_inv v" "map_of (vw_sleeves v) i = Some s0" "sl_alive s0" "sl_drift s0 = 0"
    "tok (sl_tokens s0) Compute = 250" by (auto simp: registered_def)
  then have "drifted i s0 (min 0 499) v" by (simp add: drifted_0)
  from ticks_table [OF assms(1-4) s0(5) assms(7) this, where recall_reply = recall_reply and ms = ms and lax = lax and pool = pool]
  obtain w where
    w: "forA (sleeve_tick ?X lib ms lax pool cfg i) ts v = (Inr (), w)" "drifted i s0 (min (length ts) 499) w" by auto
  then obtain s where s: "reg_inv w" "map_of (vw_sleeves w) i = Some s" "sl_alive s" "sl_drift s = real (min (length ts) 499)"
    using s0(3,4) by (auto simp: drifted_def)
  have id: "sl_id s = i" by (rule reg_inv_sleeve_facts(1) [OF s(1,2)])
  have row: "s \<in> set (map snd (vw_sleeves w))" using map_of_SomeD [OF s(2)] by force
  let ?ds = "map (\<lambda>s. (sl_id s, sl_stackId s, sl_drift s)) (filter (\<lambda>s. sl_alive s \<and> 15 < sl_drift s) (map snd (vw_sleeves w)))"
  have run: "desynced ?X 15 w = (Inr ?ds, w)" by (simp add: desynced_def table_calls bindA_def ret_def)
  have "((i, sl_stackId s, sl_drift s) \<in> set ?ds) = (15 < sl_drift s)"
  proof
    assume "15 < sl_drift s"
    with row s(3) have "s \<in> set (filter (\<lambda>s. sl_alive s \<and> 15 < sl_drift s) (map snd (vw_sleeves w)))"
      by (simp only: set_filter mem_Collect_eq simp_thms)
    from imageI [OF this, of "\<lambda>s. (sl_id s, sl_stackId s, sl_drift s)"]
    show "(i, sl_stackId s, sl_drift s) \<in> set ?ds" unfolding set_map id .
  qed auto
  also have "15 < sl_drift s \<longleftrightarrow> 16 \<le> length ts" unfolding s(4) by (simp add: less_eq_Suc_le)
  finally show ?thesis using w(1) s(2-4) run by blast
qed

theorem human_sleeve_desyncs_witness:
  "\<exists>i v w s. sleeve_main demo_ext demo_noble demo_sleeve_env 7 (replicate 32 1) Delivered Delivered Delivered empty_view = (Inr i, v) \<and>
     forA (sleeve_tick demo_ext demo_noble ''m'' False (\<lambda>_ _. ret ()) demo_sleeve_env i) (replicate 20 (demo_moment Delivered)) v = (Inr (), w) \<and>
     map_of (vw_sleeves w) i = Some s \<and> sl_drift s = 20"
proof -
  let ?ts = "replicate 20 (demo_moment Delivered)"
  obtain i v where run: "sleeve_main demo_ext demo_noble demo_sleeve_env 7 (replicate 32 1) Delivered Delivered Delivered empty_view = (Inr i, v)"
    using demo_main by blast
  have k: "se_kind demo_sleeve_env \<noteq> ''mining''" "se_kind demo_sleeve_env \<noteq> ''memory''" by (simp_all add: demo_sleeve_env_def)
  have c: "calm ?ts" by (simp add: calm_def list_all_iff demo_moment_def)
  have p: "\<forall>q. \<exists>c. (\<lambda>i :: hippo_put_input. Inr (''ecca://'' @ replicate 64 CHR ''0'' @ ''@0'') :: string result) q = Inr c" by blast
  from human_sleeve_desyncs [OF noble_ok_demo p k reg_inv_empty run [unfolded demo_ext_def] c,
      of "''m''" False "\<lambda>_ _. ret ()"] obtain w s where
    "forA (sleeve_tick demo_ext demo_noble ''m'' False (\<lambda>_ _. ret ()) demo_sleeve_env i) ?ts v = (Inr (), w)"
    "map_of (vw_sleeves w) i = Some s" "sl_drift s = 20" unfolding demo_ext_def [symmetric] by auto
  with run show ?thesis by blast
qed

subsection \<open>Memory sleeves\<close>

text \<open>With a framework that answers 400 to an announced but empty JSON body, the timer of a memory sleeve does
  nothing at all.\<close>

lemma memory_sleeve_idle:
  assumes "se_kind cfg = ''memory''"
  shows "forA (sleeve_tick X lib ms False pool cfg i) ts s = (Inr (), s)"
proof (induction ts)
  case (Cons t ts)
  have "sleeve_tick X lib ms False pool cfg i t s = (Inr (), s)"
    using assms by (cases "mo_net t") (simp_all add: sleeve_tick_def tickMemory_def ignoreA_def api_def fetch_via_def
        answered_def tryA_def bindA_def ret_def throwA_def)
  with Cons show ?case by (simp add: bindA_def)
qed (simp add: ret_def)

subsection \<open>The process keeps the registry invariant\<close>

lemma memory_tick_inv: "ext_ok X \<Longrightarrow> reg_inv v \<Longrightarrow> safe X (tickMemory X lax t i) (\<lambda>_. reg_inv) F v"
  unfolding tickMemory_def by (rule safe_tick) (auto simp: sync_sleeve_inv safe_ret)

lemma call_inv: "ext_ok X \<Longrightarrow> reg_inv v \<Longrightarrow> safe X (perceive_call X lib ms t i txt) (\<lambda>_. reg_inv) F v"
  unfolding perceive_call_def by (rule safe_tick) (simp_all add: perceive_inv)

text \<open>The life of sleeve processes; the mining pool has no part in the registry.\<close>

datatype sleeve_request =
    SleeveStart sleeve_env nat bytes net net net
  | SleeveTick sleeve_env string moment
  | SleeveStop net string

fun sleeve_runtime :: "noble \<Rightarrow> string \<Rightarrow> bool \<Rightarrow> 's ext \<Rightarrow> sleeve_request \<Rightarrow> ('s, unit) act" where
  "sleeve_runtime lib ms lax X (SleeveStart cfg now priv n1 n2 n3) =
     bindA (sleeve_main X lib cfg now priv n1 n2 n3) (\<lambda>_. ret ())"
| "sleeve_runtime lib ms lax X (SleeveTick cfg i t) = sleeve_tick X lib ms lax (\<lambda>_ _. ret ()) cfg i t"
| "sleeve_runtime lib ms lax X (SleeveStop n i) = sleeve_shutdown X n i"

interpretation sleeve_api: service "sleeve_runtime lib ms lax" reg_inv for lib ms lax
proof
  fix X :: "'a ext" and v q
  assume ok: "ext_ok X" "reg_inv v"
  show "safe X (sleeve_runtime lib ms lax X q) (\<lambda>_. reg_inv) reg_inv v"
  proof (cases q)
    case (SleeveStart cfg now priv n1 n2 n3)
    have "safe X (sleeve_main X lib cfg now priv n1 n2 n3) (\<lambda>_. safe X (ret ()) (\<lambda>_. reg_inv) reg_inv) reg_inv v"
      by (rule safe_conseq [OF sleeve_main_safe [OF ok]]) (auto simp: registered_def safe_ret)
    then show ?thesis unfolding SleeveStart sleeve_runtime.simps by (rule safe_bind)
  next
    case (SleeveTick cfg i t)
    have "safe X (tickMining (\<lambda>_ _. ret ()) cfg) (\<lambda>_. reg_inv) reg_inv v"
      using ok unfolding tickMining_def by (intro safe_ignore safe_ret)
    with SleeveTick ok show ?thesis
      by (auto simp: sleeve_tick_def tickAI_def tickHuman_def call_inv memory_tick_inv)
  next
    case (SleeveStop n i)
    show ?thesis unfolding SleeveStop sleeve_runtime.simps sleeve_shutdown_def
      by (rule safe_tick [OF ok(2) decommission_inv [OF ok]])
  qed
qed

end
