(* ===== verification/Demo.thy ===== *)
theory Demo
  imports Sleeve
begin

text \<open>
  \<^verbatim>\<open>scripts/demo.ts\<close>: the end-to-end demonstration, composed with the gateway of theories \<^theory_text>\<open>Siyana\<close> and \<^theory_text>\<open>Gateway\<close>
  and the needlecast router behind it.  \<open>lax\<close> is the rule for announced but empty JSON bodies of theory
  \<^theory_text>\<open>Sleeve\<close>.  Waiting is left out, the script never does.
\<close>

subsection \<open>The script\<close>

text \<open>What the requests meet, by their numbers, and what the medulla node and the residue table answer.\<close>

record demo_env =
  dm_net :: "nat \<Rightarrow> net"
  dm_now :: "nat \<Rightarrow> nat"
  dm_rnd :: "nat \<Rightarrow> bytes"
  dm_priv :: bytes
  dm_router :: net
  dm_info :: "(nat \<times> nat \<times> string) result"
  dm_residues :: "(nat \<times> residue) list result"

text \<open>What the script prints.\<close>

record demo_report =
  dr_stack :: string
  dr_human :: string
  dr_ai :: string
  dr_fidelity :: real
  dr_fragments :: nat
  dr_broken :: nat
  dr_saga :: "(string \<times> string \<times> nat) option"
  dr_epoch :: "nat \<times> nat \<times> string option"
  dr_balances :: "token_kind \<Rightarrow> real"
  dr_residues :: "residue list"

text \<open>The helper \<open>j\<close>; the body of a refusal is its message here.\<close>

definition demo_j :: "net \<Rightarrow> string \<Rightarrow> string \<Rightarrow> ('s, 'b response) act \<Rightarrow> ('s, 'b) act" where
  "demo_j n meth path m = bindA (fetch_via n (answered m)) (\<lambda>r. case r of
     Reply b \<Rightarrow> ret b
   | Refused c e \<Rightarrow> throwA (''Error: '' @ meth @ '' '' @ path @ '' '' @ dec c @ '': '' @ e))"

definition demo_perceive ::
  "'s ext \<Rightarrow> noble \<Rightarrow> string \<Rightarrow> demo_env \<Rightarrow> nat \<Rightarrow> string \<Rightarrow> string \<Rightarrow> ('s, string \<times> string) act" where
  "demo_perceive X lib ms E k i txt =
     demo_j (dm_net E k) ''POST'' (''/v1/sleeves/'' @ i @ ''/perceive'') (perceive X lib ms (dm_rnd E k) i txt)"

definition demo_round :: "'s ext \<Rightarrow> noble \<Rightarrow> string \<Rightarrow> demo_env \<Rightarrow> string \<Rightarrow> string \<Rightarrow> nat \<Rightarrow> ('s, unit) act" where
  "demo_round X lib ms E human ai i =
     bindA (demo_perceive X lib ms E (3 + 2 * i) human (''Memory tick #'' @ dec i @ '': the rain remembers me.'')) (\<lambda>_.
     bindA (demo_perceive X lib ms E (4 + 2 * i) ai (''Inference #'' @ dec i @ '': P(coherent | tick) = 0.'' @ dec (90 - i))) (\<lambda>_.
     ret ()))"

definition demo_sync :: "'s ext \<Rightarrow> bool \<Rightarrow> demo_env \<Rightarrow> nat \<Rightarrow> string \<Rightarrow> ('s, nat) act" where
  "demo_sync X lax E k i = demo_j (dm_net E k) ''POST'' (''/v1/sleeves/'' @ i @ ''/sync'')
     (if lax then sync_sleeve X (dm_now E k) i else ret (Refused 400 ''FST_ERR_CTP_EMPTY_JSON_BODY''))"

definition demo_main :: "'s ext \<Rightarrow> noble \<Rightarrow> string \<Rightarrow> bool \<Rightarrow> demo_env \<Rightarrow> ('s, demo_report) act" where
  "demo_main X lib ms lax E =
     bindA (demo_j (dm_net E 0) ''POST'' ''/v1/stacks''
       (create_stack X lib (dm_now E 0) (dm_priv E) ''demo-pilot'' (Some ''human''))) (\<lambda>(stack, _).
     bindA (demo_j (dm_net E 1) ''POST'' ''/v1/sleeves''
       (spawn_sleeve X lib (dm_now E 1) (st_id stack) (Some ''human'') None)) (\<lambda>human.
     bindA (demo_j (dm_net E 2) ''POST'' ''/v1/sleeves''
       (spawn_sleeve X lib (dm_now E 2) (st_id stack) (Some ''ai'') None)) (\<lambda>ai.
     bindA (forA (demo_round X lib ms E (sl_id human) (sl_id ai)) [0..<5]) (\<lambda>_.
     bindA (demo_sync X lax E 13 (sl_id human)) (\<lambda>_.
     bindA (demo_sync X lax E 14 (sl_id ai)) (\<lambda>_.
     bindA (demo_j (dm_net E 15) ''GET'' (''/v1/stacks/'' @ st_id stack @ ''/recall?depth=8'')
       (recall_stack X (st_id stack) (Some 8) None)) (\<lambda>(fragments, broken, fidelity).
     bindA (demo_j (dm_net E 16) ''POST'' ''/v1/needlecast''
       (forward_needlecast (dm_router E) X lib (dm_now E 16) (sl_id human) (sl_id ai))) (\<lambda>cast.
     bindA (demo_j (dm_net E 17) ''GET'' ''/v1/epochs/current'' (ret (Reply (epochs_current (dm_info E))))) (\<lambda>epoch.
     bindA (demo_j (dm_net E 18) ''GET'' (''/v1/tokens/balances/'' @ st_id stack) (token_totals X (st_id stack))) (\<lambda>bal.
     bindA (demo_j (dm_net E 19) ''GET'' ''/v1/coordination/residues''
       (bindA (lift (dm_residues E)) (\<lambda>rows. ret (Reply (list_residues rows))))) (\<lambda>residues.
     ret \<lparr>dr_stack = st_id stack, dr_human = sl_id human, dr_ai = sl_id ai, dr_fidelity = fidelity,
       dr_fragments = length fragments, dr_broken = length broken, dr_saga = cast, dr_epoch = epoch,
       dr_balances = bal, dr_residues = residues\<rparr>)))))))))))"

subsection \<open>It stops at the first sync\<close>

lemma bind_fails: "(\<And>x s. \<exists>e. fst (f x s) = Inl e) \<Longrightarrow> \<exists>e. fst (bindA m f s) = Inl e"
  by (auto simp: bindA_def split: prod.splits sum.splits)

lemma sync_refused: "\<exists>e. fst (demo_sync X False E k i s) = Inl e"
  by (cases "dm_net E k") (simp_all add: demo_sync_def demo_j_def fetch_via_def answered_def tryA_def bindA_def ret_def throwA_def)

lemma bind_refused: "\<exists>e. fst (bindA (demo_sync X False E k i) f s) = Inl e"
proof -
  obtain e where "fst (demo_sync X False E k i s) = Inl e" using sync_refused [of X E k i s] by blast
  then show ?thesis by (auto simp: bindA_def split: prod.splits)
qed

text \<open>Whatever the world does, the script fails, at the latest when it sends the first sync.\<close>

lemma demo_never_ends: "\<exists>e. fst (demo_main X lib ms False E s) = Inl e"
  unfolding demo_main_def by (auto intro!: bind_fails bind_refused split: prod.split)

subsection \<open>The steps of the script in a world without faults\<close>

text \<open>A living sleeve with its stack, drift and tokens for compute, sync and routing.\<close>

definition standing :: "string \<Rightarrow> string \<Rightarrow> real \<Rightarrow> real \<Rightarrow> real \<Rightarrow> real \<Rightarrow> view \<Rightarrow> bool" where
  "standing i sid d c y r w \<longleftrightarrow> (\<exists>s. map_of (vw_sleeves w) i = Some s \<and> sl_stackId s = sid \<and> sl_alive s \<and>
     sl_drift s = d \<and> tok (sl_tokens s) Compute = c \<and> tok (sl_tokens s) Sync = y \<and> tok (sl_tokens s) Routing = r)"

definition both ::
  "string \<Rightarrow> string \<Rightarrow> string \<Rightarrow> real \<times> real \<times> real \<times> real \<Rightarrow> real \<times> real \<times> real \<times> real \<Rightarrow> view \<Rightarrow> bool" where
  "both sid h a p q w \<longleftrightarrow> reg_inv w \<and> h \<noteq> a \<and>
     (case p of (d, c, y, r) \<Rightarrow> standing h sid d c y r w) \<and> (case q of (d, c, y, r) \<Rightarrow> standing a sid d c y r w)"

lemma both_swap: "both sid h a p q w \<longleftrightarrow> both sid a h q p w"
  by (auto simp: both_def)

lemma both_stack: "both sid h a (d, c, y, r) q w \<Longrightarrow> \<exists>st. map_of (vw_stacks w) sid = Some st"
  using reg_inv_sleeve_facts(4) by (fastforce simp: both_def standing_def)

definition has_head :: "string \<Rightarrow> view \<Rightarrow> bool" where
  "has_head sid w \<longleftrightarrow> (\<exists>st c cs. map_of (vw_stacks w) sid = Some st \<and> st_episodicHead st = Some (c # cs))"

lemma j_reply: "m s = (Inr (Reply b), s') \<Longrightarrow> demo_j Delivered meth path m s = (Inr b, s')"
  by (simp add: demo_j_def fetch_via_def answered_def tryA_def bindA_def ret_def)

lemma perceive_step:
  assumes "noble_ok lib" "dm_net E k = Delivered" "length (dm_rnd E k) = 12" "\<forall>q. \<exists>c cs. put q = Inr (c # cs)"
    and "both sid h a (d, c, y, r) q w" "1 \<le> c"
  shows "\<exists>x w'. demo_perceive (table_ext put recall_reply) lib ms E k h inp w = (Inr x, w') \<and>
    both sid h a (d + 1, c - 1/2, y, r) q w' \<and> has_head sid w'"
proof -
  let ?X = "table_ext put recall_reply"
  obtain s where s: "reg_inv w" "map_of (vw_sleeves w) h = Some s" "sl_stackId s = sid" "sl_alive s" "sl_drift s = d"
    "tok (sl_tokens s) Compute = c" "tok (sl_tokens s) Sync = y" "tok (sl_tokens s) Routing = r"
    using assms(5) by (auto simp: both_def standing_def)
  obtain st where st: "map_of (vw_stacks w) sid = Some st" using both_stack [OF assms(5)] by blast
  have put: "\<forall>q. \<exists>c. put q = Inr c" using assms(4) by blast
  from perceive_table [OF assms(1,3) put s(1,2), where recall_reply = recall_reply and ms = ms and input = inp] s(6) assms(6)
  obtain m th pq where pm: "put pq = Inr m" and m: "perceive ?X lib ms (dm_rnd E k) h inp w = (Inr (Reply (m, th)),
      (perceived w h s m)\<lparr>vw_events := vw_events w @ [SleevePerceive h sid m 0.5]\<rparr>)" by (auto simp: s(3))
  let ?w = "(perceived w h s m)\<lparr>vw_events := vw_events w @ [SleevePerceive h sid m 0.5]\<rparr>"
  have "safe ?X (perceive ?X lib ms (dm_rnd E k) h inp) (\<lambda>_. reg_inv) reg_inv w"
    by (rule perceive_inv [OF ext_ok_table s(1)])
  then have inv: "reg_inv ?w" unfolding safe_def using m by (auto simp: table_calls)
  from pm assms(4) obtain m1 ms1 where m1: "m = m1 # ms1" by (metis Inr_inject)
  have ne: "a \<noteq> h" using assms(5) by (auto simp: both_def)
  let ?s = "s\<lparr>sl_drift := d + 1, sl_tokens := set_tok Compute (c - 0.5) (sl_tokens s)\<rparr>"
  have "map_of (vw_sleeves ?w) h = Some ?s" by (simp add: perceived_def s)
  then have "standing h sid (d + 1) (c - 1/2) y r ?w" unfolding standing_def by (intro exI [of _ ?s]) (simp add: s)
  moreover have "standing a sid d' c' y' r' ?w = standing a sid d' c' y' r' w" for d' c' y' r'
    using ne by (simp add: standing_def perceived_def)
  moreover have "has_head sid ?w" using st m1 by (simp add: has_head_def perceived_def s)
  ultimately have "both sid h a (d + 1, c - 1/2, y, r) q ?w" "has_head sid ?w"
    using assms(5) inv by (auto simp: both_def split: prod.splits)
  moreover have "demo_perceive ?X lib ms E k h inp w = (Inr (m, th), ?w)"
    unfolding demo_perceive_def assms(2) by (rule j_reply) (rule m)
  ultimately show ?thesis by blast
qed


lemma round_step:
  assumes "noble_ok lib" "\<forall>k. dm_net E k = Delivered \<and> length (dm_rnd E k) = 12" "\<forall>q. \<exists>c cs. put q = Inr (c # cs)"
    and "both sid h a (real n, 250 - real n / 2, y, r) (real n, 250 - real n / 2, y', r') w" "n < 10"
  shows "\<exists>w'. demo_round (table_ext put recall_reply) lib ms E h a i w = (Inr (), w') \<and>
    both sid h a (real (n + 1), 250 - real (n + 1) / 2, y, r) (real (n + 1), 250 - real (n + 1) / 2, y', r') w' \<and> has_head sid w'"
proof -
  let ?X = "table_ext put recall_reply"
  have n: "1 \<le> 250 - real n / 2" using assms(5) by simp
  have e: "250 - real n / 2 - 1 / 2 = 250 - real (n + 1) / 2" "real n + 1 = real (n + 1)" by (simp_all add: field_simps)
  from perceive_step [OF assms(1) _ _ assms(3,4) n, where k = "3 + 2 * i" and ms = ms and recall_reply = recall_reply] assms(2)
  obtain x1 w1 where 1: "demo_perceive ?X lib ms E (3 + 2 * i) h (''Memory tick #'' @ dec i @ '': the rain remembers me.'') w = (Inr x1, w1)"
    "both sid h a (real (n + 1), 250 - real (n + 1) / 2, y, r) (real n, 250 - real n / 2, y', r') w1" unfolding e by blast
  from perceive_step [OF assms(1) _ _ assms(3) 1(2) [unfolded both_swap [of sid h a]] n, where k = "4 + 2 * i" and ms = ms and recall_reply = recall_reply] assms(2)
  obtain x2 w2 where 2: "demo_perceive ?X lib ms E (4 + 2 * i) a (''Inference #'' @ dec i @ '': P(coherent | tick) = 0.'' @ dec (90 - i)) w1 = (Inr x2, w2)"
    "both sid a h (real (n + 1), 250 - real (n + 1) / 2, y', r') (real (n + 1), 250 - real (n + 1) / 2, y, r) w2" "has_head sid w2"
    unfolding e by blast
  have "demo_round ?X lib ms E h a i w = (Inr (), w2)" by (simp only: demo_round_def bindA_def 1(1) 2(1) ret_def prod.case sum.case)
  with 2(2,3) both_swap show ?thesis by blast
qed

lemma rounds_step:
  assumes "noble_ok lib" "\<forall>k. dm_net E k = Delivered \<and> length (dm_rnd E k) = 12" "\<forall>q. \<exists>c cs. put q = Inr (c # cs)"
  shows "both sid h a (real n, 250 - real n / 2, y, r) (real n, 250 - real n / 2, y', r') w \<Longrightarrow> n + length ns \<le> 10 \<Longrightarrow> has_head sid w \<or> ns \<noteq> [] \<Longrightarrow>
    \<exists>w'. forA (demo_round (table_ext put recall_reply) lib ms E h a) ns w = (Inr (), w') \<and>
    both sid h a (real (n + length ns), 250 - real (n + length ns) / 2, y, r)
      (real (n + length ns), 250 - real (n + length ns) / 2, y', r') w' \<and> has_head sid w'"
proof (induction ns arbitrary: n w)
  case (Cons i js)
  from round_step [OF assms Cons.prems(1), where ms = ms and recall_reply = recall_reply and i = i] Cons.prems(2) obtain w1 where
    1: "demo_round (table_ext put recall_reply) lib ms E h a i w = (Inr (), w1)"
    "both sid h a (real (n + 1), 250 - real (n + 1) / 2, y, r) (real (n + 1), 250 - real (n + 1) / 2, y', r') w1" "has_head sid w1" by auto
  from Cons.IH [OF 1(2)] Cons.prems(2) 1(3) show ?case by (simp add: bindA_def 1(1))
qed (simp add: ret_def)


lemma sync_step:
  assumes "dm_net E k = Delivered" "both sid h a (d, c, y, r) q w" "1 \<le> y" "has_head sid w"
  shows "\<exists>x w'. demo_sync (table_ext put recall_reply) True E k h w = (Inr x, w') \<and>
    both sid h a (0, c, y - 1, r) q w' \<and> has_head sid w'"
proof -
  let ?X = "table_ext put recall_reply"
  obtain s where s: "reg_inv w" "map_of (vw_sleeves w) h = Some s" "sl_stackId s = sid" "sl_alive s" "sl_drift s = d"
    "tok (sl_tokens s) Compute = c" "tok (sl_tokens s) Sync = y" "tok (sl_tokens s) Routing = r"
    using assms(2) by (auto simp: both_def standing_def)
  have ne: "a \<noteq> h" using assms(2) by (auto simp: both_def)
  obtain st where st: "map_of (vw_stacks w) sid = Some st" using both_stack [OF assms(2)] by blast
  have id: "sl_id s = h" by (rule reg_inv_sleeve_facts(1) [OF s(1,2)])
  let ?f = "\<lambda>t. t\<lparr>sl_drift := 0, sl_syncEpoch := st_epoch st, sl_lastSync := dm_now E k, sl_tokens := set_tok Sync (y - 1) (sl_tokens s)\<rparr>"
  let ?w = "w\<lparr>vw_sleeves := update_row h ?f (vw_sleeves w)\<rparr>"
  have m: "sync_sleeve ?X (dm_now E k) h w = (Inr (Reply (st_epoch st)), ?w)"
    using s st id assms(3) by (simp add: sync_sleeve_def table_calls bindA_def ret_def)
  have "safe ?X (sync_sleeve ?X (dm_now E k) h) (\<lambda>_. reg_inv) reg_inv w" by (rule sync_sleeve_inv [OF ext_ok_table s(1)])
  then have inv: "reg_inv ?w" unfolding safe_def using m by (auto simp: table_calls)
  have "map_of (vw_sleeves ?w) h = Some (?f s)" by (simp add: s)
  then have "standing h sid 0 c (y - 1) r ?w" unfolding standing_def by (intro exI [of _ "?f s"]) (simp add: s)
  moreover have "standing a sid d' c' y' r' ?w = standing a sid d' c' y' r' w" for d' c' y' r'
    using ne by (simp add: standing_def)
  moreover have "has_head sid ?w" using assms(4) by (simp add: has_head_def)
  ultimately have "both sid h a (0, c, y - 1, r) q ?w" "has_head sid ?w"
    using assms(2) inv by (auto simp: both_def split: prod.splits)
  moreover have "demo_sync ?X True E k h w = (Inr (st_epoch st), ?w)"
    unfolding demo_sync_def assms(1) if_True by (rule j_reply) (rule m)
  ultimately show ?thesis by blast
qed

lemma recall_step:
  assumes "has_head sid w" "both sid h a (d, c, y, r) q w" "\<And>args. ha_depth args = 8 \<Longrightarrow> recall_reply args = Inr \<lparr>hr_fragments = Some fs, hr_broken = bs, hr_fidelity = f\<rparr>"
  shows "\<exists>w'. recall_stack (table_ext put recall_reply) sid (Some 8) None w = (Inr (Reply (fs, case bs of None \<Rightarrow> [] | Some b \<Rightarrow> b, f)), w') \<and>
    both sid h a (d, c, y, r) q w' \<and> has_head sid w'"
proof -
  obtain st m ms where st: "map_of (vw_stacks w) sid = Some st" "st_episodicHead st = Some (m # ms)"
    using assms(1) by (auto simp: has_head_def)
  have ev: "both sid h a p q (w\<lparr>vw_events := es\<rparr>) = both sid h a p q w" "has_head sid (w\<lparr>vw_events := es\<rparr>) = has_head sid w" for p q es
    by (simp_all add: both_def standing_def has_head_def)
  show ?thesis
    using st assms by (simp add: recall_stack_def head_links_def table_calls bindA_def ret_def ignoreA_def Let_def ev)
qed

lemma cast_step:
  assumes "has_head sid w" "both sid h a (d, c, y, r) (d', c', y', r') w" "5 \<le> r"
    "\<And>args. ha_depth args = 8 \<Longrightarrow> recall_reply args = Inr \<lparr>hr_fragments = Some fs, hr_broken = bs, hr_fidelity = f\<rparr>"
  shows "\<exists>i route w'. needlecast (table_ext put recall_reply) lib now h a w = (Inr (Reply (i, route, length fs)), w') \<and>
    both sid h a (d, c, y, r - 5) (0, c', y', r') w'"
proof -
  let ?X = "table_ext put recall_reply"
  obtain st m ms where st: "map_of (vw_stacks w) sid = Some st" "st_episodicHead st = Some (m # ms)"
    using assms(1) by (auto simp: has_head_def)
  obtain s where s: "reg_inv w" "map_of (vw_sleeves w) h = Some s" "sl_stackId s = sid" "sl_alive s" "sl_drift s = d"
    "tok (sl_tokens s) Compute = c" "tok (sl_tokens s) Sync = y" "tok (sl_tokens s) Routing = r"
    using assms(2) by (auto simp: both_def standing_def)
  obtain t where t: "map_of (vw_sleeves w) a = Some t" "sl_stackId t = sid" "sl_alive t" "sl_drift t = d'"
    "tok (sl_tokens t) Compute = c'" "tok (sl_tokens t) Sync = y'" "tok (sl_tokens t) Routing = r'"
    using assms(2) by (auto simp: both_def standing_def)
  have ne: "a \<noteq> h" "h \<noteq> a" using assms(2) by (auto simp: both_def)
  have id: "sl_id s = h" "sl_id t = a" by (rule reg_inv_sleeve_facts(1) [OF s(1,2)], rule reg_inv_sleeve_facts(1) [OF s(1) t(1)])
  have pins: "forA (\<lambda>c. ignoreA (x_hippo_pin ?X c)) cs v = (Inr (), v)" for cs v
    by (induction cs) (simp_all add: ret_def bindA_def ignoreA_def table_ext_def)
  have shards: "shard_list ?X st v = (Inr (map hn_cid fs), v)" for v
    using st assms(4) by (simp add: shard_list_def head_links_def bindA_def table_ext_def ret_def)
  obtain i route w' where m: "needlecast ?X lib now h a w = (Inr (Reply (i, route, length fs)), w')"
    "standing h sid d c y (r - 5) w'" "standing a sid 0 c' y' r' w'"
    using s t ne id st assms(3) pins shards
    by (simp add: needlecast_def saga_def transfer_def attempt_def bindA_def ret_def cost_def table_calls standing_def
      set_alive_def landed_def settled_def)
  have "safe ?X (needlecast ?X lib now h a) (\<lambda>_. reg_inv) reg_inv w" by (rule needlecast_inv [OF ext_ok_table s(1)])
  then have "reg_inv w'" unfolding safe_def using m by (auto simp: table_calls)
  with m ne show ?thesis by (auto simp: both_def)
qed


lemma spawn_run:
  assumes "reg_inv w" "map_of (vw_stacks w) sid = Some st"
    "filter (\<lambda>s. sl_stackId s = sid) (map snd (vw_sleeves w)) = own"
    "s = new_sleeve lib now st kind None (length own + 1)" "map_of (vw_sleeves w) (sl_id s) = None" "kind \<in> {''human'', ''ai''}"
  shows "\<exists>es. spawn_sleeve (table_ext put recall_reply) lib now sid (Some kind) None w =
    (Inr (Reply s), w\<lparr>vw_sleeves := vw_sleeves w @ [(sl_id s, s)], vw_events := es\<rparr>)"
proof -
  have "st_id st = sid" by (rule reg_inv_stack [OF assms(1,2)])
  with assms(2-6) show ?thesis by (auto simp: spawn_sleeve_def table_calls bindA_def ret_def ignoreA_def Let_def)
qed

lemma start_steps:
  assumes "dm_net E 0 = Delivered" "dm_net E 1 = Delivered" "dm_net E 2 = Delivered"
  shows "\<exists>st pr s t w1 w2 w3.
    demo_j (dm_net E 0) ''POST'' ''/v1/stacks'' (create_stack (table_ext put recall_reply) lib (dm_now E 0) (dm_priv E) ''demo-pilot'' (Some ''human''))
      empty_view = (Inr (st, pr), w1) \<and>
    demo_j (dm_net E 1) ''POST'' ''/v1/sleeves'' (spawn_sleeve (table_ext put recall_reply) lib (dm_now E 1) (st_id st) (Some ''human'') None) w1 = (Inr s, w2) \<and>
    demo_j (dm_net E 2) ''POST'' ''/v1/sleeves'' (spawn_sleeve (table_ext put recall_reply) lib (dm_now E 2) (st_id st) (Some ''ai'') None) w2 = (Inr t, w3) \<and>
    both (st_id st) (sl_id s) (sl_id t) (0, 250, 250, 250) (0, 250, 250, 250) w3"
proof -
  let ?X = "table_ext put recall_reply"
  define st where "st = new_stack lib (dm_now E 0) (dm_priv E) ''demo-pilot'' ''human'' 1"
  obtain es where c: "create_stack ?X lib (dm_now E 0) (dm_priv E) ''demo-pilot'' (Some ''human'') empty_view =
      (Inr (Reply (st, kp_priv (genIdentityKeypair lib (dm_priv E)))), empty_view\<lparr>vw_stacks := [(st_id st, st)], vw_events := es\<rparr>)"
    by (simp add: create_stack_def st_def table_calls bindA_def ret_def ignoreA_def Let_def empty_view_def)
  let ?w1 = "empty_view\<lparr>vw_stacks := [(st_id st, st)], vw_events := es\<rparr>"
  have keep: "reg_inv w'" if "m w = (Inr x, w')" "reg_inv w" "\<And>w. reg_inv w \<Longrightarrow> safe ?X m (\<lambda>_. reg_inv) reg_inv w" for m :: "(view, 'b) act" and w x w'
    using that(3) [OF that(2)] that(1) unfolding safe_def by (auto simp: table_calls)
  have r1: "reg_inv ?w1" by (rule keep [OF c reg_inv_empty create_stack_inv [OF ext_ok_table]])
  define s where "s = new_sleeve lib (dm_now E 1) st ''human'' None 1"
  define t where "t = new_sleeve lib (dm_now E 2) st ''ai'' None 2"
  have f: "sl_stackId s = st_id st" "sl_stackId t = st_id st" "sl_alive s" "sl_alive t" "sl_drift s = 0" "sl_drift t = 0"
    "tok (sl_tokens s) k = (if k = Residue then 0 else 250)" "tok (sl_tokens t) k = (if k = Residue then 0 else 250)" "sl_id s \<noteq> sl_id t" for k
    by (cases k; simp add: s_def t_def new_sleeve_def)+
  have "\<exists>es. spawn_sleeve ?X lib (dm_now E 1) (st_id st) (Some ''human'') None ?w1 = (Inr (Reply s), ?w1\<lparr>vw_sleeves := vw_sleeves ?w1 @ [(sl_id s, s)], vw_events := es\<rparr>)"
    by (rule spawn_run [OF r1, where own = "[]"]) (simp_all add: s_def empty_view_def)
  then obtain es1 where s1: "spawn_sleeve ?X lib (dm_now E 1) (st_id st) (Some ''human'') None ?w1 =
      (Inr (Reply s), ?w1\<lparr>vw_sleeves := [(sl_id s, s)], vw_events := es1\<rparr>)" by (auto simp: empty_view_def)
  let ?w2 = "?w1\<lparr>vw_sleeves := [(sl_id s, s)], vw_events := es1\<rparr>"
  have t2: "t = new_sleeve lib (dm_now E 2) st ''ai'' None (length [s] + 1)" by (simp add: t_def numeral_2_eq_2)
  have r2: "reg_inv ?w2" by (rule keep [OF s1 r1 spawn_sleeve_inv [OF ext_ok_table]])
  have "\<exists>es. spawn_sleeve ?X lib (dm_now E 2) (st_id st) (Some ''ai'') None ?w2 = (Inr (Reply t), ?w2\<lparr>vw_sleeves := vw_sleeves ?w2 @ [(sl_id t, t)], vw_events := es\<rparr>)"
    by (rule spawn_run [OF r2 _ _ t2]) (simp_all add: f(1) f(9) [symmetric])
  then obtain es2 where s2: "spawn_sleeve ?X lib (dm_now E 2) (st_id st) (Some ''ai'') None ?w2 =
      (Inr (Reply t), ?w2\<lparr>vw_sleeves := [(sl_id s, s), (sl_id t, t)], vw_events := es2\<rparr>)" by auto
  let ?w3 = "?w2\<lparr>vw_sleeves := [(sl_id s, s), (sl_id t, t)], vw_events := es2\<rparr>"
  have r3: "reg_inv ?w3" by (rule keep [OF s2 r2 spawn_sleeve_inv [OF ext_ok_table]])
  have "both (st_id st) (sl_id s) (sl_id t) (0, 250, 250, 250) (0, 250, 250, 250) ?w3"
    using r3 f by (simp add: both_def standing_def)
  moreover have "demo_j (dm_net E 0) ''POST'' ''/v1/stacks'' (create_stack ?X lib (dm_now E 0) (dm_priv E) ''demo-pilot'' (Some ''human'')) empty_view =
      (Inr (st, kp_priv (genIdentityKeypair lib (dm_priv E))), ?w1)" unfolding assms by (rule j_reply) (rule c)
  moreover have "demo_j (dm_net E 1) ''POST'' ''/v1/sleeves'' (spawn_sleeve ?X lib (dm_now E 1) (st_id st) (Some ''human'') None) ?w1 = (Inr s, ?w2)"
    unfolding assms by (rule j_reply) (rule s1)
  moreover have "demo_j (dm_net E 2) ''POST'' ''/v1/sleeves'' (spawn_sleeve ?X lib (dm_now E 2) (st_id st) (Some ''ai'') None) ?w2 = (Inr t, ?w3)"
    unfolding assms by (rule j_reply) (rule s2)
  ultimately show ?thesis by blast
qed


lemma forward_run:
  "needlecast X lib now h a w = (Inr (Reply out), w') \<Longrightarrow> forward_needlecast Delivered X lib now h a w = (Inr (Reply (Some out)), w')"
  by (simp add: forward_needlecast_def fetch_via_def answered_def tryA_def attempt_def bindA_def ret_def)

lemma totals_run:
  assumes "both sid h a p q w"
  shows "\<exists>f. token_totals (table_ext put recall_reply) sid w = (Inr (Reply f), w)"
proof -
  obtain d c y r where "p = (d, c, y, r)" by (cases p)
  with both_stack assms obtain st where "map_of (vw_stacks w) sid = Some st" by blast
  then show ?thesis by (simp add: token_totals_def table_calls bindA_def ret_def)
qed

text \<open>C38: what the demonstration shows.  On a fresh system without any fault it stops at its first sync, which the framework
  refuses because of the announced but missing body, and leaves two sleeves with five perceptions each; if
  the framework let it through, it would end, with both sleeves synchronised, alive and at their expected
  balances, every fragment recalled and the needlecast done with one shard per fragment.\<close>

theorem demo_outcomes:
  assumes "noble_ok lib" "\<forall>k. dm_net E k = Delivered \<and> length (dm_rnd E k) = 12" "dm_router E = Delivered"
    and "\<forall>q. \<exists>c cs. put q = Inr (c # cs)"
    and "\<And>args. ha_depth args = 8 \<Longrightarrow> recall_reply args = Inr \<lparr>hr_fragments = Some fs, hr_broken = bs, hr_fidelity = f\<rparr>"
    and "dm_residues E = Inr rows"
  shows "(\<exists>e w sid h a. demo_main (table_ext put recall_reply) lib ms False E empty_view = (Inl e, w) \<and>
      both sid h a (5, 247.5, 250, 250) (5, 247.5, 250, 250) w) \<and>
    (\<exists>r w i route. demo_main (table_ext put recall_reply) lib ms True E empty_view = (Inr r, w) \<and>
      both (dr_stack r) (dr_human r) (dr_ai r) (0, 247.5, 249, 245) (0, 247.5, 249, 250) w \<and>
      dr_fragments r = length fs \<and> dr_fidelity r = f \<and> dr_saga r = Some (i, route, length fs))"
proof -
  let ?X = "table_ext put recall_reply"
  have d: "dm_net E k = Delivered" for k using assms(2) by blast
  obtain st pr s t w1 w2 w3 where s:
    "demo_j (dm_net E 0) ''POST'' ''/v1/stacks'' (create_stack ?X lib (dm_now E 0) (dm_priv E) ''demo-pilot'' (Some ''human'')) empty_view = (Inr (st, pr), w1)"
    "demo_j (dm_net E 1) ''POST'' ''/v1/sleeves'' (spawn_sleeve ?X lib (dm_now E 1) (st_id st) (Some ''human'') None) w1 = (Inr s, w2)"
    "demo_j (dm_net E 2) ''POST'' ''/v1/sleeves'' (spawn_sleeve ?X lib (dm_now E 2) (st_id st) (Some ''ai'') None) w2 = (Inr t, w3)"
    and b0: "both (st_id st) (sl_id s) (sl_id t) (0, 250, 250, 250) (0, 250, 250, 250) w3"
    using start_steps [OF d d d, of put recall_reply lib] by blast
  let ?sid = "st_id st" and ?h = "sl_id s" and ?a = "sl_id t"
  have "both ?sid ?h ?a (real 0, 250 - real 0 / 2, 250, 250) (real 0, 250 - real 0 / 2, 250, 250) w3" using b0 by simp
  from rounds_step [OF assms(1,2,4) this, where ms = ms and recall_reply = recall_reply and ns = "[0..<5]"] obtain w4 where
    r: "forA (demo_round ?X lib ms E ?h ?a) [0..<5] w3 = (Inr (), w4)"
    "both ?sid ?h ?a (5, 247.5, 250, 250) (5, 247.5, 250, 250) w4" "has_head ?sid w4" by auto
  obtain e where e: "demo_sync ?X False E 13 ?h w4 = (Inl e, w4)"
    by (simp add: demo_sync_def demo_j_def d fetch_via_def answered_def tryA_def bindA_def ret_def throwA_def)
  have "demo_main ?X lib ms False E empty_view = (Inl e, w4)"
    by (simp only: demo_main_def bindA_def s r(1) e prod.case sum.case)
  moreover obtain y1 w5 where y1: "demo_sync ?X True E 13 ?h w4 = (Inr y1, w5)"
    "both ?sid ?h ?a (0, 247.5, 250 - 1, 250) (5, 247.5, 250, 250) w5" "has_head ?sid w5"
    using sync_step [OF d r(2) _ r(3), where k = 13 and put = put and recall_reply = recall_reply] by auto
  obtain y2 w6 where y2: "demo_sync ?X True E 14 ?a w5 = (Inr y2, w6)"
    "both ?sid ?a ?h (0, 247.5, 250 - 1, 250) (0, 247.5, 250 - 1, 250) w6" "has_head ?sid w6"
    using sync_step [OF d y1(2) [unfolded both_swap [of ?sid ?h]] _ y1(3), where k = 14 and put = put and recall_reply = recall_reply] by auto
  let ?bs = "case bs of None \<Rightarrow> [] | Some b \<Rightarrow> b"
  obtain w7 where rc: "recall_stack ?X ?sid (Some 8) None w6 = (Inr (Reply (fs, ?bs, f)), w7)"
    "both ?sid ?h ?a (0, 247.5, 250 - 1, 250) (0, 247.5, 250 - 1, 250) w7" "has_head ?sid w7"
    using recall_step [where recall_reply = recall_reply and put = put and bs = bs and fs = fs and f = f, OF y2(3) y2(2) [unfolded both_swap [of ?sid ?a]] assms(5)] by blast
  obtain i route w8 where nc: "needlecast ?X lib (dm_now E 16) ?h ?a w7 = (Inr (Reply (i, route, length fs)), w8)"
    "both ?sid ?h ?a (0, 247.5, 250 - 1, 250 - 5) (0, 247.5, 250 - 1, 250) w8"
    using cast_step [where recall_reply = recall_reply and bs = bs and fs = fs and f = f, OF rc(3,2) _ assms(5), where put = put and lib = lib and now = "dm_now E 16"] by auto
  have fc: "forward_needlecast (dm_router E) ?X lib (dm_now E 16) ?h ?a w7 = (Inr (Reply (Some (i, route, length fs))), w8)"
    unfolding assms(3) by (rule forward_run) (rule nc(1))
  obtain totals where tt: "token_totals ?X ?sid w8 = (Inr (Reply totals), w8)" using totals_run [OF nc(2)] by blast
  have rs: "bindA (lift (dm_residues E)) (\<lambda>rows. ret (Reply (list_residues rows))) w8 = (Inr (Reply (list_residues rows)), w8)"
    by (simp add: lift_def bindA_def ret_def assms(6))
  have js: "demo_j (dm_net E 15) ''GET'' path (recall_stack ?X ?sid (Some 8) None) w6 = (Inr (fs, ?bs, f), w7)"
    "demo_j (dm_net E 16) ''POST'' path (forward_needlecast (dm_router E) ?X lib (dm_now E 16) ?h ?a) w7 = (Inr (Some (i, route, length fs)), w8)"
    "demo_j (dm_net E 17) ''GET'' path (ret (Reply (epochs_current (dm_info E)))) w8 = (Inr (epochs_current (dm_info E)), w8)"
    "demo_j (dm_net E 18) ''GET'' path (token_totals ?X ?sid) w8 = (Inr totals, w8)"
    "demo_j (dm_net E 19) ''GET'' path (bindA (lift (dm_residues E)) (\<lambda>rows. ret (Reply (list_residues rows)))) w8 = (Inr (list_residues rows), w8)" for path
    unfolding d by (rule j_reply, rule rc fc ret_run tt rs)+
  have "demo_main ?X lib ms True E empty_view = (Inr \<lparr>dr_stack = ?sid, dr_human = ?h, dr_ai = ?a, dr_fidelity = f,
      dr_fragments = length fs, dr_broken = length ?bs, dr_saga = Some (i, route, length fs), dr_epoch = epochs_current (dm_info E),
      dr_balances = totals, dr_residues = list_residues rows\<rparr>, w8)"
    by (simp only: demo_main_def bindA_def [of "demo_j n m p q" for n m p q] bindA_def [of "forA g xs" for g xs] bindA_def [of "demo_sync a b c' d' e'" for a b c' d' e']
      s r(1) y1(1) y2(1) js prod.case sum.case ret_run)
  ultimately show ?thesis using r(2) nc(2) by fastforce
qed

text \<open>The hippocampus keeps nothing but the last memory.\<close>

definition demo_run :: demo_env where
  "demo_run = \<lparr>dm_net = (\<lambda>_. Delivered), dm_now = (\<lambda>k. 100 + k), dm_rnd = (\<lambda>_. replicate 12 0), dm_priv = replicate 32 1,
     dm_router = Delivered, dm_info = Inl ''down'', dm_residues = Inr []\<rparr>"

theorem demo_outcomes_witness:
  "\<exists>r w. demo_main (table_ext (\<lambda>_. Inr ''c'') one_fragment) demo_noble ''m'' True demo_run empty_view = (Inr r, w) \<and> dr_fragments r = 1"
proof -
  have r: "one_fragment args = Inr \<lparr>hr_fragments = Some [demo_fragment], hr_broken = None, hr_fidelity = 1\<rparr>" for args
    by (simp add: one_fragment_def)
  have "dm_router demo_run = Delivered" "dm_residues demo_run = Inr []"
    "\<forall>k. dm_net demo_run k = Delivered \<and> length (dm_rnd demo_run k) = 12" by (simp_all add: demo_run_def)
  then show ?thesis
    using demo_outcomes [where put = "\<lambda>_. Inr ''c''" and recall_reply = one_fragment, OF noble_ok_demo, of demo_run, OF _ _ _ r, of "[]" "''m''"]
    by fastforce
qed

end
