(* ===== verification/Events.thy ===== *)
theory Events
  imports Bus
begin

text \<open>
  \<^verbatim>\<open>packages/proto/src/events.ts\<close>: the field schemas of the twelve event types and the discriminated union
  \<open>EccaEvent\<close>, and the payloads that the services really publish, which no service validates.  A payload
  is a list of named fields with strings, real numbers, lists and objects.
\<close>

subsection \<open>Fields\<close>

datatype ev_value = VStr string | VNum real | VList "ev_value list" | VObj "(string \<times> ev_value) list"

type_synonym payload = "(string \<times> ev_value) list"

type_synonym field_schema = "ev_value option \<Rightarrow> bool"

fun z_string :: field_schema where
  "z_string (Some (VStr s)) = True"
| "z_string _ = False"

definition z_regex :: "(string \<Rightarrow> bool) \<Rightarrow> field_schema" where
  "z_regex p v = (case v of Some (VStr s) \<Rightarrow> p s | _ \<Rightarrow> False)"

definition z_number :: "(real \<Rightarrow> bool) \<Rightarrow> field_schema" where
  "z_number p v = (case v of Some (VNum x) \<Rightarrow> p x | _ \<Rightarrow> False)"

definition integral :: "real \<Rightarrow> bool" where
  "integral x \<longleftrightarrow> of_int \<lfloor>x\<rfloor> = x"

definition z_optional :: "field_schema \<Rightarrow> field_schema" where
  "z_optional p v \<longleftrightarrow> v = None \<or> p v"

definition z_object :: "(string \<times> field_schema) list \<Rightarrow> field_schema" where
  "z_object fs v = (case v of Some (VObj ps) \<Rightarrow> list_all (\<lambda>(k, p). p (map_of ps k)) fs | _ \<Rightarrow> False)"

definition z_array :: "field_schema \<Rightarrow> field_schema" where
  "z_array p v = (case v of Some (VList vs) \<Rightarrow> list_all (\<lambda>x. p (Some x)) vs | _ \<Rightarrow> False)"

definition z_record :: field_schema where
  "z_record v = (case v of Some (VObj ps) \<Rightarrow> True | _ \<Rightarrow> False)"

abbreviation "z_any_number \<equiv> z_number (\<lambda>x. True)"

definition Cid :: "string \<Rightarrow> bool" where
  "Cid s = re_full cid_re s"

text \<open>\<^verbatim>\<open>/^0x[0-9a-f]{64}$/\<close>.\<close>

definition Root :: "string \<Rightarrow> bool" where
  "Root s \<longleftrightarrow> take 2 s = ''0x'' \<and> length s = 66 \<and> list_all is_hex_char (drop 2 s)"

subsection \<open>The twelve schemas\<close>

definition StackCreated_schema :: "(string \<times> field_schema) list" where
  "StackCreated_schema = [(''type'', z_regex (\<lambda>s. s = ''stack.created'')), (''stackId'', z_regex StackId),
     (''name'', z_string), (''kind'', z_string), (''tokenId'', z_number integral), (''pubkey'', z_string), (''ts'', z_any_number)]"

definition SleeveSpawned_schema :: "(string \<times> field_schema) list" where
  "SleeveSpawned_schema = [(''type'', z_regex (\<lambda>s. s = ''sleeve.spawned'')), (''sleeveId'', z_regex SleeveId),
     (''stackId'', z_regex StackId), (''embodimentType'', z_regex (\<lambda>s. s \<in> set EmbodimentType)), (''ts'', z_any_number)]"

definition SleeveDecommissioned_schema :: "(string \<times> field_schema) list" where
  "SleeveDecommissioned_schema = [(''type'', z_regex (\<lambda>s. s = ''sleeve.decommissioned'')),
     (''sleeveId'', z_regex SleeveId), (''stackId'', z_regex StackId), (''ts'', z_any_number)]"

definition PerceiveEvent_schema :: "(string \<times> field_schema) list" where
  "PerceiveEvent_schema = [(''type'', z_regex (\<lambda>s. s = ''sleeve.perceive'')), (''sleeveId'', z_regex SleeveId),
     (''stackId'', z_regex StackId), (''cid'', z_regex Cid), (''computeCost'', z_any_number), (''ts'', z_any_number)]"

definition RecallEvent_schema :: "(string \<times> field_schema) list" where
  "RecallEvent_schema = [(''type'', z_regex (\<lambda>s. s = ''memory.recall'')), (''stackId'', z_regex StackId),
     (''sleeveId'', z_optional (z_regex SleeveId)), (''rootCid'', z_regex Cid),
     (''fidelity'', z_number (\<lambda>x. 0 \<le> x \<and> x \<le> 1)), (''fragments'', z_number integral), (''broken'', z_number integral),
     (''ts'', z_any_number)]"

definition NeedlecastEvent_schema :: "(string \<times> field_schema) list" where
  "NeedlecastEvent_schema = [(''type'', z_regex (\<lambda>s. s = ''needlecast'')), (''stackId'', z_regex StackId),
     (''fromSleeve'', z_regex SleeveId), (''toSleeve'', z_regex SleeveId), (''merkleRoot'', z_regex Root),
     (''epoch'', z_number (\<lambda>x. integral x \<and> 0 \<le> x)), (''fidelity'', z_any_number), (''ts'', z_any_number)]"

definition DriftEvent_schema :: "(string \<times> field_schema) list" where
  "DriftEvent_schema = [(''type'', z_regex (\<lambda>s. s = ''sleeve.drift'')), (''sleeveId'', z_regex SleeveId),
     (''stackId'', z_regex StackId), (''drift'', z_any_number), (''threshold'', z_any_number), (''ts'', z_any_number)]"

definition DesyncEvent_schema :: "(string \<times> field_schema) list" where
  "DesyncEvent_schema = [(''type'', z_regex (\<lambda>s. s = ''cross-chain.desync'')), (''stackId'', z_optional (z_regex StackId)),
     (''sleeves'', z_array (z_object [(''sleeveId'', z_regex SleeveId), (''drift'', z_any_number)])), (''ts'', z_any_number)]"

definition ResidueKind :: "string list" where
  "ResidueKind = [''stale-ordering'', ''speculative-divergence'', ''historical-non-canonical'', ''reorg-orphan'', ''shard-loss'']"

definition ResidueDetected_schema :: "(string \<times> field_schema) list" where
  "ResidueDetected_schema = [(''type'', z_regex (\<lambda>s. s = ''residue.detected'')), (''residueId'', z_string),
     (''kind'', z_regex (\<lambda>s. s \<in> set ResidueKind)), (''stackId'', z_optional (z_regex StackId)), (''evidence'', z_record),
     (''bountyEstimate'', z_any_number), (''ts'', z_any_number)]"

definition ResidueResolved_schema :: "(string \<times> field_schema) list" where
  "ResidueResolved_schema = [(''type'', z_regex (\<lambda>s. s = ''residue.resolved'')), (''residueId'', z_string),
     (''resolverStack'', z_regex StackId), (''proofTxHash'', z_string), (''payout'', z_any_number), (''ts'', z_any_number)]"

definition EpochTransition_schema :: "(string \<times> field_schema) list" where
  "EpochTransition_schema = [(''type'', z_regex (\<lambda>s. s = ''epoch.transition'')),
     (''epoch'', z_number (\<lambda>x. integral x \<and> 0 \<le> x)), (''blockHash'', z_string), (''crossRoot'', z_string),
     (''evmRoot'', z_string), (''ipfsRoot'', z_string), (''sleevesRoot'', z_string), (''difficulty'', z_any_number),
     (''ts'', z_any_number)]"

definition CoordinationTick_schema :: "(string \<times> field_schema) list" where
  "CoordinationTick_schema = [(''type'', z_regex (\<lambda>s. s = ''coordination.tick'')), (''crossRoot'', z_string),
     (''chains'', z_object [(''evm'', z_string), (''btc'', z_string), (''ipfs'', z_string), (''sleeves'', z_string)]),
     (''ts'', z_any_number)]"

text \<open>\<open>z.discriminatedUnion('type', ...)\<close>: the type picks the schema.\<close>

definition ecca_schemas :: "(string \<times> (string \<times> field_schema) list) list" where
  "ecca_schemas = zip EccaEvent [StackCreated_schema, SleeveSpawned_schema, SleeveDecommissioned_schema,
     PerceiveEvent_schema, RecallEvent_schema, NeedlecastEvent_schema, DriftEvent_schema, DesyncEvent_schema,
     ResidueDetected_schema, ResidueResolved_schema, EpochTransition_schema, CoordinationTick_schema]"

definition valid_event :: "payload \<Rightarrow> bool" where
  "valid_event p = (case map_of p ''type'' of
     Some (VStr t) \<Rightarrow> (case map_of ecca_schemas t of None \<Rightarrow> False | Some spec \<Rightarrow> z_object spec (Some (VObj p)))
   | _ \<Rightarrow> False)"

subsection \<open>What is published\<close>

text \<open>The arguments of \<open>bus.publish\<close> in the services, at time \<open>ts\<close>.\<close>

fun payload_fields :: "event \<Rightarrow> payload" where
  "payload_fields (StackCreated i name kind tokenId pub) = [(''stackId'', VStr i), (''name'', VStr name), (''kind'', VStr kind),
     (''tokenId'', VNum (real tokenId)), (''pubkey'', VStr pub)]"
| "payload_fields (SleeveSpawned i st kind) = [(''sleeveId'', VStr i), (''stackId'', VStr st), (''embodimentType'', VStr kind)]"
| "payload_fields (SleeveDecommissioned i st) = [(''sleeveId'', VStr i), (''stackId'', VStr st)]"
| "payload_fields (SleevePerceive i st c cost) = [(''sleeveId'', VStr i), (''stackId'', VStr st), (''cid'', VStr c),
     (''computeCost'', VNum cost)]"
| "payload_fields (MemoryRecall st head fidelity n broken) = [(''stackId'', VStr st), (''rootCid'', VStr head),
     (''fidelity'', VNum fidelity), (''fragments'', VNum (real n)), (''broken'', VNum (real broken))]"
| "payload_fields (NeedlecastRoute f t st route shards saga) = [(''from'', VStr f), (''to'', VStr t), (''stackId'', VStr st),
     (''route'', VStr route), (''shards'', VList (map VStr shards)), (''sagaId'', VStr saga)]"
| "payload_fields (EpochTransition n cross) = [(''epoch'', VNum (real n)), (''crossRoot'', VStr cross)]"
| "payload_fields (SleeveDrift i st d) = [(''sleeveId'', VStr i), (''stackId'', VStr st), (''drift'', VNum d)]"
| "payload_fields (SleeveDesync i st d) = [(''sleeveId'', VStr i), (''stackId'', VStr st), (''drift'', VNum d)]"
| "payload_fields (ResidueDetected i kind st) = [(''residueId'', VStr i), (''kind'', VStr kind), (''stackId'', VStr st)]"

definition payload_of :: "real \<Rightarrow> event \<Rightarrow> payload" where
  "payload_of ts ev = (''type'', VStr (event_type ev)) # payload_fields ev @ [(''ts'', VNum ts)]"

subsection \<open>Properties\<close>

lemma integral_nat [simp]: "integral (real n)"
  by (simp add: integral_def)

lemmas schema_simps = z_regex_def z_number_def z_optional_def z_object_def z_array_def z_record_def

lemma schema_of:
  "map_of ecca_schemas ''stack.created'' = Some StackCreated_schema"
  "map_of ecca_schemas ''sleeve.spawned'' = Some SleeveSpawned_schema"
  "map_of ecca_schemas ''sleeve.decommissioned'' = Some SleeveDecommissioned_schema"
  "map_of ecca_schemas ''sleeve.perceive'' = Some PerceiveEvent_schema"
  "map_of ecca_schemas ''memory.recall'' = Some RecallEvent_schema"
  "map_of ecca_schemas ''sleeve.drift'' = Some DriftEvent_schema"
  "map_of ecca_schemas ''epoch.transition'' = Some EpochTransition_schema"
  "map_of ecca_schemas ''needlecast.route'' = None"
  "map_of ecca_schemas ''sleeve.desync'' = None"
  "map_of ecca_schemas ''coordination.residue.detected'' = None"
  by (simp_all add: ecca_schemas_def EccaEvent_def)

text \<open>C26: which published events conform to the taxonomy.  The events of the gateway do exactly if their ids,
  kinds, cids and fidelity have the promised formats; no event of the needlecast router, the thalamus or
  the workers does, whatever its contents: three have types outside the union, an epoch transition lacks
  the block hash, three roots and the difficulty, and a drift event lacks the threshold.\<close>

theorem published_events_conform:
  "valid_event (payload_of ts ev) = (case ev of
     StackCreated i name kind tokenId pub \<Rightarrow> StackId i
   | SleeveSpawned i st kind \<Rightarrow> SleeveId i \<and> StackId st \<and> kind \<in> set EmbodimentType
   | SleeveDecommissioned i st \<Rightarrow> SleeveId i \<and> StackId st
   | SleevePerceive i st c cost \<Rightarrow> SleeveId i \<and> StackId st \<and> Cid c
   | MemoryRecall st head fidelity n broken \<Rightarrow> StackId st \<and> Cid head \<and> 0 \<le> fidelity \<and> fidelity \<le> 1
   | _ \<Rightarrow> False)"
  by (cases ev) (simp_all add: valid_event_def payload_of_def schema_of schema_simps StackCreated_schema_def
      SleeveSpawned_schema_def SleeveDecommissioned_schema_def PerceiveEvent_schema_def RecallEvent_schema_def
      DriftEvent_schema_def EpochTransition_schema_def)

text \<open>The cids the crypto package makes are cids of the taxonomy.\<close>

lemma made_cid_valid: "noble_ok lib \<Longrightarrow> Cid (cid lib c e)"
  using parse_made_cid [of lib c e] by (auto simp: Cid_def parseCid_def split: if_splits)

end
