(* ===== verification/Bootstrap.thy ===== *)
theory Bootstrap
  imports AgentServer Bus
begin

text \<open>
  How a service comes up and goes down: the connection to the bus with its module-wide instance
  (\<^verbatim>\<open>packages/bus/src/index.ts\<close>), the shared bootstrap (\<^verbatim>\<open>packages/service-base/src/index.ts\<close>), the database client
  (\<^verbatim>\<open>packages/db/src/index.ts\<close>), and the start of the agent runtime, which can do without a bus.  The NATS server is
  a parameter: what each call to it comes to.
\<close>

subsection \<open>Connecting to the bus\<close>

text \<open>A call either succeeds or throws an error, which may lack a message.\<close>

datatype call = Fine | Broken "string option"

record stream_config =
  sm_name :: string
  sm_subjects :: "string list"
  sm_retention :: string
  sm_max_msgs :: nat
  sm_max_age :: nat

definition STREAM_CONFIG :: stream_config where
  "STREAM_CONFIG = \<lparr>sm_name = ''ECCA'', sm_subjects = STREAM_SUBJECTS, sm_retention = ''limits'', sm_max_msgs = 1000000,
     sm_max_age = 7 * 24 * 60 * 60 * 10 ^ 9\<rparr>"

record nats =
  nt_connect :: "string \<Rightarrow> call"
  nt_manager :: call
  nt_add :: "stream_config \<Rightarrow> call"

record axonal_bus =
  ab_url :: string
  ab_nc :: bool
  ab_js :: bool

definition new_bus :: "(string \<Rightarrow> string option) \<Rightarrow> axonal_bus" where
  "new_bus env = \<lparr>ab_url = (case env ''NATS_URL'' of None \<Rightarrow> ''nats://axonal-bus:4222'' | Some u \<Rightarrow> u), ab_nc = False, ab_js = False\<rparr>"

fun js_includes :: "string \<Rightarrow> string \<Rightarrow> bool" where
  "js_includes l [] = (l = [])"
| "js_includes l (c # s) = (is_prefix l (c # s) \<or> js_includes l s)"

definition tolerated :: "string option \<Rightarrow> bool" where
  "tolerated message = js_includes ''stream name already in use'' (case message of None \<Rightarrow> [] | Some t \<Rightarrow> t)"

text \<open>The \<open>try\<close> block of \<open>connect\<close>: an error of the manager or of the stream is passed on unless it is tolerated.\<close>

definition ensured :: "call \<Rightarrow> string option + unit" where
  "ensured c = (case c of Fine \<Rightarrow> Inr () | Broken m \<Rightarrow> if tolerated m then Inr () else Inl m)"

definition ensure_stream :: "nats \<Rightarrow> string option + unit" where
  "ensure_stream T = (case nt_manager T of Fine \<Rightarrow> ensured (nt_add T STREAM_CONFIG) | Broken m \<Rightarrow> ensured (Broken m))"

definition bus_connect :: "nats \<Rightarrow> axonal_bus \<Rightarrow> (string option + unit) \<times> axonal_bus" where
  "bus_connect T b = (case nt_connect T (ab_url b) of
     Broken m \<Rightarrow> (Inl m, b)
   | Fine \<Rightarrow> (ensure_stream T, b\<lparr>ab_nc := True, ab_js := True\<rparr>))"

text \<open>What is handed to the server, or the exception of an instance that has no connection.\<close>

definition bus_publish :: "axonal_bus \<Rightarrow> event \<Rightarrow> string + (string \<times> event)" where
  "bus_publish b ev = (if ab_js b then Inr (subject ev, ev) else Inl ''TypeError: Cannot read properties of undefined'')"

definition bus_publishLight :: "axonal_bus \<Rightarrow> string \<Rightarrow> 'p \<Rightarrow> string + (string \<times> 'p)" where
  "bus_publishLight b subj payload = (if ab_nc b then Inr (subj, payload) else Inl ''TypeError: Cannot read properties of undefined'')"

record consumer_opts =
  co_durable :: string
  co_ack_explicit :: bool
  co_deliver_to :: string

definition bus_subscribe :: "string \<Rightarrow> axonal_bus \<Rightarrow> string \<Rightarrow> string \<Rightarrow> string + (string \<times> consumer_opts)" where
  "bus_subscribe inbox b subj durableName =
     (if ab_js b then Inr (subj, \<lparr>co_durable = durableName, co_ack_explicit = True, co_deliver_to = inbox\<rparr>)
      else Inl ''TypeError: Cannot read properties of undefined'')"

text \<open>Whether closing drains a connection.\<close>

definition bus_close :: "axonal_bus \<Rightarrow> bool" where
  "bus_close b \<longleftrightarrow> ab_nc b"

text \<open>The instance of the module, when no call overlaps another.\<close>

definition getBus :: "nats \<Rightarrow> (string \<Rightarrow> string option) \<Rightarrow> axonal_bus option \<Rightarrow> (string option + unit) \<times> axonal_bus option" where
  "getBus T env st = (case st of
     Some b \<Rightarrow> (Inr (), Some b)
   | None \<Rightarrow> (case bus_connect T (new_bus env) of (r, b) \<Rightarrow> (r, Some b)))"

text \<open>
  The same as steps, one for each stretch between two awaits.  The instance is assigned before the first await
  of its connection, and a caller that finds it assigned is answered at once.
\<close>

datatype stage = Unused | Linking nat | Managing nat | Adding nat | Settled

record bus_module =
  bm_bus :: "axonal_bus option"
  bm_stage :: stage
  bm_answers :: "(nat \<times> (string option + unit)) list"

definition bus_module_start :: bus_module where
  "bus_module_start = \<lparr>bm_bus = None, bm_stage = Unused, bm_answers = []\<rparr>"

definition answer :: "nat \<Rightarrow> string option + unit \<Rightarrow> bus_module \<Rightarrow> bus_module" where
  "answer i r m = m\<lparr>bm_answers := bm_answers m @ [(i, r)]\<rparr>"

definition settle :: "nat \<Rightarrow> string option + unit \<Rightarrow> bus_module \<Rightarrow> bus_module" where
  "settle i r m = (answer i r m)\<lparr>bm_stage := Settled\<rparr>"

inductive bus_step :: "(string \<Rightarrow> string option) \<Rightarrow> bus_module \<Rightarrow> bus_module \<Rightarrow> bool" for env where
  first: "bm_bus m = None \<Longrightarrow> bus_step env m (m\<lparr>bm_bus := Some (new_bus env), bm_stage := Linking i\<rparr>)"
| again: "bm_bus m = Some b \<Longrightarrow> bus_step env m (answer i (Inr ()) m)"
| linked: "bm_stage m = Linking i \<Longrightarrow> bm_bus m = Some b \<Longrightarrow>
    bus_step env m (m\<lparr>bm_bus := Some (b\<lparr>ab_nc := True, ab_js := True\<rparr>), bm_stage := Managing i\<rparr>)"
| unlinked: "bm_stage m = Linking i \<Longrightarrow> bus_step env m (settle i (Inl e) m)"
| managed: "bm_stage m = Managing i \<Longrightarrow> bus_step env m (m\<lparr>bm_stage := Adding i\<rparr>)"
| unmanaged: "bm_stage m = Managing i \<Longrightarrow> bus_step env m (settle i (ensured (Broken e)) m)"
| added: "bm_stage m = Adding i \<Longrightarrow> bus_step env m (settle i (ensured c) m)"

abbreviation bus_reach :: "(string \<Rightarrow> string option) \<Rightarrow> bus_module \<Rightarrow> bus_module \<Rightarrow> bool" where
  "bus_reach env \<equiv> (bus_step env)\<^sup>*\<^sup>*"

subsection \<open>The shared bootstrap\<close>

type_synonym environment = "string \<Rightarrow> string option"

definition log_level :: "environment \<Rightarrow> string" where
  "log_level env = (case env ''LOG_LEVEL'' of None \<Rightarrow> ''info'' | Some l \<Rightarrow> l)"

record service_config =
  sc_name :: string
  sc_port :: "nat option"
  sc_cors :: "bool option"

record service_options =
  so_name :: string
  so_level :: string
  so_disableRequestLogging :: bool
  so_bodyLimit :: nat
  so_cors :: "string option"
  so_routes :: "string list"

definition createService :: "environment \<Rightarrow> service_config \<Rightarrow> service_options" where
  "createService env cfg =
     \<lparr>so_name = sc_name cfg, so_level = log_level env, so_disableRequestLogging = (env ''LOG_LEVEL'' \<noteq> Some ''debug''),
      so_bodyLimit = 8 * 1024 * 1024,
      so_cors = (if sc_cors cfg \<noteq> Some False
        then Some (case env ''SIYANA_CORS_ORIGIN'' of None \<Rightarrow> ''*'' | Some origin \<Rightarrow> origin) else None),
      so_routes = [''/healthz'', ''/readyz'']\<rparr>"

definition health_route :: "service_options \<Rightarrow> string \<Rightarrow> nat \<Rightarrow> json option" where
  "health_route so path now =
     (if path \<notin> set (so_routes so) then None
      else Some (JObj [(if path = ''/healthz'' then ''ok'' else ''ready'', JBool True), (''name'', JStr (so_name so)),
             (''ts'', JNum (int now))]))"

text \<open>
  The handler of SIGINT and SIGTERM: the hook of the service, whose failure is only logged, then the server is
  closed and the process ends with the returned code.
\<close>

definition on_signal :: "('s, unit) act option \<Rightarrow> ('s, unit) act \<Rightarrow> ('s, nat) act" where
  "on_signal extra close =
     bindA (case extra of None \<Rightarrow> ret () | Some m \<Rightarrow> tryA m (\<lambda>_. ret ())) (\<lambda>_. bindA close (\<lambda>_. ret 0))"

text \<open>A daemon that throws ends the process with code 1, one that returns leaves it alone; \<open>main().catch\<close> is the same.
  Exceptions outside of its run are only logged.\<close>

definition daemon :: "('s, unit) act \<Rightarrow> 's \<Rightarrow> nat option \<times> 's" where
  "daemon go s = (case go s of (Inl _, s') \<Rightarrow> (Some 1, s') | (Inr _, s') \<Rightarrow> (None, s'))"

definition prisma_log :: "environment \<Rightarrow> string list" where
  "prisma_log env = (if env ''LOG_LEVEL'' = Some ''debug'' then [''query'', ''warn'', ''error''] else [''warn'', ''error''])"

text \<open>The database client of the module, identified by its log settings.\<close>

definition getDb :: "environment \<Rightarrow> string list option \<Rightarrow> string list \<times> string list option" where
  "getDb env st = (case st of Some c \<Rightarrow> (c, st) | None \<Rightarrow> (prisma_log env, Some (prisma_log env)))"

subsection \<open>The agent runtime with and without a bus\<close>

definition runtime_boot ::
  "nats \<Rightarrow> environment \<Rightarrow> store_config \<Rightarrow> axonal_bus option \<Rightarrow> runtime \<times> axonal_bus option" where
  "runtime_boot T env cfg st = (case getBus T env st of (r, st') \<Rightarrow> (runtime_start cfg (r = Inr ()), st'))"

subsection \<open>Properties\<close>

inductive_cases bus_stepE: "bus_step env m m'"

definition failures :: "bus_module \<Rightarrow> (nat \<times> (string option + unit)) list" where
  "failures m = filter (\<lambda>(i, r). r \<noteq> Inr ()) (bm_answers m)"

definition bus_ok :: "bus_module \<Rightarrow> bool" where
  "bus_ok m \<longleftrightarrow> (case bm_stage m of
     Unused \<Rightarrow> bm_bus m = None \<and> failures m = []
   | Linking _ \<Rightarrow> (\<exists>b. bm_bus m = Some b \<and> \<not> ab_nc b \<and> \<not> ab_js b) \<and> failures m = []
   | Managing _ \<Rightarrow> (\<exists>b. bm_bus m = Some b \<and> ab_nc b \<and> ab_js b) \<and> failures m = []
   | Adding _ \<Rightarrow> (\<exists>b. bm_bus m = Some b \<and> ab_nc b \<and> ab_js b) \<and> failures m = []
   | Settled \<Rightarrow> (\<exists>b. bm_bus m = Some b \<and> ab_nc b = ab_js b \<and> (ab_js b \<or> failures m \<noteq> [])) \<and> length (failures m) \<le> 1)"

lemma failures_answer: "failures (answer i r m) = failures m @ (if r = Inr () then [] else [(i, r)])"
  and failures_upd [simp]: "failures (m\<lparr>bm_stage := st\<rparr>) = failures m" "failures (m\<lparr>bm_bus := b\<rparr>) = failures m"
  and answer_sel [simp]: "bm_bus (answer i r m) = bm_bus m" "bm_stage (answer i r m) = bm_stage m"
  by (simp_all add: failures_def answer_def)

lemma bus_ok_step: "bus_step env m m' \<Longrightarrow> bus_ok m \<Longrightarrow> bus_ok m'"
  by (induction rule: bus_step.induct)
    (auto simp: bus_ok_def settle_def failures_answer new_bus_def split: stage.splits)

lemma bus_ok_reach: "bus_reach env m m' \<Longrightarrow> bus_ok m \<Longrightarrow> bus_ok m'"
  by (induction rule: rtranclp_induct) (auto intro: bus_ok_step)

lemma bus_ok_start: "bus_ok bus_module_start"
  by (simp add: bus_ok_def bus_module_start_def failures_def)

text \<open>Once the first caller has its answer, the instance never changes and every call is answered at once.\<close>

lemma settled_step:
  "bus_step env m m' \<Longrightarrow> bm_stage m = Settled \<Longrightarrow> bm_bus m = Some b \<Longrightarrow> \<exists>i. m' = answer i (Inr ()) m"
  by (erule bus_stepE) auto

lemma settled_reach:
  "bus_reach env m m' \<Longrightarrow> bm_stage m = Settled \<Longrightarrow> bm_bus m = Some b \<Longrightarrow>
    bm_stage m' = Settled \<and> bm_bus m' = Some b \<and> (\<exists>later. bm_answers m' = bm_answers m @ map (\<lambda>i. (i, Inr ())) later)"
proof (induction rule: rtranclp_induct)
  case base
  then show ?case by (auto intro: exI [of _ "[]"])
next
  case (step m1 m2)
  then obtain later where m1: "bm_stage m1 = Settled" "bm_bus m1 = Some b" "bm_answers m1 = bm_answers m @ map (\<lambda>i. (i, Inr ())) later"
    by blast
  from settled_step [OF step.hyps(2) m1(1,2)] obtain i where "m2 = answer i (Inr ()) m1" ..
  with m1 show ?case by (auto simp: answer_def intro: exI [of _ "later @ [i]"])
qed

text \<open>C39: the module connects once.  Whatever calls overlap and whatever the server answers, at most one caller of
  \<open>getBus\<close> ever sees an error; and when the connection has failed, that caller was the only one to learn
  it: every later call succeeds with the same instance, on which each publication and subscription throws, and nothing
  ever connects it again.\<close>

theorem bus_connects_once:
  assumes "bus_reach env bus_module_start m" "bm_stage m = Settled" "bus_reach env m m'"
  shows "\<exists>b later. bm_bus m = Some b \<and> bm_bus m' = Some b \<and> bm_answers m' = bm_answers m @ map (\<lambda>i. (i, Inr ())) later \<and>
    length (failures m') \<le> 1 \<and>
    (if ab_js b then (\<forall>ev. bus_publish b ev = Inr (subject ev, ev))
     else failures m \<noteq> [] \<and> (\<forall>ev. isl (bus_publish b ev)) \<and> (\<forall>inbox subj d. isl (bus_subscribe inbox b subj d)) \<and>
       (\<forall>subj (p :: js_value). isl (bus_publishLight b subj p)))"
proof -
  have ok: "bus_ok m" by (rule bus_ok_reach [OF assms(1) bus_ok_start])
  then obtain b where b: "bm_bus m = Some b" "ab_nc b = ab_js b" "ab_js b \<or> failures m \<noteq> []"
    using assms(2) by (auto simp: bus_ok_def)
  obtain later where l: "bm_bus m' = Some b" "bm_stage m' = Settled" "bm_answers m' = bm_answers m @ map (\<lambda>i. (i, Inr ())) later"
    using settled_reach [OF assms(3,2) b(1)] by blast
  have "length (failures m') \<le> 1" using bus_ok_reach [OF assms(3) ok] l(2) by (simp add: bus_ok_def)
  with b l show ?thesis
    by (intro exI [of _ b] exI [of _ later]) (auto simp: bus_publish_def bus_subscribe_def bus_publishLight_def)
qed

theorem bus_connects_once_witness:
  "let m = settle 0 (Inl None) \<lparr>bm_bus = Some (new_bus (\<lambda>_. None)), bm_stage = Linking 0, bm_answers = []\<rparr>;
       m' = answer 1 (Inr ()) m
   in bm_bus m' = Some (new_bus (\<lambda>_. None)) \<and> bm_answers m' = [(0, Inl None), (1, Inr ())] \<and>
     isl (bus_publish (new_bus (\<lambda>_. None)) (EpochTransition 3 []))"
proof -
  let ?l = "\<lparr>bm_bus = Some (new_bus (\<lambda>_. None)), bm_stage = Linking 0, bm_answers = []\<rparr>"
  let ?m = "settle 0 (Inl None) ?l"
  have s: "bm_stage ?m = Settled" "bm_bus ?m = Some (new_bus (\<lambda>_. None))" by (simp_all add: settle_def)
  have "bus_step (\<lambda>_. None) bus_module_start ?l"
    using bus_step.first [of bus_module_start "\<lambda>_. None" 0] by (simp add: bus_module_start_def)
  moreover have "bus_step (\<lambda>_. None) ?l ?m" by (rule bus_step.unlinked) simp
  ultimately have "bus_reach (\<lambda>_. None) bus_module_start ?m" by auto
  moreover have "bus_reach (\<lambda>_. None) ?m (answer 1 (Inr ()) ?m)" using bus_step.again [OF s(2)] by auto
  ultimately obtain b where b: "bm_bus ?m = Some b"
      "if ab_js b then True else (\<forall>ev. isl (bus_publish b ev))"
    using bus_connects_once [OF _ s(1)] by (metis (no_types, lifting))
  then have "isl (bus_publish (new_bus (\<lambda>_. None)) (EpochTransition 3 []))" using s(2) by (simp add: new_bus_def)
  then show ?thesis using s by (simp add: Let_def) (simp add: settle_def answer_def)
qed

text \<open>Without overlapping calls, \<open>getBus\<close> of this machine is the function of the same name.\<close>

lemma getBus_run:
  assumes "bm_bus m = None" "bm_stage m = Unused"
  shows "case getBus T env None of (r, st) \<Rightarrow>
    bus_reach env m (m\<lparr>bm_bus := st, bm_answers := bm_answers m @ [(i, r)], bm_stage := Settled\<rparr>)"
proof -
  let ?b = "new_bus env" and ?c = "(new_bus env)\<lparr>ab_nc := True, ab_js := True\<rparr>"
  let ?m1 = "m\<lparr>bm_bus := Some ?b, bm_stage := Linking i\<rparr>"
  let ?m2 = "m\<lparr>bm_bus := Some ?c, bm_stage := Managing i\<rparr>"
  let ?m3 = "m\<lparr>bm_bus := Some ?c, bm_stage := Adding i\<rparr>"
  have 1: "bus_step env m ?m1" by (rule bus_step.first [OF assms(1)])
  show ?thesis
  proof (cases "nt_connect T (ab_url ?b)")
    case (Broken e)
    have "bus_step env ?m1 (settle i (Inl e) ?m1)" by (rule bus_step.unlinked) simp
    with 1 Broken show ?thesis
      by (auto simp: getBus_def bus_connect_def settle_def answer_def intro: rtranclp.rtrancl_into_rtrancl)
  next
    case Fine
    have 2: "bus_step env ?m1 ?m2" using bus_step.linked [of ?m1 i ?b env] by simp
    have "bus_reach env ?m2 (settle i (ensure_stream T) ?m2)"
    proof (cases "nt_manager T")
      case mf: Fine
      have "bus_step env ?m2 ?m3" using bus_step.managed [of ?m2 i env] by simp
      moreover have "bus_step env ?m3 (settle i (ensure_stream T) ?m2)"
        using bus_step.added [of ?m3 i env "nt_add T STREAM_CONFIG"] by (simp add: ensure_stream_def mf settle_def answer_def)
      ultimately show ?thesis by auto
    next
      case (Broken e)
      have "bus_step env ?m2 (settle i (ensured (Broken e)) ?m2)" by (rule bus_step.unmanaged) simp
      then show ?thesis by (simp add: ensure_stream_def Broken)
    qed
    with 1 2 have "bus_reach env m (settle i (ensure_stream T) ?m2)" by (meson converse_rtranclp_into_rtranclp)
    then show ?thesis by (simp add: getBus_def bus_connect_def Fine settle_def answer_def)
  qed
qed

lemma getBus_connected:
  "getBus T env None = (r, st) \<Longrightarrow> \<exists>b. st = Some b \<and> (r = Inr () \<longrightarrow> ab_js b) \<and> ab_nc b = ab_js b"
  by (cases "nt_connect T (ab_url (new_bus env))") (auto simp: getBus_def bus_connect_def, simp_all add: new_bus_def)

text \<open>The bus of the agent runtime never changes, and without one nothing is announced.\<close>

definition same_bus :: "runtime \<Rightarrow> runtime \<Rightarrow> bool" where
  "same_bus rt rt' \<longleftrightarrow> rt_bus rt' = rt_bus rt \<and> (\<not> rt_bus rt \<longrightarrow> rt_completed rt' = rt_completed rt)"

lemma same_bus_refl [simp]: "same_bus rt rt"
  by (simp add: same_bus_def)

lemma same_bus_memory [simp]: "same_bus rt (snd (case with_memory rt out of (r, x) \<Rightarrow> (f r, x)))"
  by (cases out) (simp add: with_memory_def same_bus_def)

lemma same_bus_run: "same_bus rt (snd (post_run env i b rt))"
proof (cases "map_of (rt_agents rt) i")
  case (Some e)
  show ?thesis
  proof (cases "RunTaskSchema b")
    case (Inr task)
    obtain r ag where "run (env\<lparr>env_toolHandler := unknown_tool\<rparr>) (new_agent (ae_config e) (rt_memory rt)) task = (r, ag)"
      by (cases "run (env\<lparr>env_toolHandler := unknown_tool\<rparr>) (new_agent (ae_config e) (rt_memory rt)) task")
    then show ?thesis by (cases r) (simp_all add: post_run_def Some Inr Let_def same_bus_def)
  qed (simp add: post_run_def Some)
qed (simp add: post_run_def)

lemma same_bus_requests [simp]:
  "same_bus rt (snd (post_agents icfg b rt))" "same_bus rt (snd (get_agent i rt))" "same_bus rt (snd (get_info icfg rt))"
  by (simp_all add: post_agents_def get_agent_def get_info_def Let_def same_bus_def split: option.split sum.split)

lemma runtime_bus_step: "same_bus rt (runtime_step icfg rt q)"
  by (cases "(icfg, rt, q)" rule: runtime_step.cases)
    (simp_all add: same_bus_run post_memory_store_def post_memory_recall_def get_memory_def split: sum.split)

lemma runtime_bus_after:
  "same_bus rt (runtime_after icfg rt qs)"
proof (induction qs arbitrary: rt)
  case (Cons q qs)
  then show ?case using runtime_bus_step [of rt icfg q] by (simp add: runtime_after_def same_bus_def)
qed (simp add: runtime_after_def)

text \<open>The agent runtime comes up whatever the NATS server answers; when it announces completed runs, its bus is
  connected and the publication cannot throw.\<close>

lemma runtime_boot_standalone:
  assumes "runtime_boot T env cfg None = (rt, st)"
  shows "rt_agents rt = [] \<and> (rt_completed (runtime_after icfg rt qs) \<noteq> [] \<longrightarrow> (\<exists>b. st = Some b \<and> (\<forall>ev. \<not> isl (bus_publish b ev))))"
proof -
  obtain r where g: "getBus T env None = (r, st)" "rt = runtime_start cfg (r = Inr ())"
    using assms by (auto simp: runtime_boot_def split: prod.splits)
  with runtime_bus_after [of rt icfg qs] getBus_connected [OF g(1)] show ?thesis
    by (auto simp: runtime_start_def bus_publish_def same_bus_def)
qed

text \<open>A failing hook does not keep the server from being closed, and a process that is told to end returns 0 unless
  closing throws.\<close>

lemma shutdown_closes:
  "on_signal extra close s = (case close (case extra of None \<Rightarrow> s | Some m \<Rightarrow> snd (m s)) of
     (Inl e, s') \<Rightarrow> (Inl e, s') | (Inr _, s') \<Rightarrow> (Inr 0, s'))"
  by (auto simp: on_signal_def bindA_def tryA_def ret_def split: option.splits sum.splits prod.splits)

end
