(* ===== verification/Evm.thy ===== *)
theory Evm
  imports Prelude
begin

text \<open>
  The Ethereum side of the system: transactions that may revert, Solidity's checked arithmetic on 256-bit
  words, and the storage of the contracts of \<^verbatim>\<open>contracts/src\<close>, one record per contract.  Events, which no contract
  can read, are left out with the arguments that occur in them only.

  The OpenZeppelin base contracts (\<^verbatim>\<open>Ownable\<close>, \<^verbatim>\<open>ERC721\<close>) are not part of the repository: they are the
  parameter \<open>oz\<close>, and \<open>oz_ok\<close> states what their documentation promises.  So is the hash \<open>keccak256\<close> of the
  virtual machine.  Receivers of a minted identity do not call back into the system.
\<close>

subsection \<open>Transactions\<close>

type_synonym address = "160 word"
type_synonym uint = "256 word"

type_synonym ('w, 'a) tx = "'w \<Rightarrow> string + 'a \<times> 'w"

definition retT :: "'a \<Rightarrow> ('w, 'a) tx" where
  "retT x w = Inr (x, w)"

definition revert :: "string \<Rightarrow> ('w, 'a) tx" where
  "revert e w = Inl e"

definition bindT :: "('w, 'a) tx \<Rightarrow> ('a \<Rightarrow> ('w, 'b) tx) \<Rightarrow> ('w, 'b) tx" where
  "bindT m f w = (case m w of Inl e \<Rightarrow> Inl e | Inr (x, w') \<Rightarrow> f x w')"

definition require :: "bool \<Rightarrow> string \<Rightarrow> ('w, unit) tx" where
  "require b e w = (if b then Inr ((), w) else Inl e)"

definition lift_result :: "'a result \<Rightarrow> ('w, 'a) tx" where
  "lift_result r w = (case r of Inl e \<Rightarrow> Inl e | Inr x \<Rightarrow> Inr (x, w))"

text \<open>How a transaction can succeed.\<close>

lemma tx_Inr [simp]:
  "retT x w = Inr p \<longleftrightarrow> p = (x, w)"
  "\<not> revert e w = Inr q"
  "require b e w = Inr u \<longleftrightarrow> b \<and> u = ((), w)"
  "lift_result r w = Inr l \<longleftrightarrow> (\<exists>y. r = Inr y \<and> l = (y, w))"
  "bindT m f w = Inr v \<longleftrightarrow> (\<exists>z w'. m w = Inr (z, w') \<and> f z w' = Inr v)"
  by (auto simp: retT_def revert_def require_def lift_result_def bindT_def split: sum.splits prod.splits)

text \<open>And how it is evaluated.\<close>

named_theorems tx_eval \<open>evaluation of transactions\<close>

lemma tx_run [tx_eval]:
  "require True e w = Inr ((), w)" "require False e w = Inl e"
  "m w = Inl e \<Longrightarrow> bindT m f w = Inl e" "m w = Inr (x, w') \<Longrightarrow> bindT m f w = f x w'"
  by (simp_all add: require_def bindT_def)

subsection \<open>Checked arithmetic\<close>

text \<open>Since version 0.8 an operation that leaves the range of \<open>uint256\<close> reverts.\<close>

definition panic :: string where
  "panic = ''Panic(0x11)''"

definition add_u :: "uint \<Rightarrow> uint \<Rightarrow> uint result" where
  "add_u a b = (if unat a + unat b < 2 ^ 256 then Inr (a + b) else Inl panic)"

definition sub_u :: "uint \<Rightarrow> uint \<Rightarrow> uint result" where
  "sub_u a b = (if b \<le> a then Inr (a - b) else Inl panic)"

definition mul_u :: "uint \<Rightarrow> uint \<Rightarrow> uint result" where
  "mul_u a b = (if unat a * unat b < 2 ^ 256 then Inr (a * b) else Inl panic)"

lemma add_u_iff: "add_u a b = Inr c \<longleftrightarrow> unat c = unat a + unat b"
proof
  assume "add_u a b = Inr c"
  then show "unat c = unat a + unat b" by (auto simp: add_u_def unat_word_ariths split: if_splits)
next
  assume c: "unat c = unat a + unat b"
  moreover have "unat c < 2 ^ 256" using unsigned_less [of c] by simp
  ultimately have l: "unat a + unat b < 2 ^ 256" by linarith
  then have "unat (a + b) = unat c" by (simp add: unat_word_ariths c)
  with l show "add_u a b = Inr c" by (simp add: add_u_def word_unat_eq_iff)
qed

lemma sub_u_iff: "sub_u a b = Inr c \<longleftrightarrow> unat a = unat b + unat c"
proof
  assume "sub_u a b = Inr c"
  then have "b \<le> a" "c = a - b" by (auto simp: sub_u_def split: if_splits)
  then show "unat a = unat b + unat c" by (simp add: unat_sub word_le_nat_alt)
next
  assume a: "unat a = unat b + unat c"
  then have "b \<le> a" by (simp add: word_le_nat_alt)
  moreover from this a have "c = a - b" by (simp add: word_unat_eq_iff unat_sub)
  ultimately show "sub_u a b = Inr c" by (simp add: sub_u_def)
qed

lemma mul_u_iff: "mul_u a b = Inr c \<longleftrightarrow> unat c = unat a * unat b"
proof
  assume "mul_u a b = Inr c"
  then show "unat c = unat a * unat b" by (auto simp: mul_u_def unat_word_ariths split: if_splits)
next
  assume c: "unat c = unat a * unat b"
  moreover have "unat c < 2 ^ 256" using unsigned_less [of c] by simp
  ultimately have l: "unat a * unat b < 2 ^ 256" by linarith
  then have "unat (a * b) = unat c" by (simp add: unat_word_ariths c)
  with l show "mul_u a b = Inr c" by (simp add: mul_u_def word_unat_eq_iff)
qed

subsection \<open>Base contracts\<close>

text \<open>
  \<open>oz_onlyOwner\<close> is the modifier, given the owner and the sender; the ERC-721 functions work on the map from
  token ids to owners; \<open>oz_accepts\<close> tells the receivers that take a safely minted token.
\<close>

type_synonym nft = "uint \<Rightarrow> address option"

record oz =
  oz_onlyOwner :: "address \<Rightarrow> address \<Rightarrow> bool"
  oz_ownership :: "address \<Rightarrow> address \<Rightarrow> address option \<Rightarrow> address result"
  oz_ownerOf :: "nft \<Rightarrow> uint \<Rightarrow> address result"
  oz_safeMint :: "nft \<Rightarrow> address \<Rightarrow> uint \<Rightarrow> nft result"
  oz_transferFrom :: "nft \<Rightarrow> address \<Rightarrow> address \<Rightarrow> address \<Rightarrow> uint \<Rightarrow> nft result"
  oz_accepts :: "address \<Rightarrow> bool"
  oz_keccak :: "bytes \<Rightarrow> bytes"

definition oz_ok :: "oz \<Rightarrow> bool" where
  "oz_ok lib \<longleftrightarrow>
     (\<forall>o' s. oz_onlyOwner lib o' s \<longleftrightarrow> s = o') \<and>
     (\<forall>own i a. oz_ownerOf lib own i = Inr a \<longleftrightarrow> own i = Some a) \<and>
     (\<forall>own to i own'. oz_safeMint lib own to i = Inr own' \<longleftrightarrow>
        own i = None \<and> to \<noteq> 0 \<and> oz_accepts lib to \<and> own' = own(i \<mapsto> to)) \<and>
     (\<forall>x. length (oz_keccak lib x) = 32)"

lemma oz_ok_facts:
  assumes "oz_ok lib"
  shows onlyOwner_iff: "oz_onlyOwner lib o' s \<longleftrightarrow> s = o'"
    and ownerOf_iff: "oz_ownerOf lib own i = Inr a \<longleftrightarrow> own i = Some a"
    and safeMint_iff: "oz_safeMint lib own to i = Inr own' \<longleftrightarrow>
      own i = None \<and> to \<noteq> 0 \<and> oz_accepts lib to \<and> own' = own(i \<mapsto> to)"
    and length_keccak: "length (oz_keccak lib x) = 32"
  using assms by (simp_all add: oz_ok_def)

definition demo_oz :: oz where
  "demo_oz = \<lparr>
     oz_onlyOwner = (\<lambda>o' s. s = o'),
     oz_ownership = (\<lambda>o' s n. if s = o' then Inr (case n of None \<Rightarrow> 0 | Some a \<Rightarrow> a) else Inl ''OwnableUnauthorizedAccount''),
     oz_ownerOf = (\<lambda>own i. case own i of None \<Rightarrow> Inl ''ERC721NonexistentToken'' | Some a \<Rightarrow> Inr a),
     oz_safeMint = (\<lambda>own to i. if own i = None \<and> to \<noteq> 0 then Inr (own(i \<mapsto> to)) else Inl ''ERC721InvalidReceiver''),
     oz_transferFrom = (\<lambda>own s from' to i. if own i = Some from' \<and> s = from' \<and> to \<noteq> 0 then Inr (own(i \<mapsto> to))
        else Inl ''ERC721IncorrectOwner''),
     oz_accepts = (\<lambda>a. True), oz_keccak = (\<lambda>x. take 32 (x @ replicate 32 0))\<rparr>"

lemma oz_ok_demo [simp]: "oz_ok demo_oz"
  by (auto simp: oz_ok_def demo_oz_def split: option.splits)

end
