(* ===== verification/ContractState.thy ===== *)
theory ContractState
  imports Evm
begin

text \<open>
  The storage of every contract of \<^verbatim>\<open>contracts/src\<close> and the machine state that holds them.  Mappings are total
  functions whose untouched keys hold the zero value, as in Solidity.  Contracts find each other by address,
  so all of them share one type of machine state; an address without code is \<^const>\<open>None\<close>.
\<close>

subsection \<open>Identities and bandwidth\<close>

record chain_stack =
  ck_pubkey :: bytes
  ck_latestRoot :: bytes
  ck_epoch :: uint
  ck_cpv :: "uint list"
  ck_decayRate :: uint
  ck_floor :: uint
  ck_createdAt :: uint

record stack_identity =
  si_owner :: address
  si_owners :: nft
  si_nextTokenId :: uint
  si_stacks :: "uint \<Rightarrow> chain_stack"
  si_routers :: "address \<Rightarrow> bool"

record bandwidth_token =
  bt_owner :: address
  bt_name :: string
  bt_symbol :: string
  bt_totalSupply :: uint
  bt_balance :: "uint \<Rightarrow> uint"
  bt_authorized :: "uint \<Rightarrow> address \<Rightarrow> bool"
  bt_minter :: address
  bt_identity :: address

record quellist_treasury =
  qt_owner :: address
  qt_compute :: address
  qt_memory :: address
  qt_sync :: address
  qt_routing :: address
  qt_residue :: address
  qt_lastClaim :: "uint \<Rightarrow> uint"
  qt_emission :: uint

subsection \<open>Registries\<close>

datatype chain_embodiment = HumanBody | AiBody | MiningBody | MemoryBody

record chain_sleeve =
  cs_tokenId :: uint
  cs_kind :: chain_embodiment
  cs_alive :: bool
  cs_createdAt :: uint
  cs_hostId :: bytes

record sleeve_registry =
  sg_owner :: address
  sg_sleeves :: "bytes \<Rightarrow> chain_sleeve"
  sg_ofStack :: "uint \<Rightarrow> bytes list"
  sg_identity :: address

record needlecast_router =
  nr_owner :: address
  nr_identity :: address
  nr_anchors :: "(bytes \<times> uint \<times> uint \<times> address) list"
  nr_lastAnchorOf :: "uint \<Rightarrow> uint"

datatype residue_kind = StaleOrdering | SpeculativeDivergence | HistoricalNonCanonical | ReorgOrphan | ShardLoss

datatype residue_status = Open | Claimed | Resolved

record chain_residue =
  cr_kind :: residue_kind
  cr_stackId :: uint
  cr_bountyEst :: uint
  cr_status :: residue_status
  cr_resolver :: uint
  cr_payout :: uint
  cr_proofHash :: bytes
  cr_detectedAt :: uint
  cr_resolvedAt :: uint

record residue_registry =
  rg_owner :: address
  rg_residue :: "bytes \<Rightarrow> chain_residue"
  rg_ids :: "bytes list"
  rg_token :: address
  rg_identity :: address
  rg_model :: string

record chain_anchor =
  ca_crossRoot :: bytes
  ca_evmRoot :: bytes
  ca_ipfsRoot :: bytes
  ca_sleevesRoot :: bytes
  ca_synapticFieldRoot :: bytes
  ca_medullaHeight :: uint
  ca_ts :: uint

record epoch_anchor =
  ea_owner :: address
  ea_byEpoch :: "uint \<Rightarrow> chain_anchor"
  ea_head :: uint
  ea_lastHeight :: uint
  ea_bridgers :: "address \<Rightarrow> bool"

subsection \<open>Swap, oracle and game\<close>

record residue_swap =
  sw_owner :: address
  sw_residueToken :: address
  sw_routingToken :: address
  sw_baseRate :: uint
  sw_decayRate :: uint
  sw_floorRate :: uint
  sw_agentCap :: uint
  sw_globalCap :: uint
  sw_consumedAgent :: "uint \<Rightarrow> uint \<Rightarrow> uint"
  sw_consumedGlobal :: "uint \<Rightarrow> uint"
  sw_oracle :: address
  sw_paused :: bool

record route_oracle =
  ro_owner :: address
  ro_swap :: address
  ro_guardians :: "address list"
  ro_threshold :: uint
  ro_approvals :: "bytes \<Rightarrow> address \<Rightarrow> bool"
  ro_approvalCount :: "bytes \<Rightarrow> uint"
  ro_executed :: "bytes \<Rightarrow> bool"
  ro_agentPaused :: "uint \<Rightarrow> bool"
  ro_residueCount :: "uint \<Rightarrow> uint"
  ro_lastResidueEpoch :: "uint \<Rightarrow> uint"
  ro_lastSwapEpoch :: "uint \<Rightarrow> uint"
  ro_residueRate :: uint
  ro_swapBurst :: uint
  ro_window :: uint

record party =
  pa_tokenId :: uint
  pa_label :: bytes
  pa_budget :: "uint list"
  pa_registered :: bool

record tripartite_game =
  tg_owner :: address
  tg_compute :: address
  tg_memory :: address
  tg_routing :: address
  tg_identity :: address
  tg_parties :: "bytes \<Rightarrow> uint \<Rightarrow> party"
  tg_roster :: "bytes \<Rightarrow> uint list"
  tg_consumed :: "bytes \<Rightarrow> uint \<Rightarrow> uint \<Rightarrow> nat \<Rightarrow> uint"
  tg_games :: "bytes \<Rightarrow> bool"

subsection \<open>The machine state\<close>

datatype contract =
    Identity stack_identity
  | Token bandwidth_token
  | TreasuryOf quellist_treasury
  | Sleeves sleeve_registry
  | Router needlecast_router
  | Residues residue_registry
  | Anchors epoch_anchor
  | SwapOf residue_swap
  | OracleOf route_oracle
  | Game tripartite_game

type_synonym evm = "address \<Rightarrow> contract option"

fun as_identity :: "contract \<Rightarrow> stack_identity option" where
  "as_identity (Identity x) = Some x"
| "as_identity _ = None"

fun as_token :: "contract \<Rightarrow> bandwidth_token option" where
  "as_token (Token x) = Some x"
| "as_token _ = None"

fun as_treasury :: "contract \<Rightarrow> quellist_treasury option" where
  "as_treasury (TreasuryOf x) = Some x"
| "as_treasury _ = None"

fun as_sleeves :: "contract \<Rightarrow> sleeve_registry option" where
  "as_sleeves (Sleeves x) = Some x"
| "as_sleeves _ = None"

fun as_router :: "contract \<Rightarrow> needlecast_router option" where
  "as_router (Router x) = Some x"
| "as_router _ = None"

fun as_residues :: "contract \<Rightarrow> residue_registry option" where
  "as_residues (Residues x) = Some x"
| "as_residues _ = None"

fun as_anchors :: "contract \<Rightarrow> epoch_anchor option" where
  "as_anchors (Anchors x) = Some x"
| "as_anchors _ = None"

fun as_swap :: "contract \<Rightarrow> residue_swap option" where
  "as_swap (SwapOf x) = Some x"
| "as_swap _ = None"

fun as_oracle :: "contract \<Rightarrow> route_oracle option" where
  "as_oracle (OracleOf x) = Some x"
| "as_oracle _ = None"

fun as_game :: "contract \<Rightarrow> tripartite_game option" where
  "as_game (Game x) = Some x"
| "as_game _ = None"

lemma as_Some [simp]:
  "as_identity c = Some i \<longleftrightarrow> c = Identity i" "as_token c = Some t \<longleftrightarrow> c = Token t"
  "as_treasury c = Some q \<longleftrightarrow> c = TreasuryOf q" "as_sleeves c = Some s \<longleftrightarrow> c = Sleeves s"
  "as_router c = Some r \<longleftrightarrow> c = Router r" "as_residues c = Some g \<longleftrightarrow> c = Residues g"
  "as_anchors c = Some a \<longleftrightarrow> c = Anchors a" "as_swap c = Some w \<longleftrightarrow> c = SwapOf w"
  "as_oracle c = Some l \<longleftrightarrow> c = OracleOf l" "as_game c = Some m \<longleftrightarrow> c = Game m"
  by (cases c; auto)+

text \<open>
  Calling a function of a contract: the address must hold a contract that has the function, otherwise the
  call reverts.  \<open>save\<close> writes its storage.
\<close>

definition load :: "(contract \<Rightarrow> 'a option) \<Rightarrow> address \<Rightarrow> (evm, 'a) tx" where
  "load sel a w = (case w a of None \<Rightarrow> Inl ''call to an address without code'' | Some c \<Rightarrow>
     (case sel c of None \<Rightarrow> Inl ''function selector was not recognized'' | Some x \<Rightarrow> Inr (x, w)))"

definition save :: "address \<Rightarrow> contract \<Rightarrow> (evm, unit) tx" where
  "save a c w = Inr ((), w(a \<mapsto> c))"

lemma load_Inr [simp]: "load sel a w = Inr p \<longleftrightarrow> (\<exists>c x. w a = Some c \<and> sel c = Some x \<and> p = (x, w))"
  by (auto simp: load_def split: option.splits)

lemma save_Inr [simp]: "save a c w = Inr p \<longleftrightarrow> p = ((), w(a \<mapsto> c))"
  by (auto simp: save_def)

lemma load_run [tx_eval]: "w a = Some c \<Longrightarrow> sel c = Some x \<Longrightarrow> load sel a w = Inr (x, w)"
  by simp

lemma save_run [tx_eval]: "save a c w = Inr ((), w(a \<mapsto> c))"
  by simp

end
