(* ===== verification/TokenContracts.thy ===== *)
theory TokenContracts
  imports ContractState
begin

text \<open>
  \<^verbatim>\<open>contracts/src/StackIdentity.sol\<close>, \<^verbatim>\<open>BandwidthToken.sol\<close> and \<^verbatim>\<open>QuellistTreasury.sol\<close>.  Every function takes the
  address \<open>this\<close> of the contract and the sender; \<open>now\<close> is the time stamp of the block.
\<close>

subsection \<open>Stack identities\<close>

definition new_identity :: "address \<Rightarrow> stack_identity" where
  "new_identity sender = \<lparr>si_owner = sender, si_owners = (\<lambda>_. None), si_nextTokenId = 1,
     si_stacks = (\<lambda>_. \<lparr>ck_pubkey = [], ck_latestRoot = replicate 32 0, ck_epoch = 0, ck_cpv = replicate 5 0,
       ck_decayRate = 0, ck_floor = 0, ck_createdAt = 0\<rparr>), si_routers = (\<lambda>_. False)\<rparr>"

definition only_owner :: "oz \<Rightarrow> address \<Rightarrow> address \<Rightarrow> (evm, unit) tx" where
  "only_owner lib owner sender = require (oz_onlyOwner lib owner sender) ''OwnableUnauthorizedAccount''"

definition set_router :: "oz \<Rightarrow> address \<Rightarrow> address \<Rightarrow> address \<Rightarrow> bool \<Rightarrow> (evm, unit) tx" where
  "set_router lib this sender router ok =
     bindT (load as_identity this) (\<lambda>k.
     bindT (only_owner lib (si_owner k) sender) (\<lambda>_.
     save this (Identity (k\<lparr>si_routers := (si_routers k)(router := ok)\<rparr>))))"

definition mint_stack ::
  "oz \<Rightarrow> address \<Rightarrow> address \<Rightarrow> uint \<Rightarrow> bytes \<Rightarrow> uint list \<Rightarrow> uint \<Rightarrow> uint \<Rightarrow> (evm, uint) tx" where
  "mint_stack lib this sender now pubkey cpv decay flr =
     bindT (load as_identity this) (\<lambda>k.
     bindT (require (length cpv = 5) ''abi'') (\<lambda>_.
     bindT (require (decay \<le> 1000000 \<and> flr \<le> 1000000) ''binding out of range'') (\<lambda>_.
     bindT (require (list_all (\<lambda>c. c \<le> 2000000) cpv) ''cpv coeff > 2.0'') (\<lambda>_.
     bindT (lift_result (add_u (si_nextTokenId k) 1)) (\<lambda>next_id.
     let i = si_nextTokenId k in
     bindT (lift_result (oz_safeMint lib (si_owners k) sender i)) (\<lambda>owners.
     bindT (save this (Identity (k\<lparr>si_nextTokenId := next_id, si_owners := owners,
       si_stacks := (si_stacks k)(i := \<lparr>ck_pubkey = pubkey, ck_latestRoot = replicate 32 0, ck_epoch = 0, ck_cpv = cpv,
         ck_decayRate = decay, ck_floor = flr, ck_createdAt = now\<rparr>)\<rparr>))) (\<lambda>_.
     retT i)))))))"

definition record_needlecast ::
  "address \<Rightarrow> address \<Rightarrow> uint \<Rightarrow> bytes \<Rightarrow> uint \<Rightarrow> (evm, unit) tx" where
  "record_needlecast this sender tokenId root epoch =
     bindT (load as_identity this) (\<lambda>k.
     bindT (require (si_routers k sender) ''not router'') (\<lambda>_.
     let s = si_stacks k tokenId in
     bindT (require (ck_createdAt s \<noteq> 0) ''no stack'') (\<lambda>_.
     bindT (require (ck_epoch s \<le> epoch) ''epoch regression'') (\<lambda>_.
     save this (Identity (k\<lparr>si_stacks := (si_stacks k)(tokenId := s\<lparr>ck_latestRoot := root, ck_epoch := epoch\<rparr>)\<rparr>))))))"

text \<open>\<open>ownerOf\<close>, called by the other contracts.\<close>

definition owner_of :: "oz \<Rightarrow> address \<Rightarrow> uint \<Rightarrow> (evm, address) tx" where
  "owner_of lib identity tokenId =
     bindT (load as_identity identity) (\<lambda>k. lift_result (oz_ownerOf lib (si_owners k) tokenId))"

subsection \<open>Bandwidth tokens\<close>

definition new_token :: "address \<Rightarrow> string \<Rightarrow> string \<Rightarrow> address \<Rightarrow> bandwidth_token" where
  "new_token sender name symbol identity = \<lparr>bt_owner = sender, bt_name = name, bt_symbol = symbol, bt_totalSupply = 0,
     bt_balance = (\<lambda>_. 0), bt_authorized = (\<lambda>_ _. False), bt_minter = sender, bt_identity = identity\<rparr>"

text \<open>The five tokens: their names and symbols.\<close>

definition token_names :: "(string \<times> string \<times> string) list" where
  "token_names = [(''ComputeToken'', ''ECCA ComputeToken'', ''CMP''), (''MemoryToken'', ''ECCA MemoryToken'', ''MEM''),
     (''SyncToken'', ''ECCA SyncToken'', ''SYN''), (''RoutingToken'', ''ECCA RoutingToken'', ''RTE''),
     (''ResidueToken'', ''ECCA ResidueToken'', ''RES'')]"

text \<open>The static call does not revert with its callee: any failure means that \<open>who\<close> is not the owner.\<close>

definition is_stack_owner :: "oz \<Rightarrow> evm \<Rightarrow> bandwidth_token \<Rightarrow> uint \<Rightarrow> address \<Rightarrow> bool" where
  "is_stack_owner lib w k tokenId who =
     (case owner_of lib (bt_identity k) tokenId w of Inr (a, _) \<Rightarrow> a = who | Inl _ \<Rightarrow> False)"

definition only_stack_owner :: "oz \<Rightarrow> bandwidth_token \<Rightarrow> uint \<Rightarrow> address \<Rightarrow> (evm, unit) tx" where
  "only_stack_owner lib k tokenId sender w = require (is_stack_owner lib w k tokenId sender) ''not stack owner'' w"

definition set_minter :: "oz \<Rightarrow> address \<Rightarrow> address \<Rightarrow> address \<Rightarrow> (evm, unit) tx" where
  "set_minter lib this sender m =
     bindT (load as_token this) (\<lambda>k.
     bindT (only_owner lib (bt_owner k) sender) (\<lambda>_.
     save this (Token (k\<lparr>bt_minter := m\<rparr>))))"

definition authorize_sleeve :: "oz \<Rightarrow> address \<Rightarrow> address \<Rightarrow> uint \<Rightarrow> address \<Rightarrow> bool \<Rightarrow> (evm, unit) tx" where
  "authorize_sleeve lib this sender tokenId slv ok =
     bindT (load as_token this) (\<lambda>k.
     bindT (only_stack_owner lib k tokenId sender) (\<lambda>_.
     save this (Token (k\<lparr>bt_authorized := (bt_authorized k)(tokenId := (bt_authorized k tokenId)(slv := ok))\<rparr>))))"

definition mint :: "address \<Rightarrow> address \<Rightarrow> uint \<Rightarrow> uint \<Rightarrow> (evm, unit) tx" where
  "mint this sender tokenId amount =
     bindT (load as_token this) (\<lambda>k.
     bindT (require (sender = bt_minter k) ''not minter'') (\<lambda>_.
     bindT (lift_result (add_u (bt_balance k tokenId) amount)) (\<lambda>b.
     bindT (lift_result (add_u (bt_totalSupply k) amount)) (\<lambda>total.
     save this (Token (k\<lparr>bt_balance := (bt_balance k)(tokenId := b), bt_totalSupply := total\<rparr>))))))"

definition spend :: "oz \<Rightarrow> address \<Rightarrow> address \<Rightarrow> uint \<Rightarrow> uint \<Rightarrow> (evm, unit) tx" where
  "spend lib this sender tokenId amount =
     bindT (load as_token this) (\<lambda>k.
     bindT (\<lambda>w. require (bt_authorized k tokenId sender \<or> is_stack_owner lib w k tokenId sender) ''not authorized to spend'' w) (\<lambda>_.
     bindT (require (amount \<le> bt_balance k tokenId) ''insufficient bandwidth'') (\<lambda>_.
     bindT (lift_result (sub_u (bt_balance k tokenId) amount)) (\<lambda>b.
     bindT (lift_result (sub_u (bt_totalSupply k) amount)) (\<lambda>total.
     save this (Token (k\<lparr>bt_balance := (bt_balance k)(tokenId := b), bt_totalSupply := total\<rparr>)))))))"

text \<open>The second assignment reads the balance after the first, which matters when both stacks are the same.\<close>

definition transfer_stack :: "oz \<Rightarrow> address \<Rightarrow> address \<Rightarrow> uint \<Rightarrow> uint \<Rightarrow> uint \<Rightarrow> (evm, unit) tx" where
  "transfer_stack lib this sender src dst amount =
     bindT (load as_token this) (\<lambda>k.
     bindT (only_stack_owner lib k src sender) (\<lambda>_.
     bindT (require (amount \<le> bt_balance k src) ''insufficient'') (\<lambda>_.
     bindT (lift_result (sub_u (bt_balance k src) amount)) (\<lambda>b.
     let bal = (bt_balance k)(src := b) in
     bindT (lift_result (add_u (bal dst) amount)) (\<lambda>b'.
     save this (Token (k\<lparr>bt_balance := bal(dst := b')\<rparr>)))))))"

subsection \<open>The treasury contract\<close>

definition ether :: uint where
  "ether = 1000000000000000000"

definition new_treasury :: "address \<Rightarrow> address \<Rightarrow> address \<Rightarrow> address \<Rightarrow> address \<Rightarrow> address \<Rightarrow> quellist_treasury" where
  "new_treasury sender c m s r res = \<lparr>qt_owner = sender, qt_compute = c, qt_memory = m, qt_sync = s, qt_routing = r,
     qt_residue = res, qt_lastClaim = (\<lambda>_. 0), qt_emission = 100 * ether\<rparr>"

definition set_emission :: "oz \<Rightarrow> address \<Rightarrow> address \<Rightarrow> uint \<Rightarrow> (evm, unit) tx" where
  "set_emission lib this sender e =
     bindT (load as_treasury this) (\<lambda>k.
     bindT (only_owner lib (qt_owner k) sender) (\<lambda>_.
     save this (TreasuryOf (k\<lparr>qt_emission := e\<rparr>))))"

definition token_of :: "quellist_treasury \<Rightarrow> 8 word \<Rightarrow> address result" where
  "token_of k kind =
     (if kind = 0 then Inr (qt_compute k)
      else if kind = 1 then Inr (qt_memory k)
      else if kind = 2 then Inr (qt_sync k)
      else if kind = 3 then Inr (qt_routing k)
      else if kind = 4 then Inr (qt_residue k)
      else Inl ''bad kind'')"

definition issue :: "oz \<Rightarrow> address \<Rightarrow> address \<Rightarrow> uint \<Rightarrow> 8 word \<Rightarrow> uint \<Rightarrow> (evm, unit) tx" where
  "issue lib this sender tokenId kind amount =
     bindT (load as_treasury this) (\<lambda>k.
     bindT (only_owner lib (qt_owner k) sender) (\<lambda>_.
     bindT (lift_result (token_of k kind)) (\<lambda>t.
     mint t this tokenId amount)))"

definition claim_epoch_rewards :: "oz \<Rightarrow> address \<Rightarrow> address \<Rightarrow> uint \<Rightarrow> uint \<Rightarrow> (evm, unit) tx" where
  "claim_epoch_rewards lib this sender tokenId currentEpoch =
     bindT (load as_treasury this) (\<lambda>k.
     bindT (only_owner lib (qt_owner k) sender) (\<lambda>_.
     let lst = qt_lastClaim k tokenId in
     bindT (require (lst < currentEpoch) ''no new epochs'') (\<lambda>_.
     bindT (lift_result (sub_u currentEpoch lst)) (\<lambda>elapsed.
     bindT (lift_result (mul_u (qt_emission k) elapsed)) (\<lambda>amount.
     bindT (mint (qt_compute k) this tokenId amount) (\<lambda>_.
     bindT (mint (qt_memory k) this tokenId amount) (\<lambda>_.
     bindT (mint (qt_sync k) this tokenId amount) (\<lambda>_.
     bindT (mint (qt_routing k) this tokenId amount) (\<lambda>_.
     bindT (load as_treasury this) (\<lambda>k.
     save this (TreasuryOf (k\<lparr>qt_lastClaim := (qt_lastClaim k)(tokenId := currentEpoch)\<rparr>))))))))))))"

end
