(* ===== verification/RegistryContracts.thy ===== *)
theory RegistryContracts
  imports TokenContracts
begin

text \<open>
  \<^verbatim>\<open>contracts/src/SleeveRegistry.sol\<close>, \<^verbatim>\<open>NeedlecastRouter.sol\<close>, \<^verbatim>\<open>ResidueRegistry.sol\<close> and \<^verbatim>\<open>EpochAnchor.sol\<close>.
\<close>

subsection \<open>Sleeve registry\<close>

text \<open>A cast of a number outside the enumeration reverts.\<close>

definition bad_enum :: string where
  "bad_enum = ''Panic(0x21)''"

definition embodiment_of :: "8 word \<Rightarrow> chain_embodiment result" where
  "embodiment_of k = (if k = 0 then Inr HumanBody else if k = 1 then Inr AiBody else if k = 2 then Inr MiningBody
     else if k = 3 then Inr MemoryBody else Inl bad_enum)"

definition new_sleeve_registry :: "address \<Rightarrow> address \<Rightarrow> sleeve_registry" where
  "new_sleeve_registry sender sid = \<lparr>sg_owner = sender,
     sg_sleeves = (\<lambda>_. \<lparr>cs_tokenId = 0, cs_kind = HumanBody, cs_alive = False, cs_createdAt = 0, cs_hostId = replicate 32 0\<rparr>),
     sg_ofStack = (\<lambda>_. []), sg_identity = sid\<rparr>"

definition register :: "oz \<Rightarrow> address \<Rightarrow> address \<Rightarrow> uint \<Rightarrow> bytes \<Rightarrow> uint \<Rightarrow> 8 word \<Rightarrow> bytes \<Rightarrow> (evm, unit) tx" where
  "register lib this sender now sleeveId tokenId kind hostId =
     bindT (load as_sleeves this) (\<lambda>k.
     bindT (owner_of lib (sg_identity k) tokenId) (\<lambda>a.
     bindT (require (a = sender) ''not stack owner'') (\<lambda>_.
     bindT (require (cs_createdAt (sg_sleeves k sleeveId) = 0) ''already registered'') (\<lambda>_.
     bindT (lift_result (embodiment_of kind)) (\<lambda>e.
     save this (Sleeves (k\<lparr>sg_sleeves := (sg_sleeves k)(sleeveId := \<lparr>cs_tokenId = tokenId, cs_kind = e, cs_alive = True,
         cs_createdAt = now, cs_hostId = hostId\<rparr>),
       sg_ofStack := (sg_ofStack k)(tokenId := sg_ofStack k tokenId @ [sleeveId])\<rparr>)))))))"

definition decommission_sleeve :: "oz \<Rightarrow> address \<Rightarrow> address \<Rightarrow> bytes \<Rightarrow> (evm, unit) tx" where
  "decommission_sleeve lib this sender sleeveId =
     bindT (load as_sleeves this) (\<lambda>k.
     let s = sg_sleeves k sleeveId in
     bindT (require (cs_alive s) ''not alive'') (\<lambda>_.
     bindT (owner_of lib (sg_identity k) (cs_tokenId s)) (\<lambda>a.
     bindT (require (a = sender) ''not stack owner'') (\<lambda>_.
     save this (Sleeves (k\<lparr>sg_sleeves := (sg_sleeves k)(sleeveId := s\<lparr>cs_alive := False\<rparr>)\<rparr>))))))"

definition list_of :: "sleeve_registry \<Rightarrow> uint \<Rightarrow> bytes list" where
  "list_of k tokenId = sg_ofStack k tokenId"

subsection \<open>Needlecast router\<close>

definition new_router :: "address \<Rightarrow> address \<Rightarrow> needlecast_router" where
  "new_router sender sid = \<lparr>nr_owner = sender, nr_identity = sid, nr_anchors = [], nr_lastAnchorOf = (\<lambda>_. 0)\<rparr>"

definition anchor_epoch :: "address \<Rightarrow> address \<Rightarrow> uint \<Rightarrow> bytes \<Rightarrow> uint \<Rightarrow> (evm, unit) tx" where
  "anchor_epoch this sender now crossRoot epoch =
     bindT (load as_router this) (\<lambda>k.
     save this (Router (k\<lparr>nr_anchors := nr_anchors k @ [(crossRoot, epoch, now, sender)]\<rparr>)))"

definition route :: "oz \<Rightarrow> address \<Rightarrow> address \<Rightarrow> uint \<Rightarrow> bytes \<Rightarrow> uint \<Rightarrow> (evm, unit) tx" where
  "route lib this sender tokenId root epoch =
     bindT (load as_router this) (\<lambda>k.
     bindT (owner_of lib (nr_identity k) tokenId) (\<lambda>a.
     bindT (require (a = sender) ''not stack owner'') (\<lambda>_.
     bindT (record_needlecast (nr_identity k) this tokenId root epoch) (\<lambda>_.
     bindT (load as_router this) (\<lambda>k.
     save this (Router (k\<lparr>nr_lastAnchorOf := (nr_lastAnchorOf k)(tokenId := word_of_nat (length (nr_anchors k)))\<rparr>)))))))"

definition anchor_count :: "needlecast_router \<Rightarrow> uint" where
  "anchor_count k = word_of_nat (length (nr_anchors k))"

subsection \<open>Residue registry\<close>

definition residue_kind_of :: "8 word \<Rightarrow> residue_kind result" where
  "residue_kind_of k = (if k = 0 then Inr StaleOrdering else if k = 1 then Inr SpeculativeDivergence
     else if k = 2 then Inr HistoricalNonCanonical else if k = 3 then Inr ReorgOrphan
     else if k = 4 then Inr ShardLoss else Inl bad_enum)"

definition MAX_BOUNTY :: uint where
  "MAX_BOUNTY = 1000000 * ether"

definition new_residue_registry :: "address \<Rightarrow> address \<Rightarrow> address \<Rightarrow> residue_registry" where
  "new_residue_registry sender rt sid = \<lparr>rg_owner = sender,
     rg_residue = (\<lambda>_. \<lparr>cr_kind = StaleOrdering, cr_stackId = 0, cr_bountyEst = 0, cr_status = Open, cr_resolver = 0,
       cr_payout = 0, cr_proofHash = replicate 32 0, cr_detectedAt = 0, cr_resolvedAt = 0\<rparr>),
     rg_ids = [], rg_token = rt, rg_identity = sid, rg_model = ''first-valid-proof''\<rparr>"

definition set_payout_model :: "oz \<Rightarrow> address \<Rightarrow> address \<Rightarrow> string \<Rightarrow> (evm, unit) tx" where
  "set_payout_model lib this sender m =
     bindT (load as_residues this) (\<lambda>k.
     bindT (only_owner lib (rg_owner k) sender) (\<lambda>_.
     save this (Residues (k\<lparr>rg_model := m\<rparr>))))"

definition detect :: "address \<Rightarrow> uint \<Rightarrow> bytes \<Rightarrow> 8 word \<Rightarrow> uint \<Rightarrow> uint \<Rightarrow> (evm, unit) tx" where
  "detect this now residueId kind stackId bountyEst =
     bindT (load as_residues this) (\<lambda>k.
     bindT (require (cr_detectedAt (rg_residue k residueId) = 0) ''already detected'') (\<lambda>_.
     bindT (require (bountyEst \<le> MAX_BOUNTY) ''bounty too large'') (\<lambda>_.
     bindT (lift_result (residue_kind_of kind)) (\<lambda>rk.
     save this (Residues (k\<lparr>rg_residue := (rg_residue k)(residueId := \<lparr>cr_kind = rk, cr_stackId = stackId,
         cr_bountyEst = bountyEst, cr_status = Open, cr_resolver = 0, cr_payout = 0, cr_proofHash = replicate 32 0,
         cr_detectedAt = now, cr_resolvedAt = 0\<rparr>),
       rg_ids := rg_ids k @ [residueId]\<rparr>))))))"

definition submit_proof :: "oz \<Rightarrow> address \<Rightarrow> address \<Rightarrow> uint \<Rightarrow> bytes \<Rightarrow> uint \<Rightarrow> bytes \<Rightarrow> (evm, unit) tx" where
  "submit_proof lib this sender now residueId resolver proof_bytes =
     bindT (load as_residues this) (\<lambda>k.
     let r = rg_residue k residueId in
     bindT (require (cr_detectedAt r \<noteq> 0) ''no residue'') (\<lambda>_.
     bindT (require (cr_status r = Open) ''already resolved'') (\<lambda>_.
     bindT (owner_of lib (rg_identity k) resolver) (\<lambda>a.
     bindT (require (a = sender) ''not resolver owner'') (\<lambda>_.
     bindT (save this (Residues (k\<lparr>rg_residue := (rg_residue k)(residueId := r\<lparr>cr_status := Resolved,
       cr_resolver := resolver, cr_payout := cr_bountyEst r, cr_proofHash := oz_keccak lib proof_bytes,
       cr_resolvedAt := now\<rparr>)\<rparr>))) (\<lambda>_.
     mint (rg_token k) this resolver (cr_bountyEst r)))))))"

definition residue_total :: "residue_registry \<Rightarrow> uint" where
  "residue_total k = word_of_nat (length (rg_ids k))"

subsection \<open>Epoch anchors\<close>

definition new_epoch_anchor :: "address \<Rightarrow> epoch_anchor" where
  "new_epoch_anchor sender = \<lparr>ea_owner = sender,
     ea_byEpoch = (\<lambda>_. \<lparr>ca_crossRoot = replicate 32 0, ca_evmRoot = replicate 32 0, ca_ipfsRoot = replicate 32 0,
       ca_sleevesRoot = replicate 32 0, ca_synapticFieldRoot = replicate 32 0, ca_medullaHeight = 0, ca_ts = 0\<rparr>),
     ea_head = 0, ea_lastHeight = 0, ea_bridgers = (\<lambda>_. False)\<rparr>"

definition set_bridger :: "oz \<Rightarrow> address \<Rightarrow> address \<Rightarrow> address \<Rightarrow> bool \<Rightarrow> (evm, unit) tx" where
  "set_bridger lib this sender b ok =
     bindT (load as_anchors this) (\<lambda>k.
     bindT (only_owner lib (ea_owner k) sender) (\<lambda>_.
     save this (Anchors (k\<lparr>ea_bridgers := (ea_bridgers k)(b := ok)\<rparr>))))"

text \<open>The anchor that is written carries the time of the block, whatever \<open>a\<close> holds there.\<close>

definition commit_anchor :: "address \<Rightarrow> address \<Rightarrow> uint \<Rightarrow> uint \<Rightarrow> chain_anchor \<Rightarrow> (evm, unit) tx" where
  "commit_anchor this sender now epoch a =
     bindT (load as_anchors this) (\<lambda>k.
     bindT (require (ea_bridgers k sender) ''not bridger'') (\<lambda>_.
     bindT (require (ea_head k < epoch \<or> ea_head k = 0) ''epoch regression'') (\<lambda>_.
     bindT (require (ea_lastHeight k < ca_medullaHeight a) ''medulla height regression'') (\<lambda>_.
     save this (Anchors (k\<lparr>ea_byEpoch := (ea_byEpoch k)(epoch := a\<lparr>ca_ts := now\<rparr>), ea_head := epoch,
       ea_lastHeight := ca_medullaHeight a\<rparr>))))))"

definition verify_continuity :: "epoch_anchor \<Rightarrow> uint \<Rightarrow> bool \<times> bool" where
  "verify_continuity k epoch =
     (if epoch = 0 then (False, False)
      else let cur = ea_byEpoch k epoch; prev = ea_byEpoch k (epoch - 1) in
        if ca_ts cur = 0 \<or> ca_ts prev = 0 then (False, False)
        else (True, ca_synapticFieldRoot cur \<noteq> ca_synapticFieldRoot prev \<and> ca_medullaHeight prev < ca_medullaHeight cur))"

text \<open>The bits of the index choose the sides, least significant first.\<close>

fun fold_siblings :: "oz \<Rightarrow> bytes \<Rightarrow> bytes list \<Rightarrow> uint \<Rightarrow> bytes" where
  "fold_siblings lib cur [] bits = cur"
| "fold_siblings lib cur (s # ss) bits =
     fold_siblings lib (if bit bits 0 then oz_keccak lib (s @ cur) else oz_keccak lib (cur @ s)) ss (drop_bit 1 bits)"

definition verify_shard_inclusion :: "oz \<Rightarrow> epoch_anchor \<Rightarrow> uint \<Rightarrow> 8 word \<Rightarrow> bytes \<Rightarrow> bytes list \<Rightarrow> uint \<Rightarrow> bool" where
  "verify_shard_inclusion lib k epoch shard leaf siblings bits =
     (let a = ea_byEpoch k epoch in
      if ca_ts a = 0 then False
      else if shard = 0 then fold_siblings lib leaf siblings bits = ca_evmRoot a
      else if shard = 1 then fold_siblings lib leaf siblings bits = ca_ipfsRoot a
      else if shard = 2 then fold_siblings lib leaf siblings bits = ca_sleevesRoot a
      else False)"

end
