(* ===== verification/MarketContracts.thy ===== *)
theory MarketContracts
  imports RegistryContracts
begin

text \<open>
  \<^verbatim>\<open>contracts/src/ResidueToRoutingSwap.sol\<close>, \<^verbatim>\<open>RouteOracle.sol\<close> and \<^verbatim>\<open>TripartiteGame.sol\<close>.
\<close>

subsection \<open>Residue to routing swap\<close>

definition new_swap :: "address \<Rightarrow> address \<Rightarrow> address \<Rightarrow> residue_swap" where
  "new_swap sender rt ro = \<lparr>sw_owner = sender, sw_residueToken = rt, sw_routingToken = ro,
     sw_baseRate = 500000, sw_decayRate = 50000, sw_floorRate = 100000,
     sw_agentCap = 50 * ether, sw_globalCap = 5000 * ether,
     sw_consumedAgent = (\<lambda>_ _. 0), sw_consumedGlobal = (\<lambda>_. 0), sw_oracle = 0, sw_paused = False\<rparr>"

definition million :: uint where
  "million = 1000000"

text \<open>One round of the loop of \<open>quote\<close>, and the loop, which stops after 200 epochs.\<close>

definition decay_round :: "residue_swap \<Rightarrow> uint \<Rightarrow> uint result" where
  "decay_round k m = bindE (sub_u million (sw_decayRate k)) (\<lambda>f. bindE (mul_u m f) (\<lambda>p. Inr (p div million)))"

fun decay_rounds :: "residue_swap \<Rightarrow> nat \<Rightarrow> uint \<Rightarrow> uint result" where
  "decay_rounds k 0 m = Inr m"
| "decay_rounds k (Suc n) m = bindE (decay_round k m) (decay_rounds k n)"

definition quote :: "residue_swap \<Rightarrow> uint \<Rightarrow> uint \<Rightarrow> uint \<Rightarrow> uint result" where
  "quote k amount resolved currentEpoch =
     (if \<not> resolved \<le> currentEpoch then Inl ''future resolution''
      else
        bindE (sub_u currentEpoch resolved) (\<lambda>elapsed.
        bindE (decay_rounds k (min (unat elapsed) 200) (sw_baseRate k)) (\<lambda>m.
        let m = (if m < sw_floorRate k then sw_floorRate k else m) in
        bindE (mul_u amount m) (\<lambda>p. Inr (p div million)))))"

definition swap :: "oz \<Rightarrow> address \<Rightarrow> uint \<Rightarrow> uint \<Rightarrow> uint \<Rightarrow> uint \<Rightarrow> (evm, unit) tx" where
  "swap lib this agent amount resolved currentEpoch =
     bindT (load as_swap this) (\<lambda>k.
     bindT (require (\<not> sw_paused k) ''swap paused'') (\<lambda>_.
     bindT (require (0 < amount) ''zero amount'') (\<lambda>_.
     bindT (lift_result (quote k amount resolved currentEpoch)) (\<lambda>out.
     bindT (require (0 < out) ''below floor'') (\<lambda>_.
     bindT (lift_result (add_u (sw_consumedAgent k agent currentEpoch) out)) (\<lambda>a.
     bindT (require (a \<le> sw_agentCap k) ''agent epoch cap'') (\<lambda>_.
     bindT (lift_result (add_u (sw_consumedGlobal k currentEpoch) out)) (\<lambda>g.
     bindT (require (g \<le> sw_globalCap k) ''global epoch cap'') (\<lambda>_.
     bindT (spend lib (sw_residueToken k) this agent amount) (\<lambda>_.
     bindT (mint (sw_routingToken k) this agent out) (\<lambda>_.
     bindT (load as_swap this) (\<lambda>k.
     bindT (lift_result (add_u (sw_consumedAgent k agent currentEpoch) out)) (\<lambda>a.
     bindT (lift_result (add_u (sw_consumedGlobal k currentEpoch) out)) (\<lambda>g.
     save this (SwapOf (k\<lparr>sw_consumedAgent := (sw_consumedAgent k)(agent := (sw_consumedAgent k agent)(currentEpoch := a)),
       sw_consumedGlobal := (sw_consumedGlobal k)(currentEpoch := g)\<rparr>))))))))))))))))"

definition set_route_oracle :: "oz \<Rightarrow> address \<Rightarrow> address \<Rightarrow> address \<Rightarrow> (evm, unit) tx" where
  "set_route_oracle lib this sender o' =
     bindT (load as_swap this) (\<lambda>k.
     bindT (only_owner lib (sw_owner k) sender) (\<lambda>_.
     save this (SwapOf (k\<lparr>sw_oracle := o'\<rparr>))))"

definition set_paused :: "address \<Rightarrow> address \<Rightarrow> bool \<Rightarrow> (evm, unit) tx" where
  "set_paused this sender p =
     bindT (load as_swap this) (\<lambda>k.
     bindT (require (sender = sw_owner k \<or> sender = sw_oracle k) ''not authorised'') (\<lambda>_.
     save this (SwapOf (k\<lparr>sw_paused := p\<rparr>))))"

definition set_rate :: "oz \<Rightarrow> address \<Rightarrow> address \<Rightarrow> uint \<Rightarrow> uint \<Rightarrow> uint \<Rightarrow> (evm, unit) tx" where
  "set_rate lib this sender base decay flr =
     bindT (load as_swap this) (\<lambda>k.
     bindT (only_owner lib (sw_owner k) sender) (\<lambda>_.
     bindT (require (0 < base \<and> flr \<le> base) ''bad rate'') (\<lambda>_.
     save this (SwapOf (k\<lparr>sw_baseRate := base, sw_decayRate := decay, sw_floorRate := flr\<rparr>)))))"

definition set_caps :: "oz \<Rightarrow> address \<Rightarrow> address \<Rightarrow> uint \<Rightarrow> uint \<Rightarrow> (evm, unit) tx" where
  "set_caps lib this sender agent_cap global_cap =
     bindT (load as_swap this) (\<lambda>k.
     bindT (only_owner lib (sw_owner k) sender) (\<lambda>_.
     save this (SwapOf (k\<lparr>sw_agentCap := agent_cap, sw_globalCap := global_cap\<rparr>))))"

subsection \<open>Route oracle\<close>

definition new_oracle :: "address \<Rightarrow> address \<Rightarrow> address list \<Rightarrow> uint \<Rightarrow> route_oracle result" where
  "new_oracle sender sw gs threshold =
     (if unat threshold \<le> length gs \<and> 0 < threshold
      then Inr \<lparr>ro_owner = sender, ro_swap = sw, ro_guardians = gs, ro_threshold = threshold,
        ro_approvals = (\<lambda>_ _. False), ro_approvalCount = (\<lambda>_. 0), ro_executed = (\<lambda>_. False),
        ro_agentPaused = (\<lambda>_. False), ro_residueCount = (\<lambda>_. 0), ro_lastResidueEpoch = (\<lambda>_. 0),
        ro_lastSwapEpoch = (\<lambda>_. 0), ro_residueRate = 5, ro_swapBurst = 100 * ether, ro_window = 10\<rparr>
      else Inl ''bad threshold'')"

definition is_guardian :: "route_oracle \<Rightarrow> address \<Rightarrow> bool" where
  "is_guardian k who \<longleftrightarrow> who \<in> set (ro_guardians k)"

definition set_guardians :: "oz \<Rightarrow> address \<Rightarrow> address \<Rightarrow> address list \<Rightarrow> uint \<Rightarrow> (evm, unit) tx" where
  "set_guardians lib this sender gs threshold =
     bindT (load as_oracle this) (\<lambda>k.
     bindT (only_owner lib (ro_owner k) sender) (\<lambda>_.
     bindT (require (unat threshold \<le> length gs \<and> 0 < threshold) ''bad threshold'') (\<lambda>_.
     save this (OracleOf (k\<lparr>ro_guardians := gs, ro_threshold := threshold\<rparr>)))))"

definition emergency_pause :: "address \<Rightarrow> address \<Rightarrow> uint \<Rightarrow> (evm, unit) tx" where
  "emergency_pause this sender agent =
     bindT (load as_oracle this) (\<lambda>k.
     bindT (require (is_guardian k sender) ''not guardian'') (\<lambda>_.
     save this (OracleOf (k\<lparr>ro_agentPaused := (ro_agentPaused k)(agent := True)\<rparr>))))"

definition halt_swap :: "address \<Rightarrow> address \<Rightarrow> (evm, unit) tx" where
  "halt_swap this sender =
     bindT (load as_oracle this) (\<lambda>k.
     bindT (require (is_guardian k sender) ''not guardian'') (\<lambda>_.
     set_paused (ro_swap k) this True))"

text \<open>\<open>keccak256(abi.encode("resume", agentTokenId))\<close>; the dynamic string comes behind the words.\<close>

definition word_bytes :: "uint \<Rightarrow> bytes" where
  "word_bytes x = map (\<lambda>i. ucast (drop_bit (8 * i) x)) (rev [0..<32])"

definition resume_id :: "oz \<Rightarrow> uint \<Rightarrow> bytes" where
  "resume_id lib agent = oz_keccak lib (word_bytes 64 @ word_bytes agent @ word_bytes 6 @ utf8 ''resume'' @ replicate 26 0)"

definition approve_resume :: "oz \<Rightarrow> address \<Rightarrow> address \<Rightarrow> uint \<Rightarrow> (evm, unit) tx" where
  "approve_resume lib this sender agent =
     bindT (load as_oracle this) (\<lambda>k.
     bindT (require (is_guardian k sender) ''not guardian'') (\<lambda>_.
     let i = resume_id lib agent in
     bindT (require (\<not> ro_approvals k i sender) ''already approved'') (\<lambda>_.
     bindT (lift_result (add_u (ro_approvalCount k i) 1)) (\<lambda>n.
     save this (OracleOf (k\<lparr>ro_approvals := (ro_approvals k)(i := (ro_approvals k i)(sender := True)),
       ro_approvalCount := (ro_approvalCount k)(i := n)\<rparr>))))))"

definition execute_resume :: "oz \<Rightarrow> address \<Rightarrow> uint \<Rightarrow> (evm, unit) tx" where
  "execute_resume lib this agent =
     bindT (load as_oracle this) (\<lambda>k.
     let i = resume_id lib agent in
     bindT (require (ro_threshold k \<le> ro_approvalCount k i) ''below threshold'') (\<lambda>_.
     bindT (require (\<not> ro_executed k i) ''already executed'') (\<lambda>_.
     save this (OracleOf (k\<lparr>ro_executed := (ro_executed k)(i := True),
       ro_agentPaused := (ro_agentPaused k)(agent := False)\<rparr>)))))"

definition observe_swap :: "oz \<Rightarrow> address \<Rightarrow> address \<Rightarrow> uint \<Rightarrow> uint \<Rightarrow> uint \<Rightarrow> (evm, unit) tx" where
  "observe_swap lib this sender agent out currentEpoch =
     bindT (load as_oracle this) (\<lambda>k.
     bindT (only_owner lib (ro_owner k) sender) (\<lambda>_.
     let k = k\<lparr>ro_lastSwapEpoch := (ro_lastSwapEpoch k)(agent := currentEpoch)\<rparr> in
     save this (OracleOf (if ro_swapBurst k \<le> out then k\<lparr>ro_agentPaused := (ro_agentPaused k)(agent := True)\<rparr> else k))))"

definition observe_residue :: "oz \<Rightarrow> address \<Rightarrow> address \<Rightarrow> uint \<Rightarrow> uint \<Rightarrow> (evm, unit) tx" where
  "observe_residue lib this sender agent currentEpoch =
     bindT (load as_oracle this) (\<lambda>k.
     bindT (only_owner lib (ro_owner k) sender) (\<lambda>_.
     bindT (lift_result (add_u (ro_lastResidueEpoch k agent) (ro_window k))) (\<lambda>end_of_window.
     bindT (lift_result (add_u (if end_of_window < currentEpoch then 0 else ro_residueCount k agent) 1)) (\<lambda>n.
     let k = k\<lparr>ro_lastResidueEpoch := (ro_lastResidueEpoch k)(agent := currentEpoch),
               ro_residueCount := (ro_residueCount k)(agent := n)\<rparr> in
     save this (OracleOf (if ro_residueRate k \<le> n then k\<lparr>ro_agentPaused := (ro_agentPaused k)(agent := True)\<rparr> else k))))))"

definition set_swap :: "oz \<Rightarrow> address \<Rightarrow> address \<Rightarrow> address \<Rightarrow> (evm, unit) tx" where
  "set_swap lib this sender s =
     bindT (load as_oracle this) (\<lambda>k.
     bindT (only_owner lib (ro_owner k) sender) (\<lambda>_.
     save this (OracleOf (k\<lparr>ro_swap := s\<rparr>))))"

definition set_auto_pause :: "oz \<Rightarrow> address \<Rightarrow> address \<Rightarrow> uint \<Rightarrow> uint \<Rightarrow> uint \<Rightarrow> (evm, unit) tx" where
  "set_auto_pause lib this sender rate burst window =
     bindT (load as_oracle this) (\<lambda>k.
     bindT (only_owner lib (ro_owner k) sender) (\<lambda>_.
     save this (OracleOf (k\<lparr>ro_residueRate := rate, ro_swapBurst := burst, ro_window := window\<rparr>))))"

end
