(* ===== verification/GameContract.thy ===== *)
theory GameContract
  imports TokenContracts
begin

text \<open>\<^verbatim>\<open>contracts/src/TripartiteGame.sol\<close>: budgets of several parties for three kinds of bandwidth.\<close>

definition RESOURCE_COUNT :: nat where
  "RESOURCE_COUNT = 3"

definition new_game :: "address \<Rightarrow> address \<Rightarrow> address \<Rightarrow> address \<Rightarrow> address \<Rightarrow> tripartite_game result" where
  "new_game sender c m r sid =
     (if c = 0 then Inl ''compute=0'' else if m = 0 then Inl ''memory=0'' else if r = 0 then Inl ''routing=0''
      else if sid = 0 then Inl ''stack=0''
      else Inr \<lparr>tg_owner = sender, tg_compute = c, tg_memory = m, tg_routing = r, tg_identity = sid,
        tg_parties = (\<lambda>_ _. \<lparr>pa_tokenId = 0, pa_label = replicate 32 0, pa_budget = [0, 0, 0], pa_registered = False\<rparr>),
        tg_roster = (\<lambda>_. []), tg_consumed = (\<lambda>_ _ _ _. 0), tg_games = (\<lambda>_. False)\<rparr>)"

definition open_game :: "oz \<Rightarrow> address \<Rightarrow> address \<Rightarrow> bytes \<Rightarrow> (evm, unit) tx" where
  "open_game lib this sender g =
     bindT (load as_game this) (\<lambda>k.
     bindT (only_owner lib (tg_owner k) sender) (\<lambda>_.
     bindT (require (\<not> tg_games k g) ''game exists'') (\<lambda>_.
     save this (Game (k\<lparr>tg_games := (tg_games k)(g := True)\<rparr>)))))"

definition register_party ::
  "oz \<Rightarrow> address \<Rightarrow> address \<Rightarrow> bytes \<Rightarrow> uint \<Rightarrow> bytes \<Rightarrow> uint \<Rightarrow> uint \<Rightarrow> uint \<Rightarrow> (evm, unit) tx" where
  "register_party lib this sender g tokenId label c s b =
     bindT (load as_game this) (\<lambda>k.
     bindT (require (tg_games k g) ''no game'') (\<lambda>_.
     bindT (owner_of lib (tg_identity k) tokenId) (\<lambda>a.
     bindT (require (a = sender) ''not stack owner'') (\<lambda>_.
     bindT (require (\<not> pa_registered (tg_parties k g tokenId)) ''already registered'') (\<lambda>_.
     save this (Game (k\<lparr>tg_parties := (tg_parties k)(g := (tg_parties k g)(tokenId :=
         \<lparr>pa_tokenId = tokenId, pa_label = label, pa_budget = [c, s, b], pa_registered = True\<rparr>)),
       tg_roster := (tg_roster k)(g := tg_roster k g @ [tokenId])\<rparr>)))))))"

definition game_token :: "tripartite_game \<Rightarrow> 8 word \<Rightarrow> address result" where
  "game_token k res = (if res = 0 then Inr (tg_compute k) else if res = 1 then Inr (tg_memory k)
     else if res = 2 then Inr (tg_routing k) else Inl ''bad resource'')"

text \<open>
  \<open>game_consume\<close> is the function \<open>consume\<close>; the tally is written before the token is called.
\<close>

definition game_consume ::
  "oz \<Rightarrow> address \<Rightarrow> address \<Rightarrow> bytes \<Rightarrow> uint \<Rightarrow> uint \<Rightarrow> 8 word \<Rightarrow> uint \<Rightarrow> (evm, unit) tx" where
  "game_consume lib this sender g tokenId epoch res amount =
     bindT (load as_game this) (\<lambda>k.
     bindT (require (tg_games k g) ''no game'') (\<lambda>_.
     bindT (require (unat res < RESOURCE_COUNT) ''bad resource'') (\<lambda>_.
     let p = tg_parties k g tokenId in
     bindT (require (pa_registered p) ''not registered'') (\<lambda>_.
     bindT (lift_result (add_u (tg_consumed k g epoch tokenId (unat res)) amount)) (\<lambda>n.
     bindT (require (n \<le> pa_budget p ! unat res) ''exceeds per-epoch budget'') (\<lambda>_.
     bindT (save this (Game (k\<lparr>tg_consumed := (tg_consumed k)(g := (tg_consumed k g)(epoch := (tg_consumed k g epoch)(tokenId :=
       (tg_consumed k g epoch tokenId)(unat res := n))))\<rparr>))) (\<lambda>_.
     bindT (lift_result (game_token k res)) (\<lambda>t.
     spend lib t this tokenId amount))))))))"

definition verify_allocation_fair :: "tripartite_game \<Rightarrow> bytes \<Rightarrow> uint \<Rightarrow> bool result" where
  "verify_allocation_fair k g epoch =
     (if \<not> tg_games k g then Inl ''no game''
      else Inr (list_all (\<lambda>tokenId. list_all (\<lambda>r. tg_consumed k g epoch tokenId r \<le> pa_budget (tg_parties k g tokenId) ! r)
        [0..<RESOURCE_COUNT]) (tg_roster k g)))"

definition audit_epoch :: "address \<Rightarrow> bytes \<Rightarrow> uint \<Rightarrow> (evm, bool) tx" where
  "audit_epoch this g epoch = bindT (load as_game this) (\<lambda>k. lift_result (verify_allocation_fair k g epoch))"

definition remaining_budget :: "tripartite_game \<Rightarrow> bytes \<Rightarrow> uint \<Rightarrow> uint \<Rightarrow> 8 word \<Rightarrow> uint" where
  "remaining_budget k g tokenId epoch res =
     (let p = tg_parties k g tokenId in
      if \<not> pa_registered p \<or> RESOURCE_COUNT \<le> unat res then 0
      else let used = tg_consumed k g epoch tokenId (unat res); cap = pa_budget p ! unat res
        in if used < cap then cap - used else 0)"

definition roster_of :: "tripartite_game \<Rightarrow> bytes \<Rightarrow> uint list" where
  "roster_of k g = tg_roster k g"

definition budget_of :: "tripartite_game \<Rightarrow> bytes \<Rightarrow> uint \<Rightarrow> uint \<times> uint \<times> uint" where
  "budget_of k g tokenId = (let b = pa_budget (tg_parties k g tokenId) in (b ! 0, b ! 1, b ! 2))"

end
