(* ===== verification/ChainSystem.thy ===== *)
theory ChainSystem
  imports MarketContracts GameContract
begin

text \<open>
  All contracts together: the external functions as messages, histories of transactions by arbitrary accounts,
  and invariants of the storage that every function keeps.
\<close>

subsection \<open>Messages\<close>

datatype ctor_arg = AddressArg address | AddressesArg "address list" | UintArg uint

datatype chain_call =
    Create string "ctor_arg list"
  | TransferOwnership "address option"
  | TransferNft address address uint
  | SetRouter address bool
  | MintStack bytes "uint list" uint uint
  | RecordNeedlecast uint bytes uint
  | SetMinter address
  | AuthorizeSleeve uint address bool
  | Mint uint uint
  | Spend uint uint
  | TransferStack uint uint uint
  | SetEmission uint
  | Issue uint "8 word" uint
  | ClaimEpochRewards uint uint
  | Register bytes uint "8 word" bytes
  | DecommissionSleeve bytes
  | AnchorEpoch bytes uint
  | Route uint bytes uint
  | SetPayoutModel string
  | Detect bytes "8 word" uint uint
  | SubmitProof bytes uint bytes
  | SetBridger address bool
  | CommitAnchor uint chain_anchor
  | Swap uint uint uint uint
  | SetRouteOracle address
  | SetPaused bool
  | SetRate uint uint uint
  | SetCaps uint uint
  | SetGuardians "address list" uint
  | EmergencyPause uint
  | HaltSwap
  | ApproveResume uint
  | ExecuteResume uint
  | ObserveSwap uint uint uint
  | ObserveResidue uint uint
  | SetSwap address
  | SetAutoPause uint uint uint
  | OpenGame bytes
  | RegisterParty bytes uint bytes uint uint uint
  | Consume bytes uint uint "8 word" uint
  | AuditEpoch bytes uint

text \<open>The constructors, by the name of the contract; wrong arguments cannot be encoded.\<close>

definition construct_contract :: "address \<Rightarrow> string \<Rightarrow> ctor_arg list \<Rightarrow> contract result" where
  "construct_contract sender name as =
     (if name = ''StackIdentity'' then
        (case as of [] \<Rightarrow> Inr (Identity (new_identity sender)) | _ \<Rightarrow> Inl ''abi'')
      else if name = ''QuellistTreasury'' then
        (case as of [AddressArg c, AddressArg m, AddressArg s, AddressArg r, AddressArg res] \<Rightarrow>
           Inr (TreasuryOf (new_treasury sender c m s r res)) | _ \<Rightarrow> Inl ''abi'')
      else if name = ''NeedlecastRouter'' then
        (case as of [AddressArg sid] \<Rightarrow> Inr (Router (new_router sender sid)) | _ \<Rightarrow> Inl ''abi'')
      else if name = ''SleeveRegistry'' then
        (case as of [AddressArg sid] \<Rightarrow> Inr (Sleeves (new_sleeve_registry sender sid)) | _ \<Rightarrow> Inl ''abi'')
      else if name = ''ResidueRegistry'' then
        (case as of [AddressArg rt, AddressArg sid] \<Rightarrow> Inr (Residues (new_residue_registry sender rt sid)) | _ \<Rightarrow> Inl ''abi'')
      else if name = ''EpochAnchor'' then
        (case as of [] \<Rightarrow> Inr (Anchors (new_epoch_anchor sender)) | _ \<Rightarrow> Inl ''abi'')
      else if name = ''TripartiteGame'' then
        (case as of [AddressArg c, AddressArg m, AddressArg r, AddressArg sid] \<Rightarrow>
           bindE (new_game sender c m r sid) (\<lambda>k. Inr (Game k)) | _ \<Rightarrow> Inl ''abi'')
      else if name = ''ResidueToRoutingSwap'' then
        (case as of [AddressArg rt, AddressArg ro] \<Rightarrow> Inr (SwapOf (new_swap sender rt ro)) | _ \<Rightarrow> Inl ''abi'')
      else if name = ''RouteOracle'' then
        (case as of [AddressArg sw, AddressesArg gs, UintArg n] \<Rightarrow>
           bindE (new_oracle sender sw gs n) (\<lambda>k. Inr (OracleOf k)) | _ \<Rightarrow> Inl ''abi'')
      else
        (case (map_of token_names name, as) of
           (Some (nm, symb), [AddressArg sid]) \<Rightarrow> Inr (Token (new_token sender nm symb sid))
         | _ \<Rightarrow> Inl ''artifact not found''))"

definition create :: "address \<Rightarrow> address \<Rightarrow> string \<Rightarrow> ctor_arg list \<Rightarrow> (evm, unit) tx" where
  "create this sender name as w =
     (if w this \<noteq> None then Inl ''address collision'' else bindT (lift_result (construct_contract sender name as)) (save this) w)"

text \<open>The functions of the base contracts: passing on or giving up the ownership, and moving an identity.\<close>

fun contract_owner :: "contract \<Rightarrow> address" where
  "contract_owner (Identity k) = si_owner k"
| "contract_owner (Token k) = bt_owner k"
| "contract_owner (TreasuryOf k) = qt_owner k"
| "contract_owner (Sleeves k) = sg_owner k"
| "contract_owner (Router k) = nr_owner k"
| "contract_owner (Residues k) = rg_owner k"
| "contract_owner (Anchors k) = ea_owner k"
| "contract_owner (SwapOf k) = sw_owner k"
| "contract_owner (OracleOf k) = ro_owner k"
| "contract_owner (Game k) = tg_owner k"

fun with_owner :: "address \<Rightarrow> contract \<Rightarrow> contract" where
  "with_owner a (Identity k) = Identity (k\<lparr>si_owner := a\<rparr>)"
| "with_owner a (Token k) = Token (k\<lparr>bt_owner := a\<rparr>)"
| "with_owner a (TreasuryOf k) = TreasuryOf (k\<lparr>qt_owner := a\<rparr>)"
| "with_owner a (Sleeves k) = Sleeves (k\<lparr>sg_owner := a\<rparr>)"
| "with_owner a (Router k) = Router (k\<lparr>nr_owner := a\<rparr>)"
| "with_owner a (Residues k) = Residues (k\<lparr>rg_owner := a\<rparr>)"
| "with_owner a (Anchors k) = Anchors (k\<lparr>ea_owner := a\<rparr>)"
| "with_owner a (SwapOf k) = SwapOf (k\<lparr>sw_owner := a\<rparr>)"
| "with_owner a (OracleOf k) = OracleOf (k\<lparr>ro_owner := a\<rparr>)"
| "with_owner a (Game k) = Game (k\<lparr>tg_owner := a\<rparr>)"

definition transfer_ownership :: "oz \<Rightarrow> address \<Rightarrow> address \<Rightarrow> address option \<Rightarrow> (evm, unit) tx" where
  "transfer_ownership lib this sender n =
     bindT (load Some this) (\<lambda>c.
     bindT (lift_result (oz_ownership lib (contract_owner c) sender n)) (\<lambda>a.
     save this (with_owner a c)))"

definition transfer_nft :: "oz \<Rightarrow> address \<Rightarrow> address \<Rightarrow> address \<Rightarrow> address \<Rightarrow> uint \<Rightarrow> (evm, unit) tx" where
  "transfer_nft lib this sender src dst i =
     bindT (load as_identity this) (\<lambda>k.
     bindT (lift_result (oz_transferFrom lib (si_owners k) sender src dst i)) (\<lambda>own.
     save this (Identity (k\<lparr>si_owners := own\<rparr>))))"

definition discard :: "('w, 'a) tx \<Rightarrow> ('w, unit) tx" where
  "discard m = bindT m (\<lambda>_. retT ())"

text \<open>A message at time \<open>now\<close> from an account to a contract.\<close>

fun exec :: "oz \<Rightarrow> uint \<times> address \<times> address \<times> chain_call \<Rightarrow> (evm, unit) tx" where
  "exec lib (now, s, a, Create n as) = create a s n as"
| "exec lib (now, s, a, TransferOwnership n) = transfer_ownership lib a s n"
| "exec lib (now, s, a, TransferNft src dst i) = transfer_nft lib a s src dst i"
| "exec lib (now, s, a, SetRouter r ok) = set_router lib a s r ok"
| "exec lib (now, s, a, MintStack pk cpv d f) = discard (mint_stack lib a s now pk cpv d f)"
| "exec lib (now, s, a, RecordNeedlecast i r e) = record_needlecast a s i r e"
| "exec lib (now, s, a, SetMinter m) = set_minter lib a s m"
| "exec lib (now, s, a, AuthorizeSleeve i slv ok) = authorize_sleeve lib a s i slv ok"
| "exec lib (now, s, a, Mint i v) = mint a s i v"
| "exec lib (now, s, a, Spend i v) = spend lib a s i v"
| "exec lib (now, s, a, TransferStack i j v) = transfer_stack lib a s i j v"
| "exec lib (now, s, a, SetEmission e) = set_emission lib a s e"
| "exec lib (now, s, a, Issue i kind v) = issue lib a s i kind v"
| "exec lib (now, s, a, ClaimEpochRewards i e) = claim_epoch_rewards lib a s i e"
| "exec lib (now, s, a, Register slv i kind h) = register lib a s now slv i kind h"
| "exec lib (now, s, a, DecommissionSleeve slv) = decommission_sleeve lib a s slv"
| "exec lib (now, s, a, AnchorEpoch r e) = anchor_epoch a s now r e"
| "exec lib (now, s, a, Route i r e) = route lib a s i r e"
| "exec lib (now, s, a, SetPayoutModel m) = set_payout_model lib a s m"
| "exec lib (now, s, a, Detect i kind st b) = detect a now i kind st b"
| "exec lib (now, s, a, SubmitProof i r p) = submit_proof lib a s now i r p"
| "exec lib (now, s, a, SetBridger b ok) = set_bridger lib a s b ok"
| "exec lib (now, s, a, CommitAnchor e an) = commit_anchor a s now e an"
| "exec lib (now, s, a, Swap i v r e) = swap lib a i v r e"
| "exec lib (now, s, a, SetRouteOracle o') = set_route_oracle lib a s o'"
| "exec lib (now, s, a, SetPaused p) = set_paused a s p"
| "exec lib (now, s, a, SetRate b d f) = set_rate lib a s b d f"
| "exec lib (now, s, a, SetCaps x y) = set_caps lib a s x y"
| "exec lib (now, s, a, SetGuardians gs t) = set_guardians lib a s gs t"
| "exec lib (now, s, a, EmergencyPause i) = emergency_pause a s i"
| "exec lib (now, s, a, HaltSwap) = halt_swap a s"
| "exec lib (now, s, a, ApproveResume i) = approve_resume lib a s i"
| "exec lib (now, s, a, ExecuteResume i) = execute_resume lib a i"
| "exec lib (now, s, a, ObserveSwap i v e) = observe_swap lib a s i v e"
| "exec lib (now, s, a, ObserveResidue i e) = observe_residue lib a s i e"
| "exec lib (now, s, a, SetSwap x) = set_swap lib a s x"
| "exec lib (now, s, a, SetAutoPause r b n) = set_auto_pause lib a s r b n"
| "exec lib (now, s, a, OpenGame g) = open_game lib a s g"
| "exec lib (now, s, a, RegisterParty g i l x y z) = register_party lib a s g i l x y z"
| "exec lib (now, s, a, Consume g i e r v) = game_consume lib a s g i e r v"
| "exec lib (now, s, a, AuditEpoch g e) = discard (audit_epoch a g e)"

type_synonym message_call = "uint \<times> address \<times> address \<times> chain_call"

text \<open>A transaction that reverts leaves the state as it was.\<close>

definition transact :: "oz \<Rightarrow> evm \<Rightarrow> message_call \<Rightarrow> evm" where
  "transact lib w q = (case exec lib q w of Inl e \<Rightarrow> w | Inr (_, w') \<Rightarrow> w')"

definition chain_after :: "oz \<Rightarrow> evm \<Rightarrow> message_call list \<Rightarrow> evm" where
  "chain_after lib w qs = foldl (transact lib) w qs"

subsection \<open>Invariants of the storage\<close>

text \<open>
  \<open>J\<close> speaks of each address and what it holds.  A transaction keeps \<open>J\<close> if it holds after a success; what a
  contract was read to hold may be used, what is written must satisfy it.
\<close>

definition keeps :: "(address \<Rightarrow> contract option \<Rightarrow> bool) \<Rightarrow> (evm, 'a) tx \<Rightarrow> bool" where
  "keeps J m \<longleftrightarrow> (\<forall>w r w'. m w = Inr (r, w') \<longrightarrow> (\<forall>a. J a (w a)) \<longrightarrow> (\<forall>a. J a (w' a)))"

named_theorems keeps_intros \<open>backward rules for storage invariants\<close>

lemma keeps_base [keeps_intros]:
  "keeps J (retT x)" "keeps J (revert e)" "keeps J (require b e)" "keeps J (lift_result r)" "keeps J (load sel a)"
  by (auto simp: keeps_def)

lemma keeps_save [keeps_intros]: "J a (Some c) \<Longrightarrow> keeps J (save a c)"
  by (auto simp: keeps_def)

lemma keeps_bind:
  assumes "keeps J m" "\<And>x. keeps J (f x)"
  shows "keeps J (bindT m f)"
  unfolding keeps_def
proof (intro allI impI)
  fix w r w' b
  assume r: "bindT m f w = Inr (r, w')" and j: "\<forall>a. J a (w a)"
  then obtain x v where v: "m w = Inr (x, v)" "f x v = Inr (r, w')" by auto
  then have "\<forall>a. J a (v a)" using assms(1) j by (auto simp: keeps_def)
  then show "J b (w' b)" using assms(2) v(2) by (auto simp: keeps_def)
qed

lemma keeps_load [keeps_intros]:
  assumes "\<And>c x. sel c = Some x \<Longrightarrow> J a (Some c) \<Longrightarrow> keeps J (f x)"
  shows "keeps J (bindT (load sel a) f)"
  unfolding keeps_def
proof (intro allI impI)
  fix w r w' b
  assume r: "bindT (load sel a) f w = Inr (r, w')" and j: "\<forall>a. J a (w a)"
  then obtain c x where c: "w a = Some c" "sel c = Some x" "f x w = Inr (r, w')" by auto
  then have "J a (Some c)" using j by metis
  with assms c(2) have "keeps J (f x)" by blast
  with c(3) j show "J b (w' b)" by (auto simp: keeps_def)
qed

lemma keeps_require [keeps_intros]: "(b \<Longrightarrow> keeps J (f ())) \<Longrightarrow> keeps J (bindT (require b e) f)"
  by (auto simp: keeps_def)

lemma keeps_lift [keeps_intros]: "(\<And>x. r = Inr x \<Longrightarrow> keeps J (f x)) \<Longrightarrow> keeps J (bindT (lift_result r) f)"
  by (auto simp: keeps_def)

lemma keeps_test [keeps_intros]:
  "(\<And>w. P w \<Longrightarrow> keeps J (f ())) \<Longrightarrow> keeps J (bindT (\<lambda>w. require (P w) e w) f)"
  by (auto simp: keeps_def)

lemma keeps_only_owner [keeps_intros]: "keeps J (f ()) \<Longrightarrow> keeps J (bindT (only_owner lib o' s) f)"
  "keeps J (f ()) \<Longrightarrow> keeps J (bindT (only_stack_owner lib k i s) f)"
  by (auto simp: keeps_def only_owner_def only_stack_owner_def)

lemma keeps_owner_of [keeps_intros]: "(\<And>x. keeps J (f x)) \<Longrightarrow> keeps J (bindT (owner_of lib i t) f)"
  by (auto simp: keeps_def owner_of_def)

lemma keeps_then_save [keeps_intros]: "J a (Some c) \<Longrightarrow> keeps J (f ()) \<Longrightarrow> keeps J (bindT (save a c) f)"
  by (rule keeps_bind) (auto intro: keeps_intros)

lemma keeps_create:
  assumes "\<And>c. J a None \<Longrightarrow> construct_contract s n as = Inr c \<Longrightarrow> J a (Some c)"
  shows "keeps J (create a s n as)"
  unfolding keeps_def
proof (intro allI impI)
  fix w r w' b
  assume r: "create a s n as w = Inr (r, w')" and j: "\<forall>a. J a (w a)"
  then obtain c where c: "w a = None" "construct_contract s n as = Inr c" "w' = w(a \<mapsto> c)"
    by (auto simp: create_def split: if_splits)
  with j have "J a None" by metis
  with assms c j show "J b (w' b)" by auto
qed

text \<open>What a fresh contract looks like.\<close>

lemma construct_cases:
  assumes "construct_contract s n as = Inr c"
  obtains "c = Identity (new_identity s)"
  | x y z where "c = Token (new_token s x y z)"
  | x1 x2 x3 x4 x5 where "c = TreasuryOf (new_treasury s x1 x2 x3 x4 x5)"
  | x where "c = Sleeves (new_sleeve_registry s x)"
  | x where "c = Router (new_router s x)"
  | x y where "c = Residues (new_residue_registry s x y)"
  | "c = Anchors (new_epoch_anchor s)"
  | x y where "c = SwapOf (new_swap s x y)"
  | k x y z where "new_oracle s x y z = Inr k" "c = OracleOf k"
  | k x1 x2 x3 x4 where "new_game s x1 x2 x3 x4 = Inr k" "c = Game k"
  using assms unfolding construct_contract_def
  by (auto split: list.splits if_splits ctor_arg.splits option.splits prod.splits)

lemma keeps_discard [keeps_intros]: "keeps J m \<Longrightarrow> keeps J (discard m)"
  unfolding discard_def by (rule keeps_bind) (auto intro: keeps_intros)

lemma bindT_assoc: "bindT (bindT m f) g = bindT m (\<lambda>x. bindT (f x) g)"
  by (rule ext) (simp add: bindT_def split: sum.splits prod.splits)

text \<open>An invariant that every admitted message keeps holds after every admitted history.\<close>

locale chain_invariant =
  fixes lib :: oz
    and J :: "address \<Rightarrow> contract option \<Rightarrow> bool"
    and admitted :: "message_call \<Rightarrow> bool"
  assumes step: "admitted q \<Longrightarrow> keeps J (exec lib q)"
begin

lemma transact_keeps: "admitted q \<Longrightarrow> \<forall>a. J a (w a) \<Longrightarrow> \<forall>a. J a (transact lib w q a)"
  using step [of q] unfolding keeps_def transact_def by (cases "exec lib q w") auto

lemma history: "list_all admitted qs \<Longrightarrow> \<forall>a. J a (w a) \<Longrightarrow> J a (chain_after lib w qs a)"
proof (induction qs arbitrary: w)
  case (Cons q qs)
  have "\<forall>a. J a (transact lib w q a)" by (rule transact_keeps) (use Cons.prems in auto)
  with Cons show ?case by (simp add: chain_after_def)
qed (simp add: chain_after_def)

end

lemmas token_op_defs = set_minter_def authorize_sleeve_def mint_def spend_def transfer_stack_def
lemmas nested_op_defs = transfer_ownership_def issue_def claim_epoch_rewards_def route_def submit_proof_def swap_def
  halt_swap_def game_consume_def bindT_assoc
lemmas other_op_defs = transfer_nft_def set_router_def mint_stack_def record_needlecast_def set_emission_def
  register_def decommission_sleeve_def anchor_epoch_def set_payout_model_def detect_def set_bridger_def
  commit_anchor_def set_route_oracle_def set_paused_def set_rate_def set_caps_def set_guardians_def
  emergency_pause_def approve_resume_def execute_resume_def observe_swap_def observe_residue_def set_swap_def
  set_auto_pause_def open_game_def register_party_def audit_epoch_def

end
