(* ===== verification/ChainInvariants.thy ===== *)
theory ChainInvariants
  imports ChainSystem
begin

text \<open>
  What holds of the contracts after every history of transactions, by whomever and in whatever order: the
  ledgers balance, budgets and caps are respected, anchors are ordered, and which states cannot be left.
\<close>

subsection \<open>The ledgers balance\<close>

definition ledger_ok :: "bandwidth_token \<Rightarrow> bool" where
  "ledger_ok k \<longleftrightarrow> (\<Sum>i\<in>UNIV. unat (bt_balance k i)) = unat (bt_totalSupply k)"

fun supply_ok :: "contract option \<Rightarrow> bool" where
  "supply_ok (Some (Token k)) \<longleftrightarrow> ledger_ok k"
| "supply_ok _ \<longleftrightarrow> True"

lemma sum_upd: "(\<Sum>i\<in>UNIV. unat ((f(t := b)) i)) + unat (f t) = (\<Sum>i\<in>UNIV. unat (f i)) + unat (b :: uint)"
  for f :: "uint \<Rightarrow> uint"
proof -
  have "(\<Sum>i\<in>UNIV. unat ((f(t := b)) i)) = unat b + (\<Sum>i\<in>UNIV - {t}. unat (f i))"
    by (subst sum.remove [of UNIV t]) (auto intro: sum.cong)
  moreover have "(\<Sum>i\<in>UNIV. unat (f i)) = unat (f t) + (\<Sum>i\<in>UNIV - {t}. unat (f i))"
    by (subst sum.remove [of UNIV t]) auto
  ultimately show ?thesis by simp
qed

lemma ledger_upd:
  assumes "ledger_ok k" "unat b + unat (bt_totalSupply k) = unat t + unat (bt_balance k i)"
  shows "ledger_ok (k\<lparr>bt_balance := (bt_balance k)(i := b), bt_totalSupply := t\<rparr>)"
  using assms sum_upd [of "bt_balance k" i b] unfolding ledger_ok_def by simp

lemma supply_mint: "keeps (\<lambda>a. supply_ok) (mint t s i v)"
  unfolding mint_def by (intro keeps_intros) (auto intro!: ledger_upd simp: add_u_iff)

lemma supply_spend: "keeps (\<lambda>a. supply_ok) (spend lib t s i v)"
  unfolding spend_def by (intro keeps_intros) (auto intro!: ledger_upd simp: sub_u_iff)

lemma supply_transfer: "keeps (\<lambda>a. supply_ok) (transfer_stack lib t s i j v)"
  unfolding transfer_stack_def Let_def
proof (intro keeps_intros)
  fix c k b b'
  assume c: "as_token c = Some k" "supply_ok (Some c)" "sub_u (bt_balance k i) v = Inr b"
    "add_u (((bt_balance k)(i := b)) j) v = Inr b'"
  then have k: "ledger_ok k" by simp
  show "supply_ok (Some (Token (k\<lparr>bt_balance := (bt_balance k)(i := b, j := b')\<rparr>)))"
    using k c(3,4) sum_upd [of "bt_balance k" i b] sum_upd [of "(bt_balance k)(i := b)" j b']
    by (simp add: ledger_ok_def sub_u_iff add_u_iff)
qed

lemma supply_ownership [simp]: "supply_ok (Some (with_owner a c)) = supply_ok (Some c)"
  by (cases c) (simp_all add: ledger_ok_def)

lemma supply_create: "keeps (\<lambda>a. supply_ok) (create a s n as)"
proof (rule keeps_create)
  fix c
  assume "construct_contract s n as = Inr c"
  then show "supply_ok (Some c)" by (cases rule: construct_cases) (simp_all add: ledger_ok_def new_token_def)
qed

lemma supply_exec: "keeps (\<lambda>a. supply_ok) (exec lib q)"
  by (cases "(lib, q)" rule: exec.cases)
    (auto simp: other_op_defs nested_op_defs Let_def set_minter_def authorize_sleeve_def ledger_ok_def
      intro!: keeps_intros supply_create supply_mint supply_spend supply_transfer keeps_bind [OF supply_mint] keeps_bind [OF supply_spend])

interpretation ledgers: chain_invariant lib "\<lambda>a. supply_ok" "\<lambda>q. True" for lib
  by unfold_locales (rule supply_exec)

subsection \<open>Budgets of a game\<close>

definition budget :: "tripartite_game \<Rightarrow> bytes \<Rightarrow> uint \<Rightarrow> nat \<Rightarrow> uint" where
  "budget k g i r = (if pa_registered (tg_parties k g i) then pa_budget (tg_parties k g i) ! r else 0)"

definition fair :: "tripartite_game \<Rightarrow> bool" where
  "fair k \<longleftrightarrow> (\<forall>g e i r. r < RESOURCE_COUNT \<longrightarrow> tg_consumed k g e i r \<le> budget k g i r)"

fun fair_ok :: "contract option \<Rightarrow> bool" where
  "fair_ok (Some (Game k)) \<longleftrightarrow> fair k"
| "fair_ok _ \<longleftrightarrow> True"

lemma fair_other [simp]: "fair (k\<lparr>tg_games := x\<rparr>) = fair k" "fair (k\<lparr>tg_owner := y\<rparr>) = fair k"
  by (simp_all add: fair_def budget_def)

lemma fair_ownership [simp]: "fair_ok (Some (with_owner a c)) = fair_ok (Some c)"
  by (cases c) simp_all

lemma fair_tokens: "keeps (\<lambda>a. fair_ok) (mint t s i v)" "keeps (\<lambda>a. fair_ok) (spend lib t s i v)"
  unfolding mint_def spend_def by (intro keeps_intros; simp)+

lemma fair_registered:
  assumes "fair k" "\<not> pa_registered (tg_parties k g i)"
  shows "fair (k\<lparr>tg_parties := (tg_parties k)(g := (tg_parties k g)(i := p)), tg_roster := ros\<rparr>)"
  unfolding fair_def
proof (intro allI impI)
  fix g' e i' r
  assume r: "r < RESOURCE_COUNT"
  then have "tg_consumed k g' e i' r \<le> budget k g' i' r" using assms(1) by (simp add: fair_def)
  with assms(2) show "tg_consumed (k\<lparr>tg_parties := (tg_parties k)(g := (tg_parties k g)(i := p)), tg_roster := ros\<rparr>) g' e i' r
      \<le> budget (k\<lparr>tg_parties := (tg_parties k)(g := (tg_parties k g)(i := p)), tg_roster := ros\<rparr>) g' i' r"
    by (auto simp: budget_def split: if_splits)
qed

lemma fair_consumed:
  assumes "fair k" "n \<le> budget k g i r"
  shows "fair (k\<lparr>tg_consumed := (tg_consumed k)(g := (tg_consumed k g)(e := (tg_consumed k g e)(i := (tg_consumed k g e i)(r := n))))\<rparr>)"
  unfolding fair_def
proof (intro allI impI)
  fix g' e' i' r'
  assume "r' < RESOURCE_COUNT"
  then have "tg_consumed k g' e' i' r' \<le> budget k g' i' r'" using assms(1) by (simp add: fair_def)
  with assms(2) show "tg_consumed (k\<lparr>tg_consumed := (tg_consumed k)(g := (tg_consumed k g)(e := (tg_consumed k g e)(i := (tg_consumed k g e i)(r := n))))\<rparr>) g' e' i' r'
      \<le> budget (k\<lparr>tg_consumed := (tg_consumed k)(g := (tg_consumed k g)(e := (tg_consumed k g e)(i := (tg_consumed k g e i)(r := n))))\<rparr>) g' i' r'"
    by (auto simp: budget_def)
qed

lemma fair_consume: "keeps (\<lambda>a. fair_ok) (game_consume lib a s g i e r v)"
  unfolding game_consume_def Let_def
  by (intro keeps_intros keeps_bind [OF fair_tokens(2)] fair_tokens) (auto intro!: fair_consumed simp: budget_def)

lemma fair_create: "keeps (\<lambda>a. fair_ok) (create a s n as)"
proof (rule keeps_create)
  fix c
  assume "construct_contract s n as = Inr c"
  then show "fair_ok (Some c)"
    by (cases rule: construct_cases) (auto simp: fair_def budget_def new_game_def split: if_splits)
qed

lemma fair_exec: "keeps (\<lambda>a. fair_ok) (exec lib q)"
  by (cases "(lib, q)" rule: exec.cases)
    (auto simp: other_op_defs nested_op_defs(1-7) bindT_assoc Let_def token_op_defs
      intro!: keeps_intros fair_create fair_tokens fair_registered fair_consume keeps_bind [OF fair_tokens(1)] keeps_bind [OF fair_tokens(2)])

interpretation budgets: chain_invariant lib "\<lambda>a. fair_ok" "\<lambda>q. True" for lib
  by unfold_locales (rule fair_exec)

subsection \<open>Caps of the swap\<close>

definition caps_ok :: "residue_swap \<Rightarrow> bool" where
  "caps_ok k \<longleftrightarrow> sw_agentCap k = 50 * ether \<and> sw_globalCap k = 5000 * ether \<and> (\<forall>e. (\<Sum>i\<in>UNIV. unat (sw_consumedAgent k i e)) = unat (sw_consumedGlobal k e) \<and>
     sw_consumedGlobal k e \<le> sw_globalCap k \<and> (\<forall>i. sw_consumedAgent k i e \<le> sw_agentCap k))"

fun swap_ok :: "contract option \<Rightarrow> bool" where
  "swap_ok (Some (SwapOf k)) \<longleftrightarrow> caps_ok k"
| "swap_ok _ \<longleftrightarrow> True"

fun sets_caps :: "chain_call \<Rightarrow> bool" where
  "sets_caps (SetCaps x y) \<longleftrightarrow> True"
| "sets_caps _ \<longleftrightarrow> False"

lemma caps_other [simp]:
  "caps_ok (k\<lparr>sw_owner := x1\<rparr>) = caps_ok k" "caps_ok (k\<lparr>sw_oracle := x1\<rparr>) = caps_ok k"
  "caps_ok (k\<lparr>sw_paused := x2\<rparr>) = caps_ok k"
  "caps_ok (k\<lparr>sw_baseRate := y1, sw_decayRate := y2, sw_floorRate := y3\<rparr>) = caps_ok k"
  by (simp_all add: caps_ok_def)

lemma swap_ownership [simp]: "swap_ok (Some (with_owner a c)) = swap_ok (Some c)"
  by (cases c) simp_all

lemma caps_consumed:
  assumes "caps_ok k" "add_u (sw_consumedAgent k i e) v = Inr a" "add_u (sw_consumedGlobal k e) v = Inr g"
    "a \<le> sw_agentCap k" "g \<le> sw_globalCap k"
  shows "caps_ok (k\<lparr>sw_consumedAgent := (sw_consumedAgent k)(i := (sw_consumedAgent k i)(e := a)),
    sw_consumedGlobal := (sw_consumedGlobal k)(e := g)\<rparr>)"
  unfolding caps_ok_def
proof (intro allI conjI)
  show "sw_agentCap (k\<lparr>sw_consumedAgent := (sw_consumedAgent k)(i := (sw_consumedAgent k i)(e := a)),
      sw_consumedGlobal := (sw_consumedGlobal k)(e := g)\<rparr>) = 50 * ether"
    "sw_globalCap (k\<lparr>sw_consumedAgent := (sw_consumedAgent k)(i := (sw_consumedAgent k i)(e := a)),
      sw_consumedGlobal := (sw_consumedGlobal k)(e := g)\<rparr>) = 5000 * ether"
    using assms(1) by (simp_all add: caps_ok_def)
  fix e'
  let ?k = "k\<lparr>sw_consumedAgent := (sw_consumedAgent k)(i := (sw_consumedAgent k i)(e := a)),
    sw_consumedGlobal := (sw_consumedGlobal k)(e := g)\<rparr>"
  have c: "(\<Sum>i\<in>UNIV. unat (sw_consumedAgent k i e')) = unat (sw_consumedGlobal k e')"
    "sw_consumedGlobal k e' \<le> sw_globalCap k" "sw_consumedAgent k j e' \<le> sw_agentCap k" for j
    using assms(1) unfolding caps_ok_def by auto
  have f: "(\<lambda>j. sw_consumedAgent ?k j e) = (\<lambda>j. sw_consumedAgent k j e)(i := a)" by auto
  show "(\<Sum>i\<in>UNIV. unat (sw_consumedAgent ?k i e')) = unat (sw_consumedGlobal ?k e')"
  proof (cases "e' = e")
    case True
    then show ?thesis
      using c(1) assms(2,3) sum_upd [of "\<lambda>j. sw_consumedAgent k j e" i a] unfolding f [symmetric] by (simp add: add_u_iff)
  next
    case False
    then have "sw_consumedAgent ?k j e' = sw_consumedAgent k j e'" for j by simp
    with c(1) False show ?thesis by simp
  qed
  show "sw_consumedGlobal ?k e' \<le> sw_globalCap ?k" using c(2) assms(5) by simp
  fix j
  show "sw_consumedAgent ?k j e' \<le> sw_agentCap ?k" using c(3) assms(4) by simp
qed

lemma swap_tokens: "keeps (\<lambda>a. swap_ok) (mint t s i v)" "keeps (\<lambda>a. swap_ok) (spend lib t s i v)"
  unfolding mint_def spend_def by (intro keeps_intros; simp)+

text \<open>The calls of the swap do not touch the swap itself, so its counters are what was checked.\<close>

lemma tokens_leave: "mint t s i v w = Inr (r, w') \<Longrightarrow> w b = Some c \<Longrightarrow> as_token c = None \<Longrightarrow> w' b = Some c"
  "spend lib t s i v w = Inr (r, w') \<Longrightarrow> w b = Some c \<Longrightarrow> as_token c = None \<Longrightarrow> w' b = Some c"
  by (auto simp: mint_def spend_def)

lemma swap_swaps: "keeps (\<lambda>a. swap_ok) (swap lib a i v r e)"
  unfolding keeps_def
proof (intro allI impI)
  fix w u w' b
  assume s: "swap lib a i v r e w = Inr (u, w')" and j: "\<forall>a. swap_ok (w a)"
  from s obtain k out ag gl w1 w2 u1 u2 k2 ag2 gl2 where
    k: "w a = Some (SwapOf k)" and
    ag: "add_u (sw_consumedAgent k i e) out = Inr ag" "ag \<le> sw_agentCap k" and
    gl: "add_u (sw_consumedGlobal k e) out = Inr gl" "gl \<le> sw_globalCap k" and
    w1: "spend lib (sw_residueToken k) a i v w = Inr (u1, w1)" and
    w2: "mint (sw_routingToken k) a i out w1 = Inr (u2, w2)" and
    k2: "w2 a = Some (SwapOf k2)" and
    ag2: "add_u (sw_consumedAgent k2 i e) out = Inr ag2" and gl2: "add_u (sw_consumedGlobal k2 e) out = Inr gl2" and
    w': "w' = w2(a \<mapsto> SwapOf (k2\<lparr>sw_consumedAgent := (sw_consumedAgent k2)(i := (sw_consumedAgent k2 i)(e := ag2)),
       sw_consumedGlobal := (sw_consumedGlobal k2)(e := gl2)\<rparr>))"
    unfolding swap_def by auto
  have "w2 a = Some (SwapOf k)" using tokens_leave(1) [OF w2 tokens_leave(2) [OF w1 k]] by simp
  with k2 have eq: "k2 = k" by simp
  with ag gl ag2 gl2 have g: "ag2 = ag" "gl2 = gl" by auto
  have "caps_ok k" using j k by (metis swap_ok.simps(1))
  moreover have "\<forall>a. swap_ok (w2 a)" using j w1 w2 swap_tokens unfolding keeps_def by metis
  ultimately show "swap_ok (w' b)"
    using caps_consumed [OF _ ag(1) gl(1) ag(2) gl(2)] unfolding w' eq g by simp
qed

lemma swap_create: "keeps (\<lambda>a. swap_ok) (create a s n as)"
proof (rule keeps_create)
  fix c
  assume "construct_contract s n as = Inr c"
  then show "swap_ok (Some c)" by (cases rule: construct_cases) (simp_all add: caps_ok_def new_swap_def)
qed

lemma swap_exec: "\<not> sets_caps (snd (snd (snd q))) \<Longrightarrow> keeps (\<lambda>a. swap_ok) (exec lib q)"
  by (cases "(lib, q)" rule: exec.cases)
    (auto simp: other_op_defs nested_op_defs(1-5,7-9) Let_def token_op_defs
      intro!: keeps_intros swap_create swap_tokens swap_swaps keeps_bind [OF swap_tokens(1)] keeps_bind [OF swap_tokens(2)])

interpretation caps: chain_invariant lib "\<lambda>a. swap_ok" "\<lambda>q. \<not> sets_caps (snd (snd (snd q)))" for lib
  by unfold_locales (rule swap_exec)

subsection \<open>Resumed agents\<close>

text \<open>An agent that was resumed once and is paused again.\<close>

definition stuck :: "oz \<Rightarrow> address \<Rightarrow> uint \<Rightarrow> bool \<Rightarrow> address \<Rightarrow> contract option \<Rightarrow> bool" where
  "stuck lib o' i again a c \<longleftrightarrow> (a = o' \<longrightarrow> (\<exists>k. c = Some (OracleOf k) \<and> ro_executed k (resume_id lib i) \<and>
     (again \<longrightarrow> ro_agentPaused k i)))"

lemma stuck_save:
  assumes "stuck lib o' i again a (Some c)" "as_oracle c = None"
  shows "stuck lib o' i again a x"
  using assms by (auto simp: stuck_def)

lemma stuck_ownership: "stuck lib o' i again a (Some c) \<Longrightarrow> stuck lib o' i again a (Some (with_owner b c))"
  by (cases c) (auto simp: stuck_def)

lemma stuck_oracle: "stuck lib o' i again a (Some (OracleOf k)) \<Longrightarrow>
    ro_executed k (resume_id lib i) \<Longrightarrow> ro_executed k' (resume_id lib i) \<Longrightarrow> (ro_agentPaused k i \<Longrightarrow> ro_agentPaused k' i) \<Longrightarrow>
    stuck lib o' i again a (Some (OracleOf k'))"
  by (auto simp: stuck_def)

lemma stuck_tokens: "keeps (stuck lib o' i again) (mint t s j v)" "keeps (stuck lib o' i again) (spend lib t s j v)"
  unfolding mint_def spend_def by (intro keeps_intros; auto elim: stuck_save)+

lemma stuck_create: "keeps (stuck lib o' i again) (create a s n as)"
  by (rule keeps_create) (simp add: stuck_def)

lemma stuck_exec: "keeps (stuck lib o' i again) (exec lib q)"
  by (cases "(lib, q)" rule: exec.cases)
    (auto simp: other_op_defs nested_op_defs Let_def token_op_defs
      intro!: keeps_intros stuck_create stuck_tokens stuck_ownership keeps_bind [OF stuck_tokens(1)] keeps_bind [OF stuck_tokens(2)]
      elim: stuck_save, auto simp: stuck_def)

interpretation stuck_agents: chain_invariant lib "stuck lib o' i again" "\<lambda>q. True" for lib o' i again
  by unfold_locales (rule stuck_exec)

subsection \<open>Resolved residues\<close>

definition settled_residue :: "address \<Rightarrow> bytes \<Rightarrow> chain_residue \<Rightarrow> address \<Rightarrow> contract option \<Rightarrow> bool" where
  "settled_residue g i r a c \<longleftrightarrow> (a = g \<longrightarrow> cr_status r = Resolved \<and> cr_detectedAt r \<noteq> 0 \<and>
     (\<exists>k. c = Some (Residues k) \<and> rg_residue k i = r))"

lemma settled_save:
  assumes "settled_residue g i r a (Some c)" "as_residues c = None"
  shows "settled_residue g i r a x"
  using assms by (auto simp: settled_residue_def)

lemma settled_ownership: "settled_residue g i r a (Some c) \<Longrightarrow> settled_residue g i r a (Some (with_owner b c))"
  by (cases c) (auto simp: settled_residue_def)

lemma settled_tokens: "keeps (settled_residue g i r) (mint t s j v)" "keeps (settled_residue g i r) (spend lib t s j v)"
  unfolding mint_def spend_def by (intro keeps_intros; auto elim: settled_save)+

lemma settled_create: "keeps (settled_residue g i r) (create a s n as)"
  by (rule keeps_create) (simp add: settled_residue_def)

lemma settled_exec: "keeps (settled_residue g i r) (exec lib q)"
  by (cases "(lib, q)" rule: exec.cases)
    (auto simp: other_op_defs nested_op_defs Let_def token_op_defs
      intro!: keeps_intros settled_create settled_tokens settled_ownership keeps_bind [OF settled_tokens(1)] keeps_bind [OF settled_tokens(2)]
      elim: settled_save, auto simp: settled_residue_def)

interpretation settled_residues: chain_invariant lib "settled_residue g i r" "\<lambda>q. True" for lib g i r
  by unfold_locales (rule settled_exec)

subsection \<open>The order of the anchors\<close>

text \<open>An epoch is anchored if its anchor carries a time; blocks have one.\<close>

definition anchored :: "epoch_anchor \<Rightarrow> uint \<Rightarrow> bool" where
  "anchored k e \<longleftrightarrow> ca_ts (ea_byEpoch k e) \<noteq> 0"

definition ordered :: "epoch_anchor \<Rightarrow> bool" where
  "ordered k \<longleftrightarrow>
     (\<forall>e. anchored k e \<longrightarrow> e \<le> ea_head k \<and> ca_medullaHeight (ea_byEpoch k e) \<le> ea_lastHeight k) \<and>
     (\<forall>e e'. anchored k e \<longrightarrow> anchored k e' \<longrightarrow> e < e' \<longrightarrow>
        ca_medullaHeight (ea_byEpoch k e) < ca_medullaHeight (ea_byEpoch k e'))"

fun anchors_ok :: "contract option \<Rightarrow> bool" where
  "anchors_ok (Some (Anchors k)) \<longleftrightarrow> ordered k"
| "anchors_ok _ \<longleftrightarrow> True"

lemma ordered_other [simp]: "ordered (k\<lparr>ea_owner := x\<rparr>) = ordered k" "ordered (k\<lparr>ea_bridgers := y\<rparr>) = ordered k"
  by (simp_all add: ordered_def anchored_def)

lemma anchors_ownership [simp]: "anchors_ok (Some (with_owner a c)) = anchors_ok (Some c)"
  by (cases c) simp_all

lemma ordered_commit:
  assumes "ordered k" "ea_head k < epoch \<or> ea_head k = 0" "ea_lastHeight k < ca_medullaHeight a"
  shows "ordered (k\<lparr>ea_byEpoch := (ea_byEpoch k)(epoch := a), ea_head := epoch, ea_lastHeight := ca_medullaHeight a\<rparr>)"
proof -
  let ?k = "k\<lparr>ea_byEpoch := (ea_byEpoch k)(epoch := a), ea_head := epoch, ea_lastHeight := ca_medullaHeight a\<rparr>"
  have old: "e \<le> ea_head k" "ca_medullaHeight (ea_byEpoch k e) < ca_medullaHeight a" "e \<le> epoch"
    if "anchored k e" for e
    using that assms by (auto simp: ordered_def intro: le_less_trans)
  have an: "anchored ?k e \<Longrightarrow> e \<noteq> epoch \<Longrightarrow> anchored k e" for e by (simp add: anchored_def)
  have "e \<le> epoch \<and> ca_medullaHeight (ea_byEpoch ?k e) \<le> ca_medullaHeight a" if "anchored ?k e" for e
    using old [OF an [OF that]] by (cases "e = epoch") (auto intro: less_imp_le)
  moreover have "ca_medullaHeight (ea_byEpoch ?k e) < ca_medullaHeight (ea_byEpoch ?k e')"
    if "anchored ?k e" "anchored ?k e'" "e < e'" for e e'
  proof (cases "e' = epoch")
    case True
    with that have "e \<noteq> epoch" by simp
    with old(2) [OF an [OF that(1)]] True show ?thesis by simp
  next
    case False
    with old(3) [OF an [OF that(2)]] that(3) have "e \<noteq> epoch" by auto
    with False an that assms(1) show ?thesis by (simp add: ordered_def)
  qed
  ultimately show ?thesis unfolding ordered_def by simp
qed

lemma anchors_tokens: "keeps (\<lambda>a. anchors_ok) (mint t s i v)" "keeps (\<lambda>a. anchors_ok) (spend lib t s i v)"
  unfolding mint_def spend_def by (intro keeps_intros; simp)+

lemma anchors_commit: "keeps (\<lambda>a. anchors_ok) (commit_anchor a s now e an)"
  unfolding commit_anchor_def using ordered_commit [where a = "an\<lparr>ca_ts := now\<rparr>"] by (intro keeps_intros) auto

lemma anchors_create: "keeps (\<lambda>a. anchors_ok) (create a s n as)"
proof (rule keeps_create)
  fix c
  assume "construct_contract s n as = Inr c"
  then show "anchors_ok (Some c)"
    by (cases rule: construct_cases) (simp_all add: ordered_def anchored_def new_epoch_anchor_def)
qed

lemma anchors_exec: "keeps (\<lambda>a. anchors_ok) (exec lib q)"
  by (cases "(lib, q)" rule: exec.cases)
    (auto simp: other_op_defs(1-11,13-27) nested_op_defs Let_def token_op_defs
      intro!: keeps_intros anchors_create anchors_tokens anchors_commit keeps_bind [OF anchors_tokens(1)] keeps_bind [OF anchors_tokens(2)])

interpretation anchor_order: chain_invariant lib "\<lambda>a. anchors_ok" "\<lambda>q. True" for lib
  by unfold_locales (rule anchors_exec)

subsection \<open>Properties\<close>

definition no_code :: evm where
  "no_code = (\<lambda>_. None)"

lemma no_code_app [simp]: "no_code a = None"
  by (simp add: no_code_def)

text \<open>C27: the ledgers balance.  Whatever contracts are created and whatever is sent to them by whom, the balances
  of each bandwidth token always add up to its total supply, so no balance exceeds it.\<close>

theorem supply_conserved:
  "case chain_after lib no_code qs a of
     Some (Token k) \<Rightarrow> (\<Sum>i\<in>UNIV. unat (bt_balance k i)) = unat (bt_totalSupply k) \<and>
       (\<forall>i. bt_balance k i \<le> bt_totalSupply k)
   | _ \<Rightarrow> True"
proof -
  have "supply_ok (chain_after lib no_code qs a)" by (rule ledgers.history) (simp_all add: list_all_iff)
  moreover have "bt_balance k i \<le> bt_totalSupply k" if "ledger_ok k" for k i
    using that member_le_sum [of i UNIV "\<lambda>i. unat (bt_balance k i)"] by (simp add: ledger_ok_def word_le_nat_alt)
  moreover have "(\<Sum>i\<in>UNIV. unat (bt_balance k i)) = unat (bt_totalSupply k)" if "ledger_ok k" for k
    using that by (simp add: ledger_ok_def)
  ultimately show ?thesis by (auto split: option.splits contract.splits)
qed

text \<open>C32: no party of a game ever outspends its budget.  Whatever is sent to the contracts by whom, the audit of every
  opened game finds every epoch fair, and of a registered party's budget for an epoch exactly what it has
  not consumed remains; nobody else has anything left.\<close>

theorem allocations_fair:
  "case chain_after lib no_code qs a of
     Some (Game k) \<Rightarrow>
       verify_allocation_fair k g e = (if tg_games k g then Inr True else Inl ''no game'') \<and>
       (if pa_registered (tg_parties k g i) \<and> unat r < RESOURCE_COUNT
        then unat (remaining_budget k g i e r) + unat (tg_consumed k g e i (unat r)) = unat (pa_budget (tg_parties k g i) ! unat r)
        else remaining_budget k g i e r = 0)
   | _ \<Rightarrow> True"
proof -
  have "fair_ok (chain_after lib no_code qs a)" by (rule budgets.history) (simp_all add: list_all_iff)
  moreover have "verify_allocation_fair k g e = (if tg_games k g then Inr True else Inl ''no game'')" if "fair k" for k
  proof -
    have "tg_consumed k g e i r \<le> pa_budget (tg_parties k g i) ! r" if "r < RESOURCE_COUNT" for i r
      using \<open>fair k\<close> [unfolded fair_def, rule_format, OF that, of g e i] by (simp add: budget_def split: if_splits)
    then show ?thesis by (simp add: verify_allocation_fair_def list_all_iff)
  qed
  moreover have "unat (remaining_budget k g i e r) + unat (tg_consumed k g e i (unat r)) = unat (pa_budget (tg_parties k g i) ! unat r)"
    if k: "fair k" "pa_registered (tg_parties k g i)" "unat r < RESOURCE_COUNT" for k
  proof -
    have "tg_consumed k g e i (unat r) \<le> pa_budget (tg_parties k g i) ! unat r"
      using k(1) [unfolded fair_def, rule_format, OF k(3), of g e i] k(2) by (simp add: budget_def)
    with k show ?thesis by (auto simp: remaining_budget_def Let_def unat_sub word_le_nat_alt word_less_nat_alt not_le)
  qed
  ultimately show ?thesis by (auto simp: remaining_budget_def not_less split: option.splits contract.splits)
qed



text \<open>C37: an agent can be resumed once in its life.  If the agent was resumed and is paused again, it stays paused in every
  further history, and every attempt to execute a resume for it reverts, however many guardians approve.\<close>

theorem paused_for_good:
  assumes "execute_resume lib o' i w = Inr u"
    and "chain_after lib (snd u) qs o' = Some (OracleOf k)" "ro_agentPaused k i"
  shows "\<exists>k'. chain_after lib (snd u) (qs @ qs') o' = Some (OracleOf k') \<and> ro_agentPaused k' i \<and>
    (\<forall>p. execute_resume lib o' i (chain_after lib (snd u) (qs @ qs')) \<noteq> Inr p)"
proof -
  let ?w = "chain_after lib (snd u) qs"
  have "\<forall>a. stuck lib o' i False a (snd u a)" using assms(1) by (auto simp: execute_resume_def Let_def stuck_def)
  then have "stuck lib o' i False o' (?w o')" by (rule stuck_agents.history [rotated]) (simp add: list_all_iff)
  with assms(2,3) have "\<forall>a. stuck lib o' i True a (?w a)" by (simp add: stuck_def)
  then have "stuck lib o' i True o' (chain_after lib ?w qs' o')"
    by (rule stuck_agents.history [rotated]) (simp add: list_all_iff)
  then obtain k' where "chain_after lib (snd u) (qs @ qs') o' = Some (OracleOf k')" "ro_agentPaused k' i"
    "ro_executed k' (resume_id lib i)" by (auto simp: stuck_def chain_after_def)
  then show ?thesis by (auto simp: execute_resume_def Let_def)
qed

text \<open>C35: the anchors are ordered.  Whatever is sent to the contracts by whom, a later anchored epoch has a strictly greater
  height of the mining chain, no epoch lies beyond the head, and the continuity check of an epoch whose
  predecessor is anchored comes down to comparing the two roots.\<close>

theorem anchors_ordered:
  "case chain_after lib no_code qs a of
     Some (Anchors k) \<Rightarrow>
       (\<forall>e e'. ca_ts (ea_byEpoch k e) = 0 \<or> ca_ts (ea_byEpoch k e') = 0 \<or> e' \<le> e \<or>
          ca_medullaHeight (ea_byEpoch k e) < ca_medullaHeight (ea_byEpoch k e')) \<and>
       (\<forall>e. ca_ts (ea_byEpoch k e) = 0 \<or> e \<le> ea_head k \<and> ca_medullaHeight (ea_byEpoch k e) \<le> ea_lastHeight k) \<and>
       (\<forall>e. verify_continuity k e = (if e = 0 \<or> ca_ts (ea_byEpoch k e) = 0 \<or> ca_ts (ea_byEpoch k (e - 1)) = 0
          then (False, False)
          else (True, ca_synapticFieldRoot (ea_byEpoch k e) \<noteq> ca_synapticFieldRoot (ea_byEpoch k (e - 1)))))
   | _ \<Rightarrow> True"
proof -
  have inv: "anchors_ok (chain_after lib no_code qs a)" by (rule anchor_order.history) (simp_all add: list_all_iff)
  have "ca_medullaHeight (ea_byEpoch k (e - 1)) < ca_medullaHeight (ea_byEpoch k e)"
    if "ordered k" "e \<noteq> 0" "anchored k e" "anchored k (e - 1)" for k e
  proof -
    have "e - 1 < e" using that(2) by (simp add: word_less_nat_alt unat_sub word_le_nat_alt unat_gt_0 Suc_leI)
    with that show ?thesis by (simp add: ordered_def)
  qed
  then have c: "verify_continuity k e = (if e = 0 \<or> ca_ts (ea_byEpoch k e) = 0 \<or> ca_ts (ea_byEpoch k (e - 1)) = 0
      then (False, False) else (True, ca_synapticFieldRoot (ea_byEpoch k e) \<noteq> ca_synapticFieldRoot (ea_byEpoch k (e - 1))))"
    if "ordered k" for k e
    using that by (auto simp: verify_continuity_def Let_def anchored_def)
  have o: "ca_ts (ea_byEpoch k e) = 0 \<or> ca_ts (ea_byEpoch k e') = 0 \<or> e' \<le> e \<or>
      ca_medullaHeight (ea_byEpoch k e) < ca_medullaHeight (ea_byEpoch k e')"
    "ca_ts (ea_byEpoch k e) = 0 \<or> e \<le> ea_head k \<and> ca_medullaHeight (ea_byEpoch k e) \<le> ea_lastHeight k"
    if "ordered k" for k e e'
    using that unfolding ordered_def anchored_def by (meson not_le)+
  show ?thesis
  proof (cases "\<exists>k. chain_after lib no_code qs a = Some (Anchors k)")
    case True
    then obtain k where k: "chain_after lib no_code qs a = Some (Anchors k)" by blast
    with inv have "ordered k" by simp
    then show ?thesis unfolding k option.case contract.case by (intro conjI allI c o)
  qed (auto split: option.splits contract.splits)
qed

text \<open>An oracle with one guardian, at the moment the resume of agent 5 was approved.\<close>

definition demo_oracle :: route_oracle where
  "demo_oracle = (case new_oracle 1 4 [7] 1 of Inr k \<Rightarrow> k)"

definition resumable :: evm where
  "resumable = no_code(9 \<mapsto> OracleOf (demo_oracle\<lparr>ro_approvals := (\<lambda>_ _. False)(resume_id demo_oz 5 := (\<lambda>_. False)(7 := True)),
     ro_approvalCount := (\<lambda>_. 0)(resume_id demo_oz 5 := 1)\<rparr>))"

lemma resumable_reached: "transact demo_oz (no_code(9 \<mapsto> OracleOf demo_oracle)) (1, 7, 9, ApproveResume 5) = resumable"
  by (simp add: transact_def approve_resume_def resumable_def demo_oracle_def new_oracle_def is_guardian_def tx_eval Let_def
    add_u_def lift_result_def)

theorem paused_for_good_witness:
  "\<exists>k'. chain_after demo_oz resumable [(1, 7, 9, ExecuteResume 5), (2, 7, 9, EmergencyPause 5), (3, 7, 9, ExecuteResume 5)] 9 =
    Some (OracleOf k') \<and> ro_agentPaused k' 5"
proof -
  obtain u where u: "execute_resume demo_oz 9 5 resumable = Inr u"
     "\<exists>k. chain_after demo_oz (snd u) [(2, 7, 9, EmergencyPause 5)] 9 = Some (OracleOf k) \<and> ro_agentPaused k 5"
    by (simp add: execute_resume_def resumable_def demo_oracle_def new_oracle_def tx_eval Let_def chain_after_def transact_def
      emergency_pause_def is_guardian_def)
  then obtain k where k: "chain_after demo_oz (snd u) [(2, 7, 9, EmergencyPause 5)] 9 = Some (OracleOf k)" "ro_agentPaused k 5"
    by blast
  from paused_for_good [OF u(1) k, of "[(3, 7, 9, ExecuteResume 5)]"] u(1) show ?thesis
    by (cases u) (auto simp: chain_after_def transact_def)
qed

end
