(* ===== verification/Deploy.thy ===== *)
theory Deploy
  imports ChainInvariants Service
begin

text \<open>
  \<^verbatim>\<open>contracts/scripts/deploy.ts\<close>: funding the operator, creating the contracts, handing out their rights and
  writing the list of addresses.  The node is a parameter: it may refuse a request, or carry it out and lose
  the answer.  The transactions of the script are messages of theory \<^theory_text>\<open>ChainSystem\<close>; fees are left out.
\<close>

subsection \<open>The node\<close>

datatype node_answer = Answered | NotSent | AnswerLost

record deploy_env =
  de_oz :: oz
  de_account :: address
  de_created :: "nat \<Rightarrow> address"
  de_answer :: "nat \<Rightarrow> node_answer"
  de_accounts :: "address list"
  de_now :: uint
  de_chainId :: nat
  de_disk :: bool

record chain_node =
  cn_evm :: evm
  cn_created :: nat
  cn_step :: nat
  cn_balance :: "address \<Rightarrow> nat"
  cn_file :: "(nat \<times> (string \<times> address) list) option"

definition exchange :: "deploy_env \<Rightarrow> (chain_node, 'a) act \<Rightarrow> (chain_node, 'a) act" where
  "exchange D m s = (let s' = s\<lparr>cn_step := cn_step s + 1\<rparr> in
     case de_answer D (cn_step s) of
       Answered \<Rightarrow> m s'
     | NotSent \<Rightarrow> (Inl ''HttpRequestError'', s')
     | AnswerLost \<Rightarrow> (Inl ''HttpRequestError'', snd (m s')))"

text \<open>\<open>write.f(args)\<close> and the wait for its receipt; a call that reverts is refused when its gas is estimated.\<close>

definition send :: "deploy_env \<Rightarrow> address \<Rightarrow> chain_call \<Rightarrow> (chain_node, unit) act" where
  "send D a q = exchange D (\<lambda>s. case exec (de_oz D) (de_now D, de_account D, a, q) (cn_evm s) of
     Inl e \<Rightarrow> (Inl e, s) | Inr (_, w) \<Rightarrow> (Inr (), s\<lparr>cn_evm := w\<rparr>))"

text \<open>
  The helper \<open>deploy\<close>.  The receipt of a mined creation names the address of the contract.
\<close>

definition deploy :: "deploy_env \<Rightarrow> string \<Rightarrow> ctor_arg list \<Rightarrow> (chain_node, address) act" where
  "deploy D name as = exchange D (\<lambda>s. let a = de_created D (cn_created s) in
     case exec (de_oz D) (de_now D, de_account D, a, Create name as) (cn_evm s) of
       Inl e \<Rightarrow> (Inl e, s)
     | Inr (_, w) \<Rightarrow> (Inr a, s\<lparr>cn_evm := w, cn_created := cn_created s + 1\<rparr>))"

subsection \<open>The script\<close>

definition get_balance :: "deploy_env \<Rightarrow> (chain_node, nat) act" where
  "get_balance D = exchange D (\<lambda>s. (Inr (cn_balance s (de_account D)), s))"

definition pay :: "deploy_env \<Rightarrow> address \<Rightarrow> nat \<Rightarrow> (chain_node, unit) act" where
  "pay D dev v = exchange D (\<lambda>s. if cn_balance s dev < v then (Inl ''insufficient funds'', s)
     else let b = (cn_balance s)(dev := cn_balance s dev - v)
       in (Inr (), s\<lparr>cn_balance := b(de_account D := b (de_account D) + v)\<rparr>))"

definition fund :: "deploy_env \<Rightarrow> (chain_node, unit) act" where
  "fund D =
     bindA (get_balance D) (\<lambda>balance.
     if balance = 0 then
       bindA (exchange D (\<lambda>s. (Inr (de_accounts D), s))) (\<lambda>accts. case accts of
         [] \<Rightarrow> throwA ''Error: No dev accounts found on geth''
       | dev # _ \<Rightarrow> bindA (pay D dev (10000 * 10 ^ 18)) (\<lambda>_. bindA (get_balance D) (\<lambda>_. ret ())))
     else ret ())"

definition write_deployments :: "deploy_env \<Rightarrow> (string \<times> address) list \<Rightarrow> (chain_node, unit) act" where
  "write_deployments D out s = (if de_disk D then (Inr (), s\<lparr>cn_file := Some (de_chainId D, out)\<rparr>) else (Inl ''EACCES'', s))"

definition deploy_main :: "deploy_env \<Rightarrow> (chain_node, unit) act" where
  "deploy_main D =
     bindA (fund D) (\<lambda>_.
     bindA (deploy D ''StackIdentity'' []) (\<lambda>stackIdentity.
     bindA (deploy D ''ComputeToken'' [AddressArg stackIdentity]) (\<lambda>compute.
     bindA (deploy D ''MemoryToken'' [AddressArg stackIdentity]) (\<lambda>memT.
     bindA (deploy D ''SyncToken'' [AddressArg stackIdentity]) (\<lambda>syncT.
     bindA (deploy D ''RoutingToken'' [AddressArg stackIdentity]) (\<lambda>routing.
     bindA (deploy D ''ResidueToken'' [AddressArg stackIdentity]) (\<lambda>residue.
     bindA (deploy D ''QuellistTreasury'' [AddressArg compute, AddressArg memT, AddressArg syncT, AddressArg routing,
       AddressArg residue]) (\<lambda>treasury.
     bindA (forA (\<lambda>t. send D t (SetMinter treasury)) [compute, memT, syncT, routing, residue]) (\<lambda>_.
     bindA (deploy D ''NeedlecastRouter'' [AddressArg stackIdentity]) (\<lambda>router.
     bindA (send D stackIdentity (SetRouter router True)) (\<lambda>_.
     bindA (deploy D ''SleeveRegistry'' [AddressArg stackIdentity]) (\<lambda>sleeveReg.
     bindA (deploy D ''ResidueRegistry'' [AddressArg residue, AddressArg stackIdentity]) (\<lambda>residueReg.
     bindA (send D residue (SetMinter residueReg)) (\<lambda>_.
     bindA (deploy D ''EpochAnchor'' []) (\<lambda>epochAnchor.
     bindA (deploy D ''TripartiteGame'' [AddressArg compute, AddressArg memT, AddressArg routing, AddressArg stackIdentity])
       (\<lambda>tripartite.
     bindA (deploy D ''ResidueToRoutingSwap'' [AddressArg residue, AddressArg routing]) (\<lambda>resToRouting.
     bindA (send D routing (SetMinter resToRouting)) (\<lambda>_.
     bindA (deploy D ''RouteOracle'' [AddressArg resToRouting, AddressesArg [de_account D], UintArg 1]) (\<lambda>routeOracle.
     bindA (send D resToRouting (SetRouteOracle routeOracle)) (\<lambda>_.
     write_deployments D [(''deployer'', de_account D), (''StackIdentity'', stackIdentity), (''ComputeToken'', compute),
       (''MemoryToken'', memT), (''SyncToken'', syncT), (''RoutingToken'', routing), (''ResidueToken'', residue),
       (''QuellistTreasury'', treasury), (''NeedlecastRouter'', router), (''SleeveRegistry'', sleeveReg),
       (''ResidueRegistry'', residueReg), (''EpochAnchor'', epochAnchor), (''TripartiteGame'', tripartite),
       (''ResidueToRoutingSwap'', resToRouting), (''RouteOracle'', routeOracle)]))))))))))))))))))))"

subsection \<open>What the script leaves behind\<close>

text \<open>The contracts, created at \<open>A 0\<close> to \<open>A 13\<close>.\<close>

definition deployed :: "address \<Rightarrow> (nat \<Rightarrow> address) \<Rightarrow> evm" where
  "deployed acc A = no_code(
     A 6 \<mapsto> TreasuryOf (new_treasury acc (A 1) (A 2) (A 3) (A 4) (A 5)),
     A 1 \<mapsto> Token ((new_token acc ''ECCA ComputeToken'' ''CMP'' (A 0))\<lparr>bt_minter := A 6\<rparr>),
     A 2 \<mapsto> Token ((new_token acc ''ECCA MemoryToken'' ''MEM'' (A 0))\<lparr>bt_minter := A 6\<rparr>),
     A 3 \<mapsto> Token ((new_token acc ''ECCA SyncToken'' ''SYN'' (A 0))\<lparr>bt_minter := A 6\<rparr>),
     A 7 \<mapsto> Router (new_router acc (A 0)),
     A 0 \<mapsto> Identity ((new_identity acc)\<lparr>si_routers := (\<lambda>_. False)(A 7 := True)\<rparr>),
     A 8 \<mapsto> Sleeves (new_sleeve_registry acc (A 0)),
     A 9 \<mapsto> Residues (new_residue_registry acc (A 5) (A 0)),
     A 5 \<mapsto> Token ((new_token acc ''ECCA ResidueToken'' ''RES'' (A 0))\<lparr>bt_minter := A 9\<rparr>),
     A 10 \<mapsto> Anchors (new_epoch_anchor acc),
     A 11 \<mapsto> Game (case new_game acc (A 1) (A 2) (A 4) (A 0) of Inr k \<Rightarrow> k),
     A 4 \<mapsto> Token ((new_token acc ''ECCA RoutingToken'' ''RTE'' (A 0))\<lparr>bt_minter := A 12\<rparr>),
     A 13 \<mapsto> OracleOf (case new_oracle acc (A 12) [acc] 1 of Inr k \<Rightarrow> k),
     A 12 \<mapsto> SwapOf ((new_swap acc (A 5) (A 4))\<lparr>sw_oracle := A 13\<rparr>))"

subsection \<open>A run on a healthy node\<close>

text \<open>The node answers, holds no contracts yet and gives them fresh addresses; the operator or the first
  account of the node has the funds.\<close>

definition good_node :: "deploy_env \<Rightarrow> chain_node \<Rightarrow> bool" where
  "good_node D s \<longleftrightarrow> oz_ok (de_oz D) \<and> (\<forall>n. de_answer D n = Answered) \<and> de_disk D \<and> cn_evm s = no_code \<and> cn_created s = 0 \<and>
     distinct (map (de_created D) [0..<14]) \<and> 0 \<notin> de_created D ` {..<14} \<and>
     (0 < cn_balance s (de_account D) \<or> (\<exists>dev rest. de_accounts D = dev # rest \<and> 10000 * 10 ^ 18 \<le> cn_balance s dev \<and> dev \<noteq> de_account D))"

lemma deploy_run:
  assumes "\<forall>n. de_answer D n = Answered" "cn_evm s (de_created D (cn_created s)) = None" "construct_contract (de_account D) name as = Inr c"
  shows "deploy D name as s = (Inr (de_created D (cn_created s)), s\<lparr>cn_step := cn_step s + 1,
    cn_evm := (cn_evm s)(de_created D (cn_created s) \<mapsto> c), cn_created := cn_created s + 1\<rparr>)"
  using assms by (simp add: deploy_def exchange_def create_def Let_def tx_eval lift_result_def)

lemma send_run:
  assumes "\<forall>n. de_answer D n = Answered" "exec (de_oz D) (de_now D, de_account D, a, q) (cn_evm s) = Inr (u, w)"
  shows "send D a q s = (Inr (), s\<lparr>cn_step := cn_step s + 1, cn_evm := w\<rparr>)"
  using assms by (simp add: send_def exchange_def Let_def)

lemma set_minter_run:
  assumes "oz_ok lib" "w t = Some (Token k)" "bt_owner k = s"
  shows "exec lib (now, s, t, SetMinter m) w = Inr ((), w(t \<mapsto> Token (k\<lparr>bt_minter := m\<rparr>)))"
  using assms by (simp add: set_minter_def only_owner_def onlyOwner_iff tx_eval)

lemma set_router_run:
  assumes "oz_ok lib" "w t = Some (Identity k)" "si_owner k = s"
  shows "exec lib (now, s, t, SetRouter r ok) w = Inr ((), w(t \<mapsto> Identity (k\<lparr>si_routers := (si_routers k)(r := ok)\<rparr>)))"
  using assms by (simp add: set_router_def only_owner_def onlyOwner_iff tx_eval)

lemma set_oracle_run:
  assumes "oz_ok lib" "w t = Some (SwapOf k)" "sw_owner k = s"
  shows "exec lib (now, s, t, SetRouteOracle r) w = Inr ((), w(t \<mapsto> SwapOf (k\<lparr>sw_oracle := r\<rparr>)))"
  using assms by (simp add: set_route_oracle_def only_owner_def onlyOwner_iff tx_eval)

lemma construct_runs:
  "construct_contract s ''StackIdentity'' [] = Inr (Identity (new_identity s))"
  "construct_contract s ''ComputeToken'' [AddressArg a] = Inr (Token (new_token s ''ECCA ComputeToken'' ''CMP'' a))"
  "construct_contract s ''MemoryToken'' [AddressArg a] = Inr (Token (new_token s ''ECCA MemoryToken'' ''MEM'' a))"
  "construct_contract s ''SyncToken'' [AddressArg a] = Inr (Token (new_token s ''ECCA SyncToken'' ''SYN'' a))"
  "construct_contract s ''RoutingToken'' [AddressArg a] = Inr (Token (new_token s ''ECCA RoutingToken'' ''RTE'' a))"
  "construct_contract s ''ResidueToken'' [AddressArg a] = Inr (Token (new_token s ''ECCA ResidueToken'' ''RES'' a))"
  "construct_contract s ''QuellistTreasury'' [AddressArg a, AddressArg b, AddressArg c, AddressArg d, AddressArg e] = Inr (TreasuryOf (new_treasury s a b c d e))"
  "construct_contract s ''NeedlecastRouter'' [AddressArg a] = Inr (Router (new_router s a))"
  "construct_contract s ''SleeveRegistry'' [AddressArg a] = Inr (Sleeves (new_sleeve_registry s a))"
  "construct_contract s ''ResidueRegistry'' [AddressArg a, AddressArg b] = Inr (Residues (new_residue_registry s a b))"
  "construct_contract s ''EpochAnchor'' [] = Inr (Anchors (new_epoch_anchor s))"
  "a \<noteq> 0 \<Longrightarrow> b \<noteq> 0 \<Longrightarrow> c \<noteq> 0 \<Longrightarrow> d \<noteq> 0 \<Longrightarrow>
    construct_contract s ''TripartiteGame'' [AddressArg a, AddressArg b, AddressArg c, AddressArg d] = Inr (Game (case new_game s a b c d of Inr k \<Rightarrow> k))"
  "construct_contract s ''ResidueToRoutingSwap'' [AddressArg a, AddressArg b] = Inr (SwapOf (new_swap s a b))"
  "construct_contract s ''RouteOracle'' [AddressArg a, AddressesArg [b], UintArg 1] = Inr (OracleOf (case new_oracle s a [b] 1 of Inr k \<Rightarrow> k))"
  by (simp_all add: construct_contract_def token_names_def new_game_def new_oracle_def)

lemma exec_create [simp]: "exec lib (now, s, a, Create n as) = create a s n as" by simp

lemma fund_run:
  assumes "good_node D s"
  shows "\<exists>s'. fund D s = (Inr (), s') \<and> cn_evm s' = no_code \<and> cn_created s' = 0"
  using assms unfolding good_node_def
  by (cases "cn_balance s (de_account D) = 0")
    (auto simp: fund_def get_balance_def pay_def exchange_def Let_def svc_simps bindA_def)

definition node :: "evm \<Rightarrow> nat \<Rightarrow> nat \<Rightarrow> chain_node \<Rightarrow> chain_node" where
  "node w n k s = s\<lparr>cn_evm := w, cn_created := n, cn_step := k\<rparr>"

lemma node_id: "node (cn_evm s) (cn_created s) (cn_step s) s = s"
  by (simp add: node_def)

lemma deploy_node:
  assumes "\<forall>n. de_answer D n = Answered" "w (de_created D n) = None" "construct_contract (de_account D) name as = Inr c"
  shows "deploy D name as (node w n k s) = (Inr (de_created D n), node (w(de_created D n \<mapsto> c)) (n + 1) (k + 1) s)"
  using deploy_run [of D "node w n k s" name as c] assms by (simp add: node_def)

lemma send_node:
  assumes "\<forall>n. de_answer D n = Answered" "exec (de_oz D) (de_now D, de_account D, a, q) w = Inr (u, w')"
  shows "send D a q (node w n k s) = (Inr (), node w' n (k + 1) s)"
  using send_run [of D a q "node w n k s" u w'] assms by (simp add: node_def)

lemma send_node_minter:
  assumes "\<forall>n. de_answer D n = Answered" "oz_ok (de_oz D)" "w t = Some (Token k)" "bt_owner k = de_account D"
  shows "send D t (SetMinter m) (node w n j s) = (Inr (), node (w(t \<mapsto> Token (k\<lparr>bt_minter := m\<rparr>))) n (j + 1) s)"
  by (rule send_node [OF assms(1)], rule set_minter_run) (use assms in auto)

lemma send_node_router:
  assumes "\<forall>n. de_answer D n = Answered" "oz_ok (de_oz D)" "w t = Some (Identity k)" "si_owner k = de_account D"
  shows "send D t (SetRouter r ok) (node w n j s) =
    (Inr (), node (w(t \<mapsto> Identity (k\<lparr>si_routers := (si_routers k)(r := ok)\<rparr>))) n (j + 1) s)"
  by (rule send_node [OF assms(1)], rule set_router_run) (use assms in auto)

lemma send_node_oracle:
  assumes "\<forall>n. de_answer D n = Answered" "oz_ok (de_oz D)" "w t = Some (SwapOf k)" "sw_owner k = de_account D"
  shows "send D t (SetRouteOracle r) (node w n j s) = (Inr (), node (w(t \<mapsto> SwapOf (k\<lparr>sw_oracle := r\<rparr>))) n (j + 1) s)"
  by (rule send_node [OF assms(1)], rule set_oracle_run) (use assms in auto)

text \<open>The names in the list of addresses.\<close>

definition deployment_names :: "string list" where
  "deployment_names = [''StackIdentity'', ''ComputeToken'', ''MemoryToken'', ''SyncToken'', ''RoutingToken'', ''ResidueToken'',
     ''QuellistTreasury'', ''NeedlecastRouter'', ''SleeveRegistry'', ''ResidueRegistry'', ''EpochAnchor'', ''TripartiteGame'',
     ''ResidueToRoutingSwap'', ''RouteOracle'']"



text \<open>A node with an unlocked account that pays.\<close>

definition demo_deploy :: deploy_env where
  "demo_deploy = \<lparr>de_oz = demo_oz, de_account = 99, de_created = (\<lambda>n. word_of_nat (n + 1)), de_answer = (\<lambda>_. Answered),
     de_accounts = [50], de_now = 1, de_chainId = 1337, de_disk = True\<rparr>"

definition demo_node :: chain_node where
  "demo_node = \<lparr>cn_evm = no_code, cn_created = 0, cn_step = 0, cn_balance = (\<lambda>_. 0)(50 := 10 ^ 30), cn_file = None\<rparr>"


subsection \<open>Failures\<close>

definition file_kept :: "(chain_node, 'a) act \<Rightarrow> bool" where
  "file_kept m \<longleftrightarrow> (\<forall>s. cn_file (snd (m s)) = cn_file s)"

lemma file_kept_exchange: "file_kept m \<Longrightarrow> file_kept (exchange D m)"
  by (auto simp: file_kept_def exchange_def Let_def split: node_answer.splits)

lemma file_kept_bind: "file_kept m \<Longrightarrow> (\<And>x. file_kept (f x)) \<Longrightarrow> file_kept (bindA m f)"
  by (auto simp: file_kept_def bindA_def split: prod.splits sum.splits) (metis snd_conv)+

definition fails_quietly :: "(chain_node, 'a) act \<Rightarrow> bool" where
  "fails_quietly m \<longleftrightarrow> (\<forall>s e s'. m s = (Inl e, s') \<longrightarrow> cn_file s' = cn_file s)"

lemma fails_quietly_bind:
  assumes "file_kept m" "\<And>x. fails_quietly (f x)"
  shows "fails_quietly (bindA m f)"
  unfolding fails_quietly_def
proof (intro allI impI)
  fix s e s'
  assume r: "bindA m f s = (Inl e, s')"
  obtain x v where m: "m s = (x, v)" by (cases "m s")
  then have "cn_file v = cn_file s" using assms(1) unfolding file_kept_def by (metis snd_conv)
  with r m assms(2) show "cn_file s' = cn_file s" by (auto simp: bindA_def fails_quietly_def split: sum.splits)
qed

lemma file_kept_steps:
  "file_kept (deploy D n as)" "file_kept (send D a q)" "file_kept (get_balance D)" "file_kept (pay D dev v)"
  unfolding deploy_def send_def get_balance_def pay_def
  by (intro file_kept_exchange; auto simp: file_kept_def Let_def svc_simps split: sum.splits)+

lemma file_kept_pure:
  "file_kept (ret x)" "file_kept (throwA e)" "file_kept (Pair y)"
  "file_kept m \<Longrightarrow> file_kept m' \<Longrightarrow> file_kept (if b then m else m')"
  by (simp_all add: file_kept_def svc_simps)

lemma file_kept_for: "(\<And>x. file_kept (f x)) \<Longrightarrow> file_kept (forA f xs)"
  by (induction xs) (auto intro!: file_kept_bind file_kept_pure)

lemma file_kept_fund: "file_kept (fund D)"
  unfolding fund_def
  by (intro file_kept_bind file_kept_steps file_kept_pure file_kept_exchange)
    (auto intro!: file_kept_bind file_kept_steps file_kept_pure split: list.splits)

text \<open>C31: a failed deployment leaves the old list of addresses.  Whichever request of the script fails, and even if the node
  carried it out and only the answer was lost, the list on the disk is the one from before.\<close>

theorem deploy_failure_keeps_list:
  assumes "deploy_main D s = (Inl e, s')"
  shows "cn_file s' = cn_file s"
proof -
  have "fails_quietly (deploy_main D)"
    unfolding deploy_main_def
    by (intro fails_quietly_bind file_kept_fund file_kept_for file_kept_steps)
      (auto simp: fails_quietly_def write_deployments_def split: if_splits)
  with assms show ?thesis by (simp add: fails_quietly_def)
qed

theorem deploy_failure_keeps_list_witness:
  "\<exists>e s'. deploy_main (demo_deploy\<lparr>de_answer := (\<lambda>n. if n = 3 then AnswerLost else Answered)\<rparr>) demo_node = (Inl e, s') \<and>
     cn_file s' = None"
proof -
  let ?D = "demo_deploy\<lparr>de_answer := (\<lambda>n. if n = 3 then AnswerLost else Answered)\<rparr>"
  have "\<exists>e s'. deploy_main ?D demo_node = (Inl e, s')"
    by (simp add: deploy_main_def fund_def get_balance_def pay_def exchange_def deploy_def Let_def bindA_def ret_run
      demo_deploy_def demo_node_def)
  then obtain e s' where r: "deploy_main ?D demo_node = (Inl e, s')" by blast
  from deploy_failure_keeps_list [OF r] r show ?thesis by (auto simp: demo_node_def)
qed

end
