(* ===== verification/Deployed.thy ===== *)
theory Deployed
  imports Deploy
begin

text \<open>
  The system that \<^verbatim>\<open>deploy.ts\<close> leaves behind: which rights the script withholds, and what anybody can do with the
  rights it gives away.
\<close>

subsection \<open>Withheld rights\<close>

text \<open>The treasury is not the minter of the routing and residue tokens, and no bridger is admitted.\<close>

definition blocked :: "(nat \<Rightarrow> address) \<Rightarrow> address \<Rightarrow> contract option \<Rightarrow> bool" where
  "blocked A a c \<longleftrightarrow>
     (a = A 4 \<or> a = A 5 \<longrightarrow> (\<exists>k. c = Some (Token k) \<and> bt_minter k \<noteq> A 6)) \<and>
     (a = A 6 \<longrightarrow> (\<exists>k. c = Some (TreasuryOf k) \<and> qt_routing k = A 4 \<and> qt_residue k = A 5)) \<and>
     (a = A 10 \<longrightarrow> (\<exists>k. c = Some (Anchors k) \<and> ea_bridgers k = (\<lambda>_. False)))"

text \<open>The calls that would mend it.\<close>

fun hands_over :: "(nat \<Rightarrow> address) \<Rightarrow> message_call \<Rightarrow> bool" where
  "hands_over A (now, s, a, SetMinter m) \<longleftrightarrow> (a = A 4 \<or> a = A 5) \<and> m = A 6"
| "hands_over A (now, s, a, SetBridger b ok) \<longleftrightarrow> a = A 10 \<and> ok"
| "hands_over A q \<longleftrightarrow> False"

lemma blocked_save:
  assumes "blocked A a (Some c)"
  shows "as_token c = None \<Longrightarrow> as_treasury c = None \<Longrightarrow> as_anchors c = None \<Longrightarrow> blocked A a x"
    and "as_token c = Some k \<Longrightarrow> bt_minter k' = bt_minter k \<Longrightarrow> blocked A a (Some (Token k'))"
    and "as_treasury c = Some t \<Longrightarrow> qt_routing t' = qt_routing t \<Longrightarrow> qt_residue t' = qt_residue t \<Longrightarrow> blocked A a (Some (TreasuryOf t'))"
    and "as_anchors c = Some e \<Longrightarrow> ea_bridgers e' = ea_bridgers e \<Longrightarrow> blocked A a (Some (Anchors e'))"
  using assms by (auto simp: blocked_def)

lemma blocked_ownership: "blocked A a (Some c) \<Longrightarrow> blocked A a (Some (with_owner b c))"
  by (cases c) (auto simp: blocked_def)

lemma blocked_tokens: "keeps (blocked A) (mint t s j v)" "keeps (blocked A) (spend lib t s j v)"
  unfolding mint_def spend_def by (intro keeps_intros; auto elim: blocked_save)+

lemma blocked_create: "keeps (blocked A) (create a s n as)"
  by (rule keeps_create) (simp add: blocked_def)

lemma blocked_exec: "\<not> hands_over A q \<Longrightarrow> keeps (blocked A) (exec lib q)"
  by (cases "(lib, q)" rule: exec.cases)
    (auto simp: other_op_defs nested_op_defs Let_def token_op_defs
      intro!: keeps_intros blocked_create blocked_tokens blocked_ownership keeps_bind [OF blocked_tokens(1)] keeps_bind [OF blocked_tokens(2)]
      elim: blocked_save, auto simp: blocked_def)

interpretation withheld: chain_invariant lib "blocked A" "\<lambda>q. \<not> hands_over A q" for lib A
  by unfold_locales (rule blocked_exec)

lemma mint_refused: "w t = Some (Token k) \<Longrightarrow> bt_minter k \<noteq> s \<Longrightarrow> mint t s i v w \<noteq> Inr p"
  by (auto simp: mint_def)

lemma claim_refused:
  assumes "\<forall>a. blocked A a (w a)"
  shows "claim_epoch_rewards lib (A 6) s i e w \<noteq> Inr p"
proof
  assume "claim_epoch_rewards lib (A 6) s i e w = Inr p"
  moreover obtain k where k: "w (A 6) = Some (TreasuryOf k)" "qt_routing k = A 4"
    using assms [rule_format, of "A 6"] by (auto simp: blocked_def)
  ultimately obtain v w1 u1 w2 u2 w3 u3 u4 where
    m: "mint (qt_compute k) (A 6) i v w = Inr (u1, w1)" "mint (qt_memory k) (A 6) i v w1 = Inr (u2, w2)"
      "mint (qt_sync k) (A 6) i v w2 = Inr (u3, w3)" "mint (A 4) (A 6) i v w3 = Inr u4"
    unfolding claim_epoch_rewards_def Let_def only_owner_def by auto
  have "\<forall>a. blocked A a (w3 a)" using m(1,2,3) blocked_tokens(1) [of A] assms unfolding keeps_def by meson
  then obtain t where "w3 (A 4) = Some (Token t)" "bt_minter t \<noteq> A 6" by (auto simp: blocked_def)
  with m(4) mint_refused show False by metis
qed

lemma issue_refused:
  assumes "\<forall>a. blocked A a (w a)" "kind = 3 \<or> kind = 4"
  shows "issue lib (A 6) s i kind v w \<noteq> Inr p"
proof
  assume i: "issue lib (A 6) s i kind v w = Inr p"
  obtain k where k: "w (A 6) = Some (TreasuryOf k)" "qt_routing k = A 4" "qt_residue k = A 5"
    using assms(1) [rule_format, of "A 6"] by (auto simp: blocked_def)
  with i assms(2) have "mint (A 4) (A 6) i v w = Inr p \<or> mint (A 5) (A 6) i v w = Inr p"
    by (auto simp: issue_def token_of_def only_owner_def)
  then obtain t where t: "t = A 4 \<or> t = A 5" "mint t (A 6) i v w = Inr p" by blast
  then obtain m where "w t = Some (Token m)" "bt_minter m \<noteq> A 6"
    using assms(1) [rule_format, of t] by (auto simp: blocked_def)
  with t(2) mint_refused show False by metis
qed

lemma commit_refused:
  assumes "\<forall>a. blocked A a (w a)"
  shows "commit_anchor (A 10) s now e an w \<noteq> Inr p"
  using assms [rule_format, of "A 10"] by (auto simp: blocked_def commit_anchor_def)

lemma addresses_differ:
  assumes "distinct (map A [0..<14])" "i < 14" "j < 14"
  shows "A i = A j \<longleftrightarrow> i = (j :: nat)"
  using nth_eq_iff_index_eq [OF assms(1), of i j] assms(2,3) by simp

lemma deployed_blocked:
  assumes "distinct (map A [0..<14])"
  shows "blocked A a (deployed acc A a)"
  unfolding blocked_def deployed_def
  by (auto simp: addresses_differ [OF assms] new_treasury_def new_epoch_anchor_def simp del: One_nat_def)

text \<open>C29: the deployment withholds rights that the system needs.  Whatever happens on the deployed system, as long as the
  owner neither gives the treasury the minting of the routing or residue token nor admits a bridger, no
  reward can ever be claimed, no routing or residue tokens can be issued, and no anchor can be committed.\<close>

theorem deployed_rights_withheld:
  assumes "distinct (map A [0..<14])" "list_all (\<lambda>q. \<not> hands_over A q) qs"
  shows "claim_epoch_rewards lib (A 6) s i e (chain_after lib (deployed acc A) qs) \<noteq> Inr p \<and>
    issue lib (A 6) s i 3 v (chain_after lib (deployed acc A) qs) \<noteq> Inr p' \<and>
    issue lib (A 6) s i 4 v (chain_after lib (deployed acc A) qs) \<noteq> Inr p' \<and>
    commit_anchor (A 10) s now epoch an (chain_after lib (deployed acc A) qs) \<noteq> Inr p''"
proof -
  have "\<forall>a. blocked A a (chain_after lib (deployed acc A) qs a)"
    by (intro allI withheld.history assms(2) deployed_blocked assms(1))
  then show ?thesis by (simp add: claim_refused issue_refused commit_refused)
qed

theorem deployed_rights_withheld_witness:
  "\<forall>p. claim_epoch_rewards demo_oz 7 1 1 5 (chain_after demo_oz (deployed 1 (\<lambda>n. word_of_nat (n + 1)))
     [(3, 1, 1, MintStack [] [1, 1, 1, 1, 1] 0 0)]) \<noteq> Inr p"
  using deployed_rights_withheld [of "\<lambda>n. word_of_nat (n + 1)" "[(3, 1, 1, MintStack [] [1, 1, 1, 1, 1] 0 0)]"]
  by (simp add: upt_rec)

subsection \<open>Tokens for everybody\<close>

lemma half_of: "unat b < 2 ^ 236 \<Longrightarrow> mul_u b 500000 = Inr (b * 500000) \<and> b * 500000 div million = b div 2"
  for b :: uint
  by (auto simp: mul_u_def million_def word_unat_eq_iff unat_word_ariths unat_div)

lemma add_zero: "add_u 0 b = Inr b"
  by (simp add: add_u_iff)

lemma mint_stack_run:
  assumes "oz_ok lib" "w t = Some (Identity k)" "si_owners k (si_nextTokenId k) = None" "s \<noteq> 0" "oz_accepts lib s"
    "si_nextTokenId k = 1"
  shows "\<exists>k'. transact lib w (now, s, t, MintStack pk [0, 0, 0, 0, 0] 0 0) = w(t \<mapsto> Identity k') \<and> si_owners k' 1 = Some s"
proof -
  have "oz_safeMint lib (si_owners k) s 1 = Inr ((si_owners k)(1 \<mapsto> s))" using assms safeMint_iff by metis
  moreover have "add_u 1 1 = Inr 2" by (simp add: add_u_def)
  ultimately show ?thesis using assms
    by (simp add: transact_def discard_def mint_stack_def tx_eval lift_result_def Let_def retT_def)
      (rule exI, rule conjI, rule refl, simp)
qed

lemma detect_run:
  assumes "w t = Some (Residues k)" "cr_detectedAt (rg_residue k r) = 0" "b \<le> MAX_BOUNTY"
  shows "\<exists>k' c. transact lib w (now, s, t, Detect r 0 1 b) = w(t \<mapsto> Residues k') \<and> rg_residue k' r = c \<and>
    cr_detectedAt c = now \<and> cr_status c = Open \<and> cr_bountyEst c = b \<and> rg_identity k' = rg_identity k \<and> rg_token k' = rg_token k"
  using assms by (simp add: transact_def detect_def tx_eval lift_result_def residue_kind_of_def)
    (rule exI, rule conjI, rule refl, simp)

lemma owner_of_run: "oz_ok lib \<Longrightarrow> w t = Some (Identity k) \<Longrightarrow> si_owners k i = Some a \<Longrightarrow> owner_of lib t i w = Inr (a, w)"
  by (simp add: owner_of_def tx_eval ownerOf_iff)

lemma submit_run:
  assumes "oz_ok lib" "w t = Some (Residues k)" "cr_detectedAt (rg_residue k r) \<noteq> 0" "cr_status (rg_residue k r) = Open"
    "w (rg_identity k) = Some (Identity d)" "si_owners d i = Some s" "rg_token k \<noteq> t"
    "w (rg_token k) = Some (Token m)" "bt_minter m = t" "bt_balance m i = 0" "bt_totalSupply m = 0"
  shows "\<exists>k'. transact lib w (now, s, t, SubmitProof r i p) = w(t \<mapsto> Residues k', rg_token k \<mapsto>
    Token (m\<lparr>bt_balance := (bt_balance m)(i := cr_bountyEst (rg_residue k r)), bt_totalSupply := cr_bountyEst (rg_residue k r)\<rparr>))"
  using assms owner_of_run [of lib w "rg_identity k" d i s]
  by (simp add: transact_def submit_proof_def mint_def tx_eval lift_result_def Let_def add_zero)
    (rule exI, rule refl)

lemma authorize_run:
  assumes "oz_ok lib" "w t = Some (Token k)" "w (bt_identity k) = Some (Identity d)" "si_owners d i = Some s"
  shows "transact lib w (now, s, t, AuthorizeSleeve i x True) =
    w(t \<mapsto> Token (k\<lparr>bt_authorized := (bt_authorized k)(i := (bt_authorized k i)(x := True))\<rparr>))"
  using assms owner_of_run [of lib w "bt_identity k" d i s]
  by (simp add: transact_def authorize_sleeve_def only_stack_owner_def is_stack_owner_def tx_eval)

lemma quote_fresh:
  "unat b < 2 ^ 236 \<Longrightarrow> sw_baseRate k = 500000 \<Longrightarrow> sw_floorRate k = 100000 \<Longrightarrow> quote k b e e = Inr (b div 2)"
  using half_of [of b] by (simp add: quote_def sub_u_def Let_def)

lemma swap_run:
  assumes "w t = Some (SwapOf k)" "\<not> sw_paused k" "quote k b e e = Inr v" "0 < b" "0 < v"
    "sw_consumedAgent k i e = 0" "sw_consumedGlobal k e = 0" "v \<le> sw_agentCap k" "v \<le> sw_globalCap k"
    "w (sw_residueToken k) = Some (Token m)" "bt_authorized m i t" "bt_balance m i = b" "bt_totalSupply m = b"
    "w (sw_routingToken k) = Some (Token n)" "bt_minter n = t" "bt_balance n i = 0" "bt_totalSupply n = 0"
    "sw_residueToken k \<noteq> t" "sw_routingToken k \<noteq> t" "sw_routingToken k \<noteq> sw_residueToken k"
  shows "transact lib w (now, s, t, Swap i b e e) (sw_routingToken k) =
    Some (Token (n\<lparr>bt_balance := (bt_balance n)(i := v), bt_totalSupply := v\<rparr>))"
proof -
  have "sub_u b b = Inr 0" by (simp add: sub_u_def)
  with assms show ?thesis
    by (simp add: transact_def swap_def spend_def mint_def tx_eval lift_result_def Let_def add_zero)
qed

text \<open>C28: tokens for everybody.  On the deployed system any account without any right gets, with five transactions of its own, routing
  tokens of its choice up to the cap of an epoch: it mints an identity, reports a residue with a bounty it
  names, proves it with any bytes, authorizes the swap and swaps the bounty.\<close>

theorem anyone_mints_routing:
  assumes "oz_ok lib" "distinct (map A [0..<14])" "s \<noteq> 0" "oz_accepts lib s" "now \<noteq> 0" "2 \<le> b" "b \<le> 100 * ether"
  shows "\<exists>k. chain_after lib (deployed acc A)
      [(now, s, A 0, MintStack pk [0, 0, 0, 0, 0] 0 0), (now, s, A 9, Detect r 0 1 b), (now, s, A 9, SubmitProof r 1 p),
       (now, s, A 5, AuthorizeSleeve 1 (A 12) True), (now, s, A 12, Swap 1 b e e)] (A 4) = Some (Token k) \<and>
    bt_balance k 1 = b div 2 \<and> bt_totalSupply k = b div 2"
proof -
  let ?w0 = "deployed acc A"
  note ne [simp] = addresses_differ [OF assms(2)]
  have b: "unat b < 2 ^ 236" "b \<le> MAX_BOUNTY" "0 < b" "0 < b div 2" "b div 2 \<le> 50 * ether" "b div 2 \<le> 5000 * ether"
    using assms(6,7) by (simp_all add: ether_def MAX_BOUNTY_def word_le_nat_alt word_less_nat_alt unat_div)
  have w0: "?w0 (A 0) = Some (Identity ((new_identity acc)\<lparr>si_routers := (\<lambda>_. False)(A 7 := True)\<rparr>))"
    "?w0 (A 4) = Some (Token ((new_token acc ''ECCA RoutingToken'' ''RTE'' (A 0))\<lparr>bt_minter := A 12\<rparr>))"
    "?w0 (A 5) = Some (Token ((new_token acc ''ECCA ResidueToken'' ''RES'' (A 0))\<lparr>bt_minter := A 9\<rparr>))"
    "?w0 (A 9) = Some (Residues (new_residue_registry acc (A 5) (A 0)))"
    "?w0 (A 12) = Some (SwapOf ((new_swap acc (A 5) (A 4))\<lparr>sw_oracle := A 13\<rparr>))"
    by (simp_all add: deployed_def del: One_nat_def)
  have "\<exists>d. transact lib ?w0 (now, s, A 0, MintStack pk [0, 0, 0, 0, 0] 0 0) = ?w0(A 0 \<mapsto> Identity d) \<and> si_owners d 1 = Some s"
    by (rule mint_stack_run [of lib ?w0 "A 0", OF assms(1) w0(1)]) (simp_all add: new_identity_def assms(3,4))
  then obtain d where d: "transact lib ?w0 (now, s, A 0, MintStack pk [0, 0, 0, 0, 0] 0 0) = ?w0(A 0 \<mapsto> Identity d)" "si_owners d 1 = Some s"
    by blast
  obtain k where k: "transact lib (?w0(A 0 \<mapsto> Identity d)) (now, s, A 9, Detect r 0 1 b) = ?w0(A 0 \<mapsto> Identity d, A 9 \<mapsto> Residues k)"
    "cr_detectedAt (rg_residue k r) = now" "cr_status (rg_residue k r) = Open" "cr_bountyEst (rg_residue k r) = b"
    "rg_identity k = A 0" "rg_token k = A 5"
    using detect_run [of "?w0(A 0 \<mapsto> Identity d)" "A 9" "new_residue_registry acc (A 5) (A 0)" r b lib now s] w0(4) b(2)
    by (auto simp: new_residue_registry_def simp del: One_nat_def)
  let ?m = "(new_token acc ''ECCA ResidueToken'' ''RES'' (A 0))\<lparr>bt_minter := A 9, bt_balance := (\<lambda>_. 0)(1 := b), bt_totalSupply := b\<rparr>"
  let ?w2 = "?w0(A 0 \<mapsto> Identity d, A 9 \<mapsto> Residues k)"
  have "\<exists>k'. transact lib ?w2 (now, s, A 9, SubmitProof r 1 p) = ?w2(A 9 \<mapsto> Residues k', A 5 \<mapsto> Token ?m)"
    using submit_run [of lib ?w2 "A 9" k r d 1 s "(new_token acc ''ECCA ResidueToken'' ''RES'' (A 0))\<lparr>bt_minter := A 9\<rparr>" now p]
      w0(3) k assms(1,5) d(2) by (simp add: new_token_def del: One_nat_def)
  then obtain k' where k': "transact lib ?w2 (now, s, A 9, SubmitProof r 1 p) = ?w2(A 9 \<mapsto> Residues k', A 5 \<mapsto> Token ?m)" by blast
  let ?w3 = "?w2(A 9 \<mapsto> Residues k', A 5 \<mapsto> Token ?m)"
  let ?m4 = "?m\<lparr>bt_authorized := (bt_authorized ?m)(1 := (bt_authorized ?m 1)(A 12 := True))\<rparr>"
  have a: "transact lib ?w3 (now, s, A 5, AuthorizeSleeve 1 (A 12) True) = ?w3(A 5 \<mapsto> Token ?m4)"
    by (rule authorize_run [of _ _ _ _ d, OF assms(1)]) (simp_all add: d(2) new_token_def del: One_nat_def)
  let ?n = "(new_token acc ''ECCA RoutingToken'' ''RTE'' (A 0))\<lparr>bt_minter := A 12\<rparr>"
  let ?sw = "(new_swap acc (A 5) (A 4))\<lparr>sw_oracle := A 13\<rparr>"
  have q: "quote ?sw b e e = Inr (b div 2)" by (rule quote_fresh [OF b(1)]) (simp_all add: new_swap_def)
  have "transact lib (?w3(A 5 \<mapsto> Token ?m4)) (now, s, A 12, Swap 1 b e e) (sw_routingToken ?sw) =
      Some (Token (?n\<lparr>bt_balance := (bt_balance ?n)(1 := b div 2), bt_totalSupply := b div 2\<rparr>))"
    by (rule swap_run [where k = ?sw and m = ?m4, OF _ _ q b(3,4)])
      (use w0 b in \<open>simp_all add: new_swap_def new_token_def del: One_nat_def\<close>)
  moreover have "sw_routingToken ?sw = A 4" by (simp add: new_swap_def)
  ultimately have "chain_after lib ?w0
      [(now, s, A 0, MintStack pk [0, 0, 0, 0, 0] 0 0), (now, s, A 9, Detect r 0 1 b), (now, s, A 9, SubmitProof r 1 p),
       (now, s, A 5, AuthorizeSleeve 1 (A 12) True), (now, s, A 12, Swap 1 b e e)] (A 4) =
      Some (Token (?n\<lparr>bt_balance := (bt_balance ?n)(1 := b div 2), bt_totalSupply := b div 2\<rparr>))"
    by (simp only: chain_after_def foldl.simps d(1) k(1) k' a)
  then show ?thesis by simp
qed

theorem anyone_mints_routing_witness:
  "\<exists>k. chain_after demo_oz (deployed 1 (\<lambda>n. word_of_nat (n + 1)))
      [(3, 99, 1, MintStack [] [0, 0, 0, 0, 0] 0 0), (3, 99, 10, Detect [] 0 1 ether), (3, 99, 10, SubmitProof [] 1 []),
       (3, 99, 6, AuthorizeSleeve 1 13 True), (3, 99, 13, Swap 1 ether 0 0)] 5 = Some (Token k) \<and> bt_balance k 1 = ether div 2"
proof -
  have "distinct (map (\<lambda>n. word_of_nat (n + 1) :: address) [0..<14])" "oz_accepts demo_oz 99" "2 \<le> ether" "ether \<le> 100 * ether"
    by (simp_all add: upt_rec demo_oz_def ether_def)
  from anyone_mints_routing [where now = 3 and acc = 1 and pk = "[]" and r = "[]" and p = "[]" and e = 0,
    OF oz_ok_demo this(1) _ this(2) _ this(3,4)] show ?thesis by auto
qed

end
