(* ===== verification/SwapRate.thy ===== *)
theory SwapRate
  imports MarketContracts
begin

text \<open>
  The exchange rate of \<^verbatim>\<open>contracts/src/ResidueToRoutingSwap.sol\<close>: what \<open>quote\<close> computes on words is the decay curve on
  natural numbers, between the floor and the base rate.
\<close>

fun decayed :: "nat \<Rightarrow> nat \<Rightarrow> nat \<Rightarrow> nat" where
  "decayed d 0 m = m"
| "decayed d (Suc n) m = decayed d n (m * (1000000 - d) div 1000000)"

lemma decay_le: "m * (1000000 - d) div 1000000 \<le> (m :: nat)"
proof -
  have "m * (1000000 - d) div 1000000 \<le> m * 1000000 div 1000000" by (intro div_le_mono mult_le_mono) simp_all
  then show ?thesis by simp
qed

lemma decayed_mono: "m \<le> m' \<Longrightarrow> decayed d n m \<le> decayed d n m'"
  by (induction n arbitrary: m m') (simp_all add: div_le_mono)

lemma decayed_Suc: "decayed d (Suc n) m \<le> decayed d n m"
  by (simp add: decayed_mono decay_le)

lemma decayed_antimono: "n \<le> n' \<Longrightarrow> decayed d n' m \<le> decayed d n m"
  by (rule lift_Suc_antimono_le [where f = "\<lambda>n. decayed d n m"]) (rule decayed_Suc)

lemma decayed_le: "decayed d n m \<le> m"
  using decayed_antimono [of 0 n d m] by simp

lemma unat_million: "unat million = 1000000"
  by (simp add: million_def)

lemma mul_u_some: "unat a * unat b < 2 ^ 256 \<Longrightarrow> \<exists>c. mul_u a b = Inr c \<and> unat c = unat a * unat b"
  by (metis mul_u_def mul_u_iff)

lemma decay_round_eq:
  assumes "sw_decayRate k \<le> million" "unat m * 1000000 < 2 ^ 256"
  shows "\<exists>x. decay_round k m = Inr x \<and> unat x = unat m * (1000000 - unat (sw_decayRate k)) div 1000000"
proof -
  obtain f where f: "sub_u million (sw_decayRate k) = Inr f" using assms(1) by (simp add: sub_u_def)
  then have uf: "unat f = 1000000 - unat (sw_decayRate k)" by (simp add: sub_u_iff unat_million)
  have "unat m * unat f \<le> unat m * 1000000" by (intro mult_le_mono) (simp_all add: uf)
  from mul_u_some [OF le_less_trans [OF this assms(2)]]
  obtain p where p: "mul_u m f = Inr p" "unat p = unat m * unat f" by blast
  with f uf show ?thesis by (simp add: decay_round_def unat_div unat_million)
qed

lemma decay_rounds_eq:
  assumes "sw_decayRate k \<le> million" "unat m * 1000000 < 2 ^ 256"
  shows "\<exists>x. decay_rounds k n m = Inr x \<and> unat x = decayed (unat (sw_decayRate k)) n (unat m)"
  using assms(2)
proof (induction n arbitrary: m)
  case (Suc n)
  obtain x where x: "decay_round k m = Inr x" "unat x = unat m * (1000000 - unat (sw_decayRate k)) div 1000000"
    using decay_round_eq [OF assms(1) Suc.prems] by blast
  have "unat x * 1000000 \<le> unat m * 1000000" unfolding x(2) by (intro mult_le_mono decay_le) simp
  with Suc.prems have "unat x * 1000000 < 2 ^ 256" by linarith
  with Suc.IH [of x] x show ?case by auto
qed simp

definition rate_after :: "residue_swap \<Rightarrow> nat \<Rightarrow> nat" where
  "rate_after k n = max (unat (sw_floorRate k)) (decayed (unat (sw_decayRate k)) (min n 200) (unat (sw_baseRate k)))"

lemma rate_bounds: "unat (sw_floorRate k) \<le> rate_after k n"
  "unat (sw_floorRate k) \<le> unat (sw_baseRate k) \<Longrightarrow> rate_after k n \<le> unat (sw_baseRate k)"
  "m \<le> n \<Longrightarrow> rate_after k n \<le> rate_after k m"
  using decayed_antimono [of "min m 200" "min n 200"] by (auto simp: rate_after_def decayed_le max.coboundedI2)

lemma quote_rate:
  assumes "sw_decayRate k \<le> million" "sw_floorRate k \<le> sw_baseRate k" "unat (sw_baseRate k) * 1000000 < 2 ^ 256"
    and "unat amount * unat (sw_baseRate k) < 2 ^ 256" "resolved \<le> e"
  shows "\<exists>out. quote k amount resolved e = Inr out \<and> unat out = unat amount * rate_after k (unat (e - resolved)) div 1000000"
proof -
  obtain m where m: "decay_rounds k (min (unat (e - resolved)) 200) (sw_baseRate k) = Inr m"
    "unat m = decayed (unat (sw_decayRate k)) (min (unat (e - resolved)) 200) (unat (sw_baseRate k))"
    using decay_rounds_eq [OF assms(1,3)] by blast
  let ?m = "if m < sw_floorRate k then sw_floorRate k else m"
  have r: "unat ?m = rate_after k (unat (e - resolved))"
    using m(2) by (simp add: rate_after_def word_less_nat_alt max_def)
  have "unat ?m \<le> unat (sw_baseRate k)" unfolding r by (rule rate_bounds(2)) (use assms(2) in \<open>simp add: word_le_nat_alt\<close>)
  then have "unat amount * unat ?m \<le> unat amount * unat (sw_baseRate k)" by (intro mult_le_mono) simp_all
  from mul_u_some [OF le_less_trans [OF this assms(4)]]
  obtain p where p: "mul_u amount ?m = Inr p" "unat p = unat amount * unat ?m" by blast
  have s: "sub_u e resolved = Inr (e - resolved)" using assms(5) by (simp add: sub_u_def)
  show ?thesis
    unfolding quote_def using assms(5) by (simp add: s m(1) p(1) Let_def unat_div unat_million p(2) r)
qed

text \<open>C34: the rate curve of the swap.  With a decay of at most the whole and a floor of at most the base rate, \<open>quote\<close> reverts
  for no amount whose product with the base rate fits a word; what it pays lies between the floor and the
  base rate, is the base rate in the epoch of the resolution, never grows with the age of the residue and
  no longer changes after 200 epochs.\<close>

theorem quote_bounds:
  assumes "sw_decayRate k \<le> million" "sw_floorRate k \<le> sw_baseRate k" "unat (sw_baseRate k) * 1000000 < 2 ^ 256"
    and "unat amount * unat (sw_baseRate k) < 2 ^ 256" "resolved \<le> e" "e \<le> e'"
  shows "\<exists>out out'. quote k amount resolved e = Inr out \<and> quote k amount resolved e' = Inr out' \<and>
    unat amount * unat (sw_floorRate k) div 1000000 \<le> unat out' \<and> out' \<le> out \<and>
    unat out \<le> unat amount * unat (sw_baseRate k) div 1000000 \<and>
    (e = resolved \<longrightarrow> unat out = unat amount * unat (sw_baseRate k) div 1000000) \<and>
    (200 \<le> e - resolved \<longrightarrow> out' = out)"
proof -
  have d: "unat (e - resolved) \<le> unat (e' - resolved)" using assms(5,6) by (simp add: unat_sub word_le_nat_alt)
  have f: "unat (sw_floorRate k) \<le> unat (sw_baseRate k)" using assms(2) by (simp add: word_le_nat_alt)
  obtain out where o: "quote k amount resolved e = Inr out"
      "unat out = unat amount * rate_after k (unat (e - resolved)) div 1000000"
    using quote_rate [OF assms(1-5)] by blast
  obtain out' where o': "quote k amount resolved e' = Inr out'"
      "unat out' = unat amount * rate_after k (unat (e' - resolved)) div 1000000"
    using quote_rate [OF assms(1-4) order_trans [OF assms(5,6)]] by blast
  have "rate_after k 0 = unat (sw_baseRate k)" using f by (simp add: rate_after_def)
  then have z: "e = resolved \<Longrightarrow> unat out = unat amount * unat (sw_baseRate k) div 1000000" using o(2) by simp
  have s: "out' = out" if "200 \<le> e - resolved"
  proof -
    have "200 \<le> unat (e - resolved)" using that by (simp add: word_le_nat_alt)
    with d have "rate_after k (unat (e' - resolved)) = rate_after k (unat (e - resolved))" by (simp add: rate_after_def)
    then show ?thesis using o(2) o'(2) by (simp add: word_unat_eq_iff)
  qed
  have l: "unat out' \<le> unat out" "unat amount * unat (sw_floorRate k) div 1000000 \<le> unat out'"
    "unat out \<le> unat amount * unat (sw_baseRate k) div 1000000"
    unfolding o(2) o'(2) by (intro div_le_mono mult_le_mono2 rate_bounds(1) rate_bounds(2) [OF f] rate_bounds(3) [OF d])+
  then have "out' \<le> out" by (simp add: word_le_nat_alt)
  with o(1) o'(1) z s l show ?thesis by blast
qed

theorem quote_bounds_witness:
  "\<exists>out. quote (new_swap 1 2 3) 4000000 7 7 = Inr out \<and> unat out = 2000000"
  using quote_bounds [of "new_swap 1 2 3" 4000000 7 7 300]
  by (auto simp: new_swap_def million_def)

text \<open>With the parameters of the constructor the floor is reached after 32 epochs.\<close>

lemma decayed_numeral: "decayed d (numeral n) m = decayed d (pred_numeral n) (m * (1000000 - d) div 1000000)"
  by (simp only: numeral_eq_Suc decayed.simps)

lemma floor_after_32: "32 \<le> n \<Longrightarrow> rate_after (new_swap a b c) n = 100000"
proof -
  assume n: "32 \<le> n"
  have "decayed 50000 32 500000 = 96848" by (simp add: decayed_numeral)
  then have "decayed 50000 (min n 200) 500000 \<le> 96848"
    using decayed_antimono [of 32 "min n 200" 50000 500000] n by simp
  then show ?thesis by (simp add: rate_after_def new_swap_def)
qed

end
