(* ===== verification/ShardProof.thy ===== *)
theory ShardProof
  imports RegistryContracts Thalamus
begin

text \<open>
  The two ends of an anchored root: \<^verbatim>\<open>services/thalamus-router\<close> computes it with \<^verbatim>\<open>merkleRoot\<close> of
  \<^verbatim>\<open>packages/crypto\<close>, and \<^verbatim>\<open>EpochAnchor.verifyShardInclusion\<close> is to check proofs against it.  One hashes with
  SHA-256 and tells leaves from nodes by a first byte, the other with Keccak and without.
\<close>

fun shard_inputs :: "oz \<Rightarrow> bytes \<Rightarrow> bytes list \<Rightarrow> uint \<Rightarrow> bytes list" where
  "shard_inputs oz cur [] bits = []"
| "shard_inputs oz cur (s # ss) bits = (let x = (if bit bits 0 then s @ cur else cur @ s) in
     x # shard_inputs oz (oz_keccak oz x) ss (drop_bit 1 bits))"

lemma fold_siblings_input:
  "ss \<noteq> [] \<Longrightarrow> \<exists>y \<in> set (shard_inputs oz cur ss bits). fold_siblings oz cur ss bits = oz_keccak oz y"
proof (induction ss arbitrary: cur bits)
  case (Cons s ss)
  let ?x = "if bit bits 0 then s @ cur else cur @ s"
  have f: "fold_siblings oz cur (s # ss) bits = fold_siblings oz (oz_keccak oz ?x) ss (drop_bit 1 bits)" by simp
  show ?case
  proof (cases ss)
    case Nil
    then show ?thesis by (simp add: Let_def)
  next
    case (Cons t ts)
    then have "\<exists>y \<in> set (shard_inputs oz (oz_keccak oz ?x) ss (drop_bit 1 bits)).
        fold_siblings oz (oz_keccak oz ?x) ss (drop_bit 1 bits) = oz_keccak oz y" by (intro Cons.IH) simp
    then show ?thesis unfolding f by (simp add: Let_def)
  qed
qed simp

lemma root_digest:
  assumes "noble_ok lib" "leaves \<noteq> []" "hex_of r = merkleRoot lib leaves"
  shows "\<exists>x \<in> set (root_inputs lib leaves). r = n_sha256 lib x"
proof -
  have "hex_of r = hex_of (hd (climb lib (leaf_layer lib leaves)))"
    using assms by (simp add: merkleRoot_def hash_simps)
  then have r: "r = hd (climb lib (leaf_layer lib leaves))" by simp
  have "hd (climb lib (leaf_layer lib leaves)) \<in> set (tree_nodes lib (leaf_layer lib leaves))"
    by (rule climb_in_nodes) (use assms(2) in \<open>simp add: leaf_layer_def\<close>)
  then show ?thesis unfolding r by (cases rule: root_node_cases) auto
qed

text \<open>C36: the contract cannot check what the router anchors.  For a root that the router computed, \<open>verifyShardInclusion\<close>
  accepts the root itself with an empty proof; any proof with a sibling that it accepts exhibits an input
  of the router's tree and an input of the contract whose SHA-256 and Keccak digests are equal.\<close>

theorem inclusion_needs_collision:
  assumes "noble_ok lib" "leaves \<noteq> []" "ca_ts (ea_byEpoch k epoch) \<noteq> 0"
    and "hex_of (ca_sleevesRoot (ea_byEpoch k epoch)) = fold_root lib leaves"
  shows "(verify_shard_inclusion oz k epoch 2 leaf [] bits \<longleftrightarrow> hex_of leaf = fold_root lib leaves) \<and>
    (sibs \<noteq> [] \<longrightarrow> verify_shard_inclusion oz k epoch 2 leaf sibs bits \<longrightarrow>
      (\<exists>x \<in> set (root_inputs lib (map Str leaves)). \<exists>y \<in> set (shard_inputs oz leaf sibs bits).
        n_sha256 lib x = oz_keccak oz y))"
proof -
  let ?r = "ca_sleevesRoot (ea_byEpoch k epoch)"
  have m: "hex_of ?r = merkleRoot lib (map Str leaves)" using assms(2,4) by (simp add: fold_root_def)
  have v: "verify_shard_inclusion oz k epoch 2 leaf sibs bits \<longleftrightarrow> fold_siblings oz leaf sibs bits = ?r" for sibs
    using assms(3) by (simp add: verify_shard_inclusion_def Let_def)
  have "verify_shard_inclusion oz k epoch 2 leaf [] bits \<longleftrightarrow> hex_of leaf = fold_root lib leaves"
    unfolding v assms(4) [symmetric] by simp
  moreover have "\<exists>x \<in> set (root_inputs lib (map Str leaves)). \<exists>y \<in> set (shard_inputs oz leaf sibs bits).
      n_sha256 lib x = oz_keccak oz y"
    if s: "sibs \<noteq> []" "verify_shard_inclusion oz k epoch 2 leaf sibs bits"
  proof -
    obtain x where x: "x \<in> set (root_inputs lib (map Str leaves))" "?r = n_sha256 lib x"
      using root_digest [OF assms(1) _ m] assms(2) by auto
    obtain y where y: "y \<in> set (shard_inputs oz leaf sibs bits)" "fold_siblings oz leaf sibs bits = oz_keccak oz y"
      using fold_siblings_input [OF s(1)] by blast
    show ?thesis using s(2) x y unfolding v by metis
  qed
  ultimately show ?thesis by blast
qed

text \<open>A root of two events; the leaf of the first alone is refused.\<close>

definition demo_anchors :: epoch_anchor where
  "demo_anchors = (let k = new_epoch_anchor 1 in k\<lparr>ea_byEpoch := (ea_byEpoch k)(3 := (ea_byEpoch k 3)\<lparr>ca_ts := 9,
     ca_sleevesRoot := the (unhex (fold_root demo_noble [''a'', ''b'']))\<rparr>)\<rparr>)"

theorem inclusion_needs_collision_witness:
  "\<not> verify_shard_inclusion demo_oz demo_anchors 3 2 (hashLeaf demo_noble (utf8 ''a'')) [] 0"
proof -
  have root: "fold_root demo_noble [''a'', ''b''] = hex_of (hashNode demo_noble (hashLeaf demo_noble (utf8 ''a'')) (hashLeaf demo_noble (utf8 ''b'')))"
    by (simp add: fold_root_def merkleRoot_def climb.simps leaf_layer_def demo_noble_def)
  have a: "ca_ts (ea_byEpoch demo_anchors 3) \<noteq> 0"
    "hex_of (ca_sleevesRoot (ea_byEpoch demo_anchors 3)) = fold_root demo_noble [''a'', ''b'']"
    by (simp_all add: demo_anchors_def Let_def root)
  have "hashLeaf demo_noble (utf8 ''a'') \<noteq> hashNode demo_noble (hashLeaf demo_noble (utf8 ''a'')) (hashLeaf demo_noble (utf8 ''b''))"
    by code_simp
  then show ?thesis
    using inclusion_needs_collision [OF noble_ok_demo _ a, of demo_oz "hashLeaf demo_noble (utf8 ''a'')" 0] by (simp add: root)
qed

end
