(* ===== verification/Cortex.thy ===== *)
theory Cortex
  imports Prelude
begin

text \<open>
  \<^verbatim>\<open>packages/chain/src/cortex.ts\<close>: the interfaces through which the services call the contracts, and the interfaces
  that the contracts of \<^verbatim>\<open>contracts/src\<close> offer.  A call whose name and argument types no function of a contract has
  reverts, and a log whose event has other types is not found.  Names of arguments and the mutability of
  functions are left out.
\<close>

subsection \<open>Interfaces\<close>

datatype abi_type = UIntT nat | BytesN nat | BytesT | AddressT | BoolT | StringT
  | ArrayOf abi_type | ArrayN nat abi_type | TupleOf "abi_type list"

text \<open>The inputs of an event tell whether they are indexed; a function has inputs and outputs.\<close>

datatype abi_item = Event string "(abi_type \<times> bool) list" | Function string "abi_type list" "abi_type list"

type_synonym abi = "abi_item list"

subsection \<open>What the services expect\<close>

definition STACK_IDENTITY_ABI :: abi where
  "STACK_IDENTITY_ABI = [
     Event ''StackMinted'' [(UIntT 256, True), (AddressT, True), (BytesT, False)],
     Event ''Needlecast'' [(UIntT 256, True), (BytesN 32, False), (UIntT 256, False), (BytesN 32, False), (BytesN 32, False)],
     Event ''CoherenceUpdated'' [(UIntT 256, True), (BytesN 32, False), (UIntT 256, False)],
     Function ''nextTokenId'' [] [UIntT 256],
     Function ''ownerOf'' [UIntT 256] [AddressT],
     Function ''mintStack'' [BytesT, (ArrayN 5 (UIntT 256)), UIntT 256, UIntT 256] [UIntT 256],
     Function ''recordNeedlecast'' [UIntT 256, BytesN 32, UIntT 256, BytesN 32, BytesN 32] [],
     Function ''stackEpoch'' [UIntT 256] [UIntT 256],
     Function ''latestRoot'' [UIntT 256] [BytesN 32]]"

definition BANDWIDTH_TOKEN_ABI :: abi where
  "BANDWIDTH_TOKEN_ABI = [
     Event ''Transfer'' [(AddressT, True), (AddressT, True), (UIntT 256, False)],
     Event ''BandwidthSpent'' [(UIntT 256, True), (AddressT, True), (UIntT 256, False), (BytesN 32, False)],
     Function ''balanceOfStack'' [UIntT 256] [UIntT 256],
     Function ''mint'' [UIntT 256, UIntT 256] [],
     Function ''spend'' [UIntT 256, UIntT 256, BytesN 32] [],
     Function ''symbol'' [] [StringT],
     Function ''name'' [] [StringT]]"

definition RESIDUE_REGISTRY_ABI :: abi where
  "RESIDUE_REGISTRY_ABI = [
     Event ''ResidueDetected'' [(BytesN 32, True), (UIntT 8, False), (UIntT 256, False), (UIntT 256, False)],
     Event ''ResidueResolved'' [(BytesN 32, True), (UIntT 256, True), (UIntT 256, False)],
     Function ''detect'' [BytesN 32, UIntT 8, UIntT 256, UIntT 256] [],
     Function ''submitProof'' [BytesN 32, UIntT 256, BytesT] [],
     Function ''residue'' [BytesN 32] [UIntT 8, UIntT 256, UIntT 256, UIntT 8, UIntT 256, UIntT 256]]"

definition NEEDLECAST_ROUTER_ABI :: abi where
  "NEEDLECAST_ROUTER_ABI = [
     Event ''EpochAnchored'' [(UIntT 256, True), (BytesN 32, False), (AddressT, True)],
     Event ''NeedlecastRouted'' [(UIntT 256, True), (BytesN 32, False), (UIntT 256, False), (BytesN 32, False), (BytesN 32, False)],
     Function ''anchorEpoch'' [BytesN 32, UIntT 256] [],
     Function ''route'' [UIntT 256, BytesN 32, UIntT 256, BytesN 32, BytesN 32] []]"

definition QUELLIST_TREASURY_ABI :: abi where
  "QUELLIST_TREASURY_ABI = [
     Event ''RewardIssued'' [(UIntT 256, True), (UIntT 8, True), (UIntT 256, False), (BytesN 32, False)],
     Function ''issue'' [UIntT 256, UIntT 8, UIntT 256, BytesN 32] [],
     Function ''claim'' [UIntT 256] []]"

definition TRIPARTITE_GAME_ABI :: abi where
  "TRIPARTITE_GAME_ABI = [
     Event ''GameOpened'' [(BytesN 32, True), (AddressT, True)],
     Event ''PartyRegistered'' [(BytesN 32, True), (UIntT 256, True), (BytesN 32, False), (UIntT 256, False), (UIntT 256, False), (UIntT 256, False)],
     Event ''Consumed'' [(BytesN 32, True), (UIntT 256, True), (UIntT 256, True), (UIntT 8, False), (UIntT 256, False), (BytesN 32, False)],
     Event ''AllocationVerified'' [(BytesN 32, True), (UIntT 256, True), (BoolT, False)],
     Function ''openGame'' [BytesN 32] [],
     Function ''registerParty'' [BytesN 32, UIntT 256, BytesN 32, UIntT 256, UIntT 256, UIntT 256] [],
     Function ''consume'' [BytesN 32, UIntT 256, UIntT 256, UIntT 8, UIntT 256, BytesN 32] [],
     Function ''verifyAllocationFair'' [BytesN 32, UIntT 256] [BoolT],
     Function ''auditEpoch'' [BytesN 32, UIntT 256] [BoolT],
     Function ''remainingBudget'' [BytesN 32, UIntT 256, UIntT 256, UIntT 8] [UIntT 256],
     Function ''rosterOf'' [BytesN 32] [ArrayOf (UIntT 256)],
     Function ''budgetOf'' [BytesN 32, UIntT 256] [UIntT 256, UIntT 256, UIntT 256],
     Function ''consumed'' [BytesN 32, UIntT 256, UIntT 256, UIntT 8] [UIntT 256]]"

definition EPOCH_ANCHOR_ABI :: abi where
  "EPOCH_ANCHOR_ABI = [
     Event ''EpochAnchored'' [(UIntT 256, True), (BytesN 32, False), (BytesN 32, False), (UIntT 256, False)],
     Event ''BridgerSet'' [(AddressT, True), (BoolT, False)],
     Function ''setBridger'' [AddressT, BoolT] [],
     Function ''commitAnchor'' [UIntT 256, BytesN 32, BytesN 32, BytesN 32, BytesN 32, BytesN 32, UIntT 256] [],
     Function ''head'' [] [UIntT 256],
     Function ''lastMedullaHeight'' [] [UIntT 256],
     Function ''byEpoch'' [UIntT 256] [BytesN 32, BytesN 32, BytesN 32, BytesN 32, BytesN 32, UIntT 256, UIntT 256],
     Function ''verifyContinuity'' [UIntT 256] [BoolT, BoolT],
     Function ''verifyShardInclusion'' [UIntT 256, UIntT 8, BytesN 32, (ArrayOf (BytesN 32)), UIntT 256] [BoolT]]"

definition TripartiteResource :: "(string \<times> nat) list" where
  "TripartiteResource = [(''Compute'', 0), (''Storage'', 1), (''Bandwidth'', 2)]"

subsection \<open>What the contracts offer\<close>

text \<open>Their events, the getters of their public fields and their external functions; a getter of a record leaves out arrays.\<close>

text \<open>Of the ERC-721 functions the services use one.\<close>

definition identity_interface :: abi where
  "identity_interface = [
     Event ''StackMinted'' [(UIntT 256, True), (AddressT, True), (BytesT, False)],
     Event ''Needlecast'' [(UIntT 256, True), (BytesN 32, False), (UIntT 256, False), (BytesN 32, False), (BytesN 32, False)],
     Event ''CoherenceUpdated'' [(UIntT 256, True), (BytesN 32, False), (UIntT 256, False)],
     Event ''RouterAuthorized'' [(AddressT, True), (BoolT, False)],
     Function ''nextTokenId'' [] [UIntT 256],
     Function ''authorizedRouters'' [AddressT] [BoolT],
     Function ''setRouter'' [AddressT, BoolT] [],
     Function ''mintStack'' [BytesT, (ArrayN 5 (UIntT 256)), UIntT 256, UIntT 256] [UIntT 256],
     Function ''recordNeedlecast'' [UIntT 256, BytesN 32, UIntT 256, BytesN 32, BytesN 32] [],
     Function ''pubkey'' [UIntT 256] [BytesT],
     Function ''stackEpoch'' [UIntT 256] [UIntT 256],
     Function ''latestRoot'' [UIntT 256] [BytesN 32],
     Function ''cpv'' [UIntT 256] [TupleOf [UIntT 256, UIntT 256, UIntT 256, UIntT 256, UIntT 256]],
     Function ''binding'' [UIntT 256] [TupleOf [UIntT 256, UIntT 256]],
     Function ''ownerOf'' [UIntT 256] [AddressT]]"

definition token_interface :: abi where
  "token_interface = [
     Event ''Transfer'' [(UIntT 256, True), (UIntT 256, True), (UIntT 256, False)],
     Event ''Mint'' [(UIntT 256, True), (UIntT 256, False), (BytesN 32, False)],
     Event ''BandwidthSpent'' [(UIntT 256, True), (AddressT, True), (UIntT 256, False), (BytesN 32, False)],
     Event ''SleeveAuthorized'' [(UIntT 256, True), (AddressT, True), (BoolT, False)],
     Event ''MinterChanged'' [(AddressT, True)],
     Function ''name'' [] [StringT],
     Function ''symbol'' [] [StringT],
     Function ''decimals'' [] [UIntT 8],
     Function ''totalSupply'' [] [UIntT 256],
     Function ''balanceOfStack'' [UIntT 256] [UIntT 256],
     Function ''sleeveAuthorized'' [UIntT 256, AddressT] [BoolT],
     Function ''minter'' [] [AddressT],
     Function ''stackIdentity'' [] [AddressT],
     Function ''setMinter'' [AddressT] [],
     Function ''authorizeSleeve'' [UIntT 256, AddressT, BoolT] [],
     Function ''mint'' [UIntT 256, UIntT 256, BytesN 32] [],
     Function ''spend'' [UIntT 256, UIntT 256, BytesN 32] [],
     Function ''transferStack'' [UIntT 256, UIntT 256, UIntT 256] []]"

definition residues_interface :: abi where
  "residues_interface = [
     Event ''ResidueDetected'' [(BytesN 32, True), (UIntT 8, False), (UIntT 256, False), (UIntT 256, False)],
     Event ''ResidueResolved'' [(BytesN 32, True), (UIntT 256, True), (UIntT 256, False)],
     Event ''PayoutModelChanged'' [(StringT, False)],
     Function ''residue'' [BytesN 32] [UIntT 8, UIntT 256, UIntT 256, UIntT 8, UIntT 256, UIntT 256, BytesN 32, UIntT 256, UIntT 256],
     Function ''residueIds'' [UIntT 256] [BytesN 32],
     Function ''residueToken'' [] [AddressT],
     Function ''stackIdentity'' [] [AddressT],
     Function ''payoutModel'' [] [StringT],
     Function ''MAX_BOUNTY'' [] [UIntT 256],
     Function ''setPayoutModel'' [StringT] [],
     Function ''detect'' [BytesN 32, UIntT 8, UIntT 256, UIntT 256] [],
     Function ''submitProof'' [BytesN 32, UIntT 256, BytesT] [],
     Function ''residueCount'' [] [UIntT 256]]"

definition router_interface :: abi where
  "router_interface = [
     Event ''EpochAnchored'' [(UIntT 256, True), (BytesN 32, False), (AddressT, True)],
     Event ''NeedlecastRouted'' [(UIntT 256, True), (BytesN 32, False), (UIntT 256, False), (BytesN 32, False), (BytesN 32, False)],
     Function ''identity'' [] [AddressT],
     Function ''anchors'' [UIntT 256] [BytesN 32, UIntT 256, UIntT 256, AddressT],
     Function ''lastAnchorOf'' [UIntT 256] [UIntT 256],
     Function ''anchorEpoch'' [BytesN 32, UIntT 256] [],
     Function ''route'' [UIntT 256, BytesN 32, UIntT 256, BytesN 32, BytesN 32] [],
     Function ''anchorCount'' [] [UIntT 256]]"

definition treasury_interface :: abi where
  "treasury_interface = [
     Event ''RewardIssued'' [(UIntT 256, True), (UIntT 8, True), (UIntT 256, False), (BytesN 32, False)],
     Event ''EmissionChanged'' [(UIntT 256, False)],
     Function ''compute'' [] [AddressT],
     Function ''memoryT'' [] [AddressT],
     Function ''syncT'' [] [AddressT],
     Function ''routing'' [] [AddressT],
     Function ''residueT'' [] [AddressT],
     Function ''lastClaimEpoch'' [UIntT 256] [UIntT 256],
     Function ''claimable'' [UIntT 256] [UIntT 256],
     Function ''emissionPerEpoch'' [] [UIntT 256],
     Function ''setEmission'' [UIntT 256] [],
     Function ''issue'' [UIntT 256, UIntT 8, UIntT 256, BytesN 32] [],
     Function ''claimEpochRewards'' [UIntT 256, UIntT 256] []]"

definition game_interface :: abi where
  "game_interface = [
     Event ''GameOpened'' [(BytesN 32, True), (AddressT, True)],
     Event ''PartyRegistered'' [(BytesN 32, True), (UIntT 256, True), (BytesN 32, False), (UIntT 256, False), (UIntT 256, False), (UIntT 256, False)],
     Event ''Consumed'' [(BytesN 32, True), (UIntT 256, True), (UIntT 256, True), (UIntT 8, False), (UIntT 256, False), (BytesN 32, False)],
     Event ''AllocationVerified'' [(BytesN 32, True), (UIntT 256, True), (BoolT, False)],
     Function ''RESOURCE_COUNT'' [] [UIntT 8],
     Function ''RES_COMPUTE'' [] [UIntT 8],
     Function ''RES_STORAGE'' [] [UIntT 8],
     Function ''RES_BANDWIDTH'' [] [UIntT 8],
     Function ''computeToken'' [] [AddressT],
     Function ''memoryToken'' [] [AddressT],
     Function ''routingToken'' [] [AddressT],
     Function ''stackIdentity'' [] [AddressT],
     Function ''consumed'' [BytesN 32, UIntT 256, UIntT 256, UIntT 8] [UIntT 256],
     Function ''games'' [BytesN 32] [BoolT],
     Function ''openGame'' [BytesN 32] [],
     Function ''registerParty'' [BytesN 32, UIntT 256, BytesN 32, UIntT 256, UIntT 256, UIntT 256] [],
     Function ''consume'' [BytesN 32, UIntT 256, UIntT 256, UIntT 8, UIntT 256, BytesN 32] [],
     Function ''verifyAllocationFair'' [BytesN 32, UIntT 256] [BoolT],
     Function ''auditEpoch'' [BytesN 32, UIntT 256] [BoolT],
     Function ''remainingBudget'' [BytesN 32, UIntT 256, UIntT 256, UIntT 8] [UIntT 256],
     Function ''rosterOf'' [BytesN 32] [ArrayOf (UIntT 256)],
     Function ''budgetOf'' [BytesN 32, UIntT 256] [UIntT 256, UIntT 256, UIntT 256]]"

definition anchor_interface :: abi where
  "anchor_interface = [
     Event ''EpochAnchored'' [(UIntT 256, True), (BytesN 32, False), (BytesN 32, False), (UIntT 256, False)],
     Event ''BridgerSet'' [(AddressT, True), (BoolT, False)],
     Function ''byEpoch'' [UIntT 256] [BytesN 32, BytesN 32, BytesN 32, BytesN 32, BytesN 32, UIntT 256, UIntT 256],
     Function ''head'' [] [UIntT 256],
     Function ''lastMedullaHeight'' [] [UIntT 256],
     Function ''bridgers'' [AddressT] [BoolT],
     Function ''setBridger'' [AddressT, BoolT] [],
     Function ''commitAnchor'' [UIntT 256, BytesN 32, BytesN 32, BytesN 32, BytesN 32, BytesN 32, UIntT 256] [],
     Function ''verifyContinuity'' [UIntT 256] [BoolT, BoolT],
     Function ''verifyShardInclusion'' [UIntT 256, UIntT 8, BytesN 32, (ArrayOf (BytesN 32)), UIntT 256] [BoolT]]"

subsection \<open>Conformance\<close>

definition unmatched :: "abi \<Rightarrow> abi \<Rightarrow> abi" where
  "unmatched expected offered = filter (\<lambda>i. i \<notin> set offered) expected"


end
