(* ===== verification/Discord.thy ===== *)
theory Discord
  imports Inference Siyana
begin

text \<open>
  \<^verbatim>\<open>scripts/create-discord-channels.js\<close> and \<^verbatim>\<open>scripts/create-discord-threads.js\<close>: they set up the channels and the threads of
  the project's Discord server.  The HTTP interface of Discord is a parameter, an action that answers or throws; of a
  parsed body only the id of what was created, or the list of channels, is looked at.  Strings are the UTF-8
  bytes of the source here.  Waiting and the console are left out.
\<close>

subsection \<open>Requests\<close>

record discord_request =
  dq_method :: string
  dq_url :: string
  dq_headers :: "(string \<times> string) list"
  dq_body :: "json option"

record discord_channel =
  dc_name :: string
  dc_type :: nat
  dc_id :: string

record discord_reply =
  dy_status :: nat
  dy_statusText :: string
  dy_text :: "string result"
  dy_id :: "string result"
  dy_channels :: "discord_channel list result"

type_synonym 's discord = "discord_request \<Rightarrow> ('s, discord_reply) act"

definition discord_call :: "string \<Rightarrow> string \<Rightarrow> string \<Rightarrow> json option \<Rightarrow> discord_request" where
  "discord_call token endpoint meth b = \<lparr>dq_method = meth, dq_url = ''https://discord.com/api/v10'' @ endpoint,
     dq_headers = [(''Authorization'', ''Bot '' @ token), (''Content-Type'', ''application/json'')], dq_body = b\<rparr>"

definition discord_api :: "'s discord \<Rightarrow> discord_request \<Rightarrow> ('s, discord_reply) act" where
  "discord_api D q = bindA (D q) (\<lambda>r.
     if 200 \<le> dy_status r \<and> dy_status r \<le> 299 then ret r
     else bindA (lift (dy_text r)) (\<lambda>t. throwA (dec (dy_status r) @ '' '' @ dy_statusText r @ '': '' @ t)))"

definition created :: "'s discord \<Rightarrow> discord_request \<Rightarrow> ('s, string) act" where
  "created D q = bindA (discord_api D q) (\<lambda>r. lift (dy_id r))"

subsection \<open>Channels\<close>

record channel_plan =
  ch_name :: string
  ch_topic :: string
  ch_type :: "nat option"

record category_plan =
  ca_name :: string
  ca_channels :: "channel_plan list"

definition CATEGORIES :: "category_plan list" where
  "CATEGORIES = [
     category_plan.make (utf8s [240, 159, 147, 162] @ '' Info'') [
       channel_plan.make ''announcements'' ''Launches, releases, and epoch updates'' None,
       channel_plan.make ''roadmap'' ''Milestones and progress updates'' None,
       channel_plan.make ''faq'' ''Common questions and pinned reply'' None],
     category_plan.make (utf8s [240, 159, 146, 172] @ '' General'') [
       channel_plan.make ''general'' ''Open discussion'' None,
       channel_plan.make ''introductions'' (''New members '' @ utf8s [226, 128, 148] @ '' say hello!'') None,
       channel_plan.make ''ideas-and-feedback'' ''Feature requests and suggestions'' None],
     category_plan.make (utf8s [240, 159, 148, 167] @ '' Technical'') [
       channel_plan.make ''dev-general'' ''Engineering discussion'' None,
       channel_plan.make ''chains'' ''Medulla PoW, Hippocampus DAG, Cortex EVM'' None,
       channel_plan.make ''smart-contracts'' ''Solidity, token mechanics, residue registry'' None,
       channel_plan.make ''services'' ''siyana-api, thalamus, compositor, needlecast'' None,
       channel_plan.make ''cryptography'' ''Coherence root, MMR, HKDF, epoch keys'' None,
       channel_plan.make ''infrastructure'' ''Docker, K8s, CI/CD, observability'' None],
     category_plan.make (utf8s [240, 159, 170, 153] @ '' Tokens & Economy'') [
       channel_plan.make ''tokenomics'' ''CPV, EBC, emission curves, bandwidth model'' None,
       channel_plan.make ''residues'' ''Coordination residues, proof submission, bounties'' None],
     category_plan.make (utf8s [240, 159, 140, 144] @ '' Community'') [
       channel_plan.make ''research'' ''Papers, neuroscience parallels, distributed consciousness'' None,
       channel_plan.make ''showcase'' ''Demos, sleeve implementations, agent builds'' None,
       channel_plan.make ''memes'' ''Keep it fun'' None],
     category_plan.make (utf8s [240, 159, 134, 152] @ '' Support'') [
       channel_plan.make ''help'' ''Troubleshooting and setup issues'' None,
       channel_plan.make ''bug-reports'' ''Structured bug reporting'' None],
     category_plan.make (utf8s [240, 159, 148, 138] @ '' Voice'') [
       channel_plan.make ''dev-chat'' ''Working sessions'' (Some 2),
       channel_plan.make ''community-call'' ''Weekly/monthly calls'' (Some 2)],
     category_plan.make (utf8s [240, 159, 148, 146] @ '' Contributors'') [
       channel_plan.make ''contributors'' ''Core team coordination'' None,
       channel_plan.make ''pull-requests'' ''GitHub PR notifications via webhook'' None]]"

definition category_request :: "string \<Rightarrow> string \<Rightarrow> category_plan \<Rightarrow> nat \<Rightarrow> discord_request" where
  "category_request guild token c position = discord_call token (''/guilds/'' @ guild @ ''/channels'') ''POST''
     (Some (JObj [(''name'', JStr (ca_name c)), (''type'', JNum 4), (''position'', JNum (int position))]))"

definition channel_request :: "string \<Rightarrow> string \<Rightarrow> string \<Rightarrow> channel_plan \<Rightarrow> nat \<Rightarrow> discord_request" where
  "channel_request guild token parent c position = discord_call token (''/guilds/'' @ guild @ ''/channels'') ''POST''
     (Some (JObj [(''name'', JStr (ch_name c)), (''type'', JNum (case ch_type c of None \<Rightarrow> 0 | Some t \<Rightarrow> int t)),
       (''topic'', JStr (ch_topic c)), (''parent_id'', JStr parent), (''position'', JNum (int position))]))"

text \<open>The loops return the next position.\<close>

fun make_channels :: "'s discord \<Rightarrow> string \<Rightarrow> string \<Rightarrow> string \<Rightarrow> channel_plan list \<Rightarrow> nat \<Rightarrow> ('s, nat) act" where
  "make_channels D guild token parent [] position = ret position"
| "make_channels D guild token parent (c # cs) position =
     bindA (created D (channel_request guild token parent c position)) (\<lambda>_.
     make_channels D guild token parent cs (position + 1))"

fun make_categories :: "'s discord \<Rightarrow> string \<Rightarrow> string \<Rightarrow> category_plan list \<Rightarrow> nat \<Rightarrow> ('s, nat) act" where
  "make_categories D guild token [] position = ret position"
| "make_categories D guild token (c # cs) position =
     bindA (created D (category_request guild token c position)) (\<lambda>i.
     bindA (make_channels D guild token i (ca_channels c) (position + 1)) (make_categories D guild token cs))"

text \<open>The exit code of the process; the guild and the token come from the environment.\<close>

definition channels_main :: "'s discord \<Rightarrow> string option \<Rightarrow> string option \<Rightarrow> ('s, nat) act" where
  "channels_main D guild token = (case (guild, token) of
     (Some (g # gs), Some (t # ts)) \<Rightarrow>
       tryA (bindA (make_categories D (g # gs) (t # ts) CATEGORIES 0) (\<lambda>_. ret 0)) (\<lambda>_. ret 1)
   | _ \<Rightarrow> ret 1)"

subsection \<open>Threads\<close>

record thread_plan =
  th_name :: string
  th_message :: string

text \<open>The keys are no array indices, so both tables are walked through in the order in which they are written.\<close>

definition THREADS :: "(string \<times> thread_plan list) list" where
  "THREADS = [
     (''1502037511411597542'', [
       thread_plan.make (utf8s [240, 159, 154, 128] @ '' Mainnet Launch Timeline'') ''Discussion thread for mainnet launch milestones and timeline updates.'',
       thread_plan.make (utf8s [240, 159, 147, 139] @ '' Release Notes'') ''Track version releases and changelogs here.'']),
     (''1502037516096639079'', [
       thread_plan.make ''Q3 2026 Milestones'' ''Track Q3 2026 deliverables and progress.'',
       thread_plan.make ''Feature Voting'' ''Vote and discuss upcoming feature priorities.'']),
     (''1502037541002674267'', [
       thread_plan.make ''Getting Started / Dev Setup'' (''How to set up the ECCA development environment '' @ utf8s [226, 128, 148] @ '' Node.js, pnpm, Docker, Go.''),
       thread_plan.make ''Architecture Decisions'' ''Discuss architecture decisions and trade-offs (ADRs).'',
       thread_plan.make ''Code Review Discussion'' ''General code review patterns, style guides, and best practices.'']),
     (''1502037544823558276'', [
       thread_plan.make (''Medulla PoW '' @ utf8s [226, 128, 148] @ '' Mining & Retargeting'') ''Discuss the custom PoW chain: difficulty retargeting, epoch advancement, MMR integration.'',
       thread_plan.make (''Hippocampus DAG '' @ utf8s [226, 128, 148] @ '' Storage & Recall'') ''DAG-based content-addressable memory: put, get, pin, recall, fidelity scoring.'',
       thread_plan.make (''Cortex EVM '' @ utf8s [226, 128, 148] @ '' Smart Contracts'') ''Geth-based EVM chain: Clique PoA, contract deployment, chain ID 131072.'',
       thread_plan.make ''Coherence Root & Cross-Chain Sync'' ''How the 4-second epoch coherence root binds all three chains together.'']),
     (''1502037548950884352'', [
       thread_plan.make ''StackIdentity & SleeveRegistry'' ''NFT-based identity and sleeve registration contracts.'',
       thread_plan.make ''BandwidthToken & QuellistTreasury'' ''ERC-20 token mechanics, emission curves, and treasury distribution.'',
       thread_plan.make ''ResidueRegistry'' ''Coordination residue detection, proof submission, and bounty payouts.'',
       thread_plan.make ''NeedlecastRouter'' ''On-chain needlecast (memory transfer) routing and escrow.'']),
     (''1502037552574631966'', [
       thread_plan.make ''Siyana API'' ''REST + WebSocket API: stack creation, perceive, recall, needlecast endpoints.'',
       thread_plan.make ''Thalamus Router'' ''Epoch tick, coherence folding, cross-chain anchor generation.'',
       thread_plan.make ''DHF Compositor'' ''DAG walk, decryption, distributed holographic fragment reassembly.'',
       thread_plan.make ''Needlecast Router Service'' ''Off-chain saga orchestration for memory transfers.'',
       thread_plan.make ''Sleeve Runtime'' ''4-in-1 parametric sleeve: perception, cognition, action, integration.'']),
     (''1502037555905036522'', [
       thread_plan.make ''AES-256-GCM & Epoch Keys'' ''Symmetric encryption, HKDF-SHA512 key derivation, per-epoch key rotation.'',
       thread_plan.make ''Ed25519 Signatures'' ''Identity keypairs, signing, verification.'',
       thread_plan.make ''Merkle Mountain Range (MMR)'' ''Append-only accumulator: synaptic field depth, window rollover, proofs.'',
       thread_plan.make ''CID & Content Addressing'' ''Content identifiers, DAG links, IPFS-compatible hashing.'']),
     (''1502037559784771645'', [
       thread_plan.make ''Docker & Compose'' ''24-service Docker Compose setup, build optimisation, networking.'',
       thread_plan.make ''Kubernetes & Helm'' ''K8s deployment, Helm charts, scaling strategies.'',
       thread_plan.make ''Observability (Prometheus/Grafana/Loki)'' ''Metrics, logging, dashboards, alerting.'',
       thread_plan.make ''CI/CD Pipeline'' ''GitHub Actions, build matrix, test automation.'']),
     (''1502037563177959587'', [])]"

definition THREADS_BY_NAME :: "(string \<times> thread_plan list) list" where
  "THREADS_BY_NAME = [
     (''tokenomics'', [
       thread_plan.make ''Coherence Profile Vector (CPV)'' ''How CPV scores work: fidelity, drift, bandwidth, entropy components.'',
       thread_plan.make ''Effective Balance Curve (EBC)'' ''Token balance decay, floor mechanics, epoch delta impact.'',
       thread_plan.make ''Emission Schedule'' ''Token emission rates, halving, treasury distribution.'']),
     (''residues'', [
       thread_plan.make ''Residue Types & Detection'' (''StaleOrdering, SpeculativeDivergence, ReorgOrphan, ShardLoss '' @ utf8s [226, 128, 148] @ '' how each is detected.''),
       thread_plan.make ''Proof Submission & Bounties'' ''How to submit residue proofs and earn ResidueTokens.'']),
     (''research'', [
       thread_plan.make ''Neuroscience Parallels'' ''How ECCA maps to biological neural systems: hippocampus, thalamus, cortex, medulla.'',
       thread_plan.make ''Distributed Consciousness Theory'' ''Can a distributed system exhibit coherent cognition? Discuss the philosophical foundations.'',
       thread_plan.make ''Related Papers & Reading List'' ''Share relevant academic papers, books, and articles.'']),
     (''showcase'', [
       thread_plan.make ''Agent Demos'' ''Show off your AI agents running on ECCA.'',
       thread_plan.make ''Sleeve Implementations'' ''Custom sleeve types, parametric configurations, performance results.'']),
     (''help'', [
       thread_plan.make ''Installation Issues'' ''Problems with pnpm, Docker, Go, Node.js setup.'',
       thread_plan.make ''Configuration & Environment'' ''.env files, chain connections, NATS, Postgres, Redis setup.'']),
     (''bug-reports'', [
       thread_plan.make ''Bug Report Template'' (''**Environment:**'' @ utf8s [10] @ ''**Steps to reproduce:**'' @ utf8s [10] @ ''**Expected:**'' @ utf8s [10] @ ''**Actual:**'' @ utf8s [10] @ ''**Logs:**'')])]"

text \<open>A variable that is not set prints as \<open>undefined\<close>.\<close>

definition env_text :: "string option \<Rightarrow> string" where
  "env_text v = (case v of None \<Rightarrow> ''undefined'' | Some s \<Rightarrow> s)"

definition list_request :: "string option \<Rightarrow> string option \<Rightarrow> discord_request" where
  "list_request guild token = discord_call (env_text token) (''/guilds/'' @ env_text guild @ ''/channels'') ''GET'' None"

definition message_request :: "string option \<Rightarrow> string \<Rightarrow> thread_plan \<Rightarrow> discord_request" where
  "message_request token channel t = discord_call (env_text token) (''/channels/'' @ channel @ ''/messages'') ''POST''
     (Some (JObj [(''content'', JStr (utf8s [240, 159, 147, 140] @ '' **'' @ th_name t @ ''**'' @ utf8s [10, 10] @ th_message t))]))"

definition thread_request :: "string option \<Rightarrow> string \<Rightarrow> string \<Rightarrow> thread_plan \<Rightarrow> discord_request" where
  "thread_request token channel msg t =
     discord_call (env_text token) (''/channels/'' @ channel @ ''/messages/'' @ msg @ ''/threads'') ''POST''
       (Some (JObj [(''name'', JStr (th_name t)), (''auto_archive_duration'', JNum 10080)]))"

definition post_thread :: "'s discord \<Rightarrow> string option \<Rightarrow> string \<Rightarrow> thread_plan \<Rightarrow> ('s, unit) act" where
  "post_thread D token channel t = tryA
     (bindA (created D (message_request token channel t)) (\<lambda>msg.
      bindA (created D (thread_request token channel msg t)) (\<lambda>_. ret ())))
     (\<lambda>_. ret ())"

text \<open>Of two text channels with the same name the last one counts.\<close>

definition name_to_id :: "discord_channel list \<Rightarrow> (string \<times> string) list" where
  "name_to_id chs = foldl (\<lambda>m c. if dc_type c = 0 then AList.update (dc_name c) (dc_id c) m else m) [] chs"

definition threads_by_name :: "'s discord \<Rightarrow> string option \<Rightarrow> (string \<times> string) list \<Rightarrow> string \<times> thread_plan list \<Rightarrow> ('s, unit) act" where
  "threads_by_name D token ids = (\<lambda>(name, threads). case map_of ids name of
     Some (i # is) \<Rightarrow> forA (post_thread D token (i # is)) threads
   | _ \<Rightarrow> ret ())"

definition threads_main :: "'s discord \<Rightarrow> string option \<Rightarrow> string option \<Rightarrow> ('s, nat) act" where
  "threads_main D guild token = tryA
     (bindA (discord_api D (list_request guild token)) (\<lambda>r.
      bindA (lift (dy_channels r)) (\<lambda>channels.
      bindA (forA (\<lambda>(channel, threads). forA (post_thread D token channel) threads) THREADS) (\<lambda>_.
      bindA (forA (threads_by_name D token (name_to_id channels)) THREADS_BY_NAME) (\<lambda>_.
      ret 0)))))
     (\<lambda>_. ret 1)"

subsection \<open>A server that is watched\<close>

text \<open>The state is the list of requests that have been sent, and the server answers the request with number \<open>k\<close> by
  \<open>reply k\<close>; \<open>outcome\<close> is the id of what was created, or the error.\<close>

definition watched :: "(nat \<Rightarrow> discord_reply result) \<Rightarrow> discord_request list discord" where
  "watched reply q sent = (reply (length sent), sent @ [q])"

definition outcome :: "(nat \<Rightarrow> discord_reply result) \<Rightarrow> nat \<Rightarrow> string result" where
  "outcome reply k = bindE (reply k) (\<lambda>r.
     if 200 \<le> dy_status r \<and> dy_status r \<le> 299 then dy_id r
     else bindE (dy_text r) (\<lambda>t. Inl (dec (dy_status r) @ '' '' @ dy_statusText r @ '': '' @ t)))"

lemma created_watched: "created (watched reply) q sent = (outcome reply (length sent), sent @ [q])"
  by (cases "reply (length sent)")
    (auto simp: created_def discord_api_def watched_def outcome_def bindA_def lift_def ret_def throwA_def split: sum.splits)

text \<open>A list of requests sent one by one until one fails.\<close>

fun send_until :: "(nat \<Rightarrow> discord_reply result) \<Rightarrow> discord_request list \<Rightarrow> discord_request list \<Rightarrow> unit result \<times> discord_request list" where
  "send_until reply [] sent = (Inr (), sent)"
| "send_until reply (q # qs) sent =
     (case outcome reply (length sent) of Inl e \<Rightarrow> (Inl e, sent @ [q]) | Inr _ \<Rightarrow> send_until reply qs (sent @ [q]))"

lemma send_until_append:
  "send_until reply (qs @ qs') sent =
     (case send_until reply qs sent of (Inl e, sent') \<Rightarrow> (Inl e, sent') | (Inr _, sent') \<Rightarrow> send_until reply qs' sent')"
  by (induction qs arbitrary: sent) (auto split: sum.splits)

lemma send_until_sent: "send_until reply qs sent = (Inr u, sent') \<Longrightarrow> sent' = sent @ qs"
  by (induction qs arbitrary: sent) (fastforce split: sum.splits)+

text \<open>All requests are sent, or those up to the first that fails.\<close>

lemma send_until_outcome:
  "case send_until reply qs sent of (r, sent') \<Rightarrow> \<exists>n \<le> length qs. sent' = sent @ take n qs \<and>
     (if r = Inr () then n = length qs \<and> (\<forall>k < n. \<not> isl (outcome reply (length sent + k)))
      else 0 < n \<and> isl (outcome reply (length sent + n - 1)) \<and> (\<forall>k < n - 1. \<not> isl (outcome reply (length sent + k))))"
proof (induction qs arbitrary: sent)
  case (Cons q qs)
  show ?case
  proof (cases "outcome reply (length sent)")
    case (Inl e)
    then show ?thesis by (auto intro!: exI [of _ 1])
  next
    case (Inr i)
    obtain r sent' where s: "send_until reply qs (sent @ [q]) = (r, sent')" by fastforce
    from Cons.IH [of "sent @ [q]"] have "\<exists>n \<le> length qs. sent' = (sent @ [q]) @ take n qs \<and>
      (if r = Inr () then n = length qs \<and> (\<forall>k < n. \<not> isl (outcome reply (length sent + 1 + k)))
       else 0 < n \<and> isl (outcome reply (length sent + 1 + n - 1)) \<and> (\<forall>k < n - 1. \<not> isl (outcome reply (length sent + 1 + k))))"
      by (simp add: s cong: if_cong)
    then obtain n where n: "n \<le> length qs" "sent' = (sent @ [q]) @ take n qs"
      "if r = Inr () then n = length qs \<and> (\<forall>k < n. \<not> isl (outcome reply (length sent + 1 + k)))
       else 0 < n \<and> isl (outcome reply (length sent + 1 + n - 1)) \<and> (\<forall>k < n - 1. \<not> isl (outcome reply (length sent + 1 + k)))" by blast
    have all: "(\<forall>k < Suc m. \<not> isl (outcome reply (length sent + k))) = (\<forall>k < m. \<not> isl (outcome reply (length sent + 1 + k)))" for m
      using Inr by (auto simp: less_Suc_eq_0_disj)
    show ?thesis using n Inr s all [of "length qs"] all [of "n - 1"]
      by (auto intro!: exI [of _ "Suc n"] split: if_splits)
  qed
qed simp

subsection \<open>What the channel script sends\<close>

text \<open>Categories and their channels in the order of the table, at consecutive positions, each channel under the id the
  server gave to its category.\<close>

fun channel_requests :: "string \<Rightarrow> string \<Rightarrow> string \<Rightarrow> channel_plan list \<Rightarrow> nat \<Rightarrow> discord_request list" where
  "channel_requests guild token parent [] position = []"
| "channel_requests guild token parent (c # cs) position =
     channel_request guild token parent c position # channel_requests guild token parent cs (position + 1)"

fun planned_requests :: "string \<Rightarrow> string \<Rightarrow> (nat \<Rightarrow> string) \<Rightarrow> category_plan list \<Rightarrow> nat \<Rightarrow> discord_request list" where
  "planned_requests guild token ids [] position = []"
| "planned_requests guild token ids (c # cs) position =
     category_request guild token c position #
     channel_requests guild token (ids position) (ca_channels c) (position + 1) @
     planned_requests guild token ids cs (position + 1 + length (ca_channels c))"

lemma length_channel_requests [simp]: "length (channel_requests guild token parent cs position) = length cs"
  by (induction cs arbitrary: position) simp_all

lemma make_channels_watched:
  "make_channels (watched reply) guild token parent cs position sent =
    (case send_until reply (channel_requests guild token parent cs position) sent of
       (Inl e, sent') \<Rightarrow> (Inl e, sent') | (Inr _, sent') \<Rightarrow> (Inr (position + length cs), sent'))"
  by (induction cs arbitrary: position sent) (auto simp: bindA_def created_watched ret_def split: sum.split prod.split)

lemma make_categories_watched:
  "length sent = position \<Longrightarrow> make_categories (watched reply) guild token cs position sent =
    (case send_until reply (planned_requests guild token (\<lambda>k. projr (outcome reply k)) cs position) sent of
       (Inl e, sent') \<Rightarrow> (Inl e, sent') | (Inr _, sent') \<Rightarrow> (Inr (position + length (planned_requests guild token (\<lambda>_. []) cs position)), sent'))"
proof (induction cs arbitrary: position sent)
  case (Cons c cs)
  let ?ids = "\<lambda>k. projr (outcome reply k)" and ?n = "position + 1 + length (ca_channels c)"
  show ?case
  proof (cases "outcome reply position")
    case (Inl e)
    then show ?thesis by (simp add: bindA_def created_watched Cons.prems)
  next
    case (Inr i)
    let ?sent = "sent @ [category_request guild token c position]"
    obtain r sent' where s: "send_until reply (channel_requests guild token i (ca_channels c) (position + 1)) ?sent = (r, sent')"
      by fastforce
    have m: "make_channels (watched reply) guild token i (ca_channels c) (position + 1) ?sent =
        (case r of Inl e \<Rightarrow> (Inl e, sent') | Inr _ \<Rightarrow> (Inr ?n, sent'))"
      unfolding make_channels_watched s by (simp split: sum.split)
    show ?thesis
    proof (cases r)
      case (Inl e)
      with m s Inr Cons.prems show ?thesis by (simp add: bindA_def created_watched send_until_append)
    next
      case r: (Inr u)
      have "length sent' = ?n" using send_until_sent [OF s [unfolded r]] Cons.prems by simp
      from Cons.IH [OF this] m s Inr r Cons.prems show ?thesis
        by (auto simp: bindA_def created_watched send_until_append split: sum.split prod.split)
    qed
  qed
qed (simp add: ret_def)

lemma plan_size: "length (planned_requests guild token ids CATEGORIES 0) = 31"
  by (simp add: CATEGORIES_def category_plan.defs)

text \<open>Whatever the server answers, the channel script sends a prefix of its 31 requests in order, all of them and exit code 0
  if each succeeds, else up to the first that fails and exit code 1; what was created by then stays, and the next run
  creates it again, because nothing is looked up.\<close>

lemma channels_outcome:
  assumes "guild \<noteq> []" "token \<noteq> []"
  shows "case channels_main (watched reply) (Some guild) (Some token) [] of (r, sent) \<Rightarrow>
    \<exists>n \<le> 31. sent = take n (planned_requests guild token (\<lambda>k. projr (outcome reply k)) CATEGORIES 0) \<and>
      (if r = Inr 0 then n = 31 \<and> (\<forall>k < 31. \<not> isl (outcome reply k))
       else r = Inr 1 \<and> 0 < n \<and> isl (outcome reply (n - 1)) \<and> (\<forall>k < n - 1. \<not> isl (outcome reply k)))"
proof -
  let ?plan = "planned_requests guild token (\<lambda>k. projr (outcome reply k)) CATEGORIES 0"
  obtain r sent where s: "send_until reply ?plan [] = (r, sent)" by fastforce
  obtain g gs t ts where gt: "guild = g # gs" "token = t # ts" using assms by (meson neq_Nil_conv)
  have "channels_main (watched reply) (Some guild) (Some token) [] = (if r = Inr () then Inr 0 else Inr 1, sent)"
    using make_categories_watched [where sent = "[]" and position = 0 and reply = reply and guild = guild and token = token and cs = CATEGORIES] s
    by (cases r) (simp_all add: channels_main_def gt tryA_def bindA_def ret_def)
  with send_until_outcome [where reply = reply and qs = ?plan and sent = "[]"] s show ?thesis
    by (cases r) (auto simp: plan_size)
qed

lemma channels_outcome_witness:
  "fst (channels_main (watched (\<lambda>k. if k < 2 then Inr \<lparr>dy_status = 201, dy_statusText = [], dy_text = Inr [], dy_id = Inr ''7'', dy_channels = Inr []\<rparr>
      else Inl ''TypeError: fetch failed'')) (Some ''g'') (Some ''t'') []) = Inr 1"
proof -
  let ?reply = "\<lambda>k :: nat. if k < 2 then Inr \<lparr>dy_status = 201, dy_statusText = [], dy_text = Inr [], dy_id = Inr ''7'', dy_channels = Inr []\<rparr>
      else Inl ''TypeError: fetch failed''"
  have "isl (outcome ?reply 2)" by (simp add: outcome_def)
  moreover have "(2 :: nat) < 31" by simp
  ultimately have "\<not> (\<forall>k < 31. \<not> isl (outcome ?reply k))" by blast
  then show ?thesis using channels_outcome [of "''g''" "''t''" ?reply] by (auto split: prod.splits if_splits)
qed

subsection \<open>What the thread script sends\<close>

text \<open>A message for each thread and, where it was accepted, the request that starts the thread from it.\<close>

fun thread_log :: "(nat \<Rightarrow> discord_reply result) \<Rightarrow> string option \<Rightarrow> nat \<Rightarrow> (string \<times> thread_plan) list \<Rightarrow> discord_request list" where
  "thread_log reply token k [] = []"
| "thread_log reply token k ((c, t) # ts) = message_request token c t # (case outcome reply k of
     Inl _ \<Rightarrow> thread_log reply token (k + 1) ts
   | Inr m \<Rightarrow> thread_request token c m t # thread_log reply token (k + 2) ts)"

definition by_id :: "(string \<times> thread_plan) list" where
  "by_id = concat (map (\<lambda>(c, ts). map (Pair c) ts) THREADS)"

definition by_name :: "(string \<times> string) list \<Rightarrow> (string \<times> thread_plan) list" where
  "by_name ids = concat (map (\<lambda>(name, ts). case map_of ids name of Some (i # is) \<Rightarrow> map (Pair (i # is)) ts | _ \<Rightarrow> []) THREADS_BY_NAME)"

definition post_all :: "'s discord \<Rightarrow> string option \<Rightarrow> (string \<times> thread_plan) list \<Rightarrow> ('s, unit) act" where
  "post_all D token = forA (\<lambda>(c, t). post_thread D token c t)"

lemma forA_append: "forA f (xs @ ys) = bindA (forA f xs) (\<lambda>_. forA f ys)"
  by (induction xs) (auto simp: bindA_def ret_def fun_eq_iff split: sum.split prod.split)

lemma forA_map: "forA f (map g xs) = forA (\<lambda>x. f (g x)) xs"
  by (induction xs) simp_all

lemma forA_concat: "forA f (concat xss) = forA (forA f) xss"
  by (induction xss) (simp_all add: forA_append)

lemma by_id_posts: "forA (\<lambda>(c, ts). forA (post_thread D token c) ts) THREADS = post_all D token by_id"
  by (simp add: post_all_def by_id_def forA_concat forA_map case_prod_beta')

lemma by_name_posts: "forA (threads_by_name D token ids) THREADS_BY_NAME = post_all D token (by_name ids)"
proof -
  have "forA (\<lambda>(c, t). post_thread D token c t)
      (case map_of ids (fst x) of Some (i # is) \<Rightarrow> map (Pair (i # is)) (snd x) | _ \<Rightarrow> []) = threads_by_name D token ids x" for x
    by (simp add: threads_by_name_def case_prod_beta forA_map split: option.split list.split)
  then show ?thesis by (simp add: post_all_def by_name_def forA_concat forA_map case_prod_beta)
qed

lemma post_all_watched:
  "post_all (watched reply) token ts sent = (Inr (), sent @ thread_log reply token (length sent) ts)"
proof (induction ts arbitrary: sent)
  case (Cons x ts)
  obtain c t where x: "x = (c, t)" by (cases x)
  have p: "post_thread (watched reply) token c t sent = (Inr (), sent @ message_request token c t # (case outcome reply (length sent) of
      Inl _ \<Rightarrow> [] | Inr m \<Rightarrow> [thread_request token c m t]))"
    by (simp add: post_thread_def tryA_def bindA_def created_watched ret_def split: sum.split)
  show ?case
    using Cons.IH by (simp add: post_all_def x bindA_def p split: sum.split)
qed (simp add: post_all_def ret_def)

lemma thread_log_append:
  "thread_log reply token k (ts @ ts') = thread_log reply token k ts @ thread_log reply token (k + length (thread_log reply token k ts)) ts'"
  by (induction reply token k ts rule: thread_log.induct) (auto split: sum.split)

definition is_message :: "discord_request \<Rightarrow> bool" where
  "is_message q \<longleftrightarrow> (\<exists>c. dq_body q = Some (JObj [(''content'', c)]))"

lemma is_message_simps [simp]: "is_message (message_request token c t)" "\<not> is_message (thread_request token c m t)"
  by (simp_all add: is_message_def message_request_def thread_request_def discord_call_def)

text \<open>However the requests fare, every planned thread gets its message.\<close>

lemma thread_log_messages: "filter is_message (thread_log reply token k ts) = map (\<lambda>(c, t). message_request token c t) ts"
  by (induction reply token k ts rule: thread_log.induct) (auto split: sum.split)

lemma thread_log_bounds:
  "length ts \<le> length (thread_log reply token k ts) \<and> length (thread_log reply token k ts) \<le> 2 * length ts"
  by (induction reply token k ts rule: thread_log.induct) (auto split: sum.split)

lemma by_id_size: "length by_id = 28"
  by (simp add: by_id_def THREADS_def)

lemma by_name_size: "length (by_name ids) \<le> 13"
proof -
  have f: "length (case map_of ids n of Some (i # is) \<Rightarrow> map (Pair (i # is)) ts | _ \<Rightarrow> []) \<le> length ts" for n ts
    by (simp split: option.split list.split)
  have "length (by_name ids) \<le> sum_list (map (\<lambda>(n, ts). length ts) THREADS_BY_NAME)"
    unfolding by_name_def length_concat map_map
    by (rule sum_list_mono) (simp add: comp_def case_prod_beta f)
  also have "\<dots> = 13" by (simp add: THREADS_BY_NAME_def)
  finally show ?thesis .
qed

text \<open>The thread script reports success, exit code 0, exactly if the list of channels could be read: then it has sent a
  message for each of the 28 threads of the first table, to channels that only exist on one server, and for
  each thread of the second table whose channel was found, whatever became of them; a message whose thread could not be
  started stays behind without one.\<close>

lemma threads_outcome:
  assumes "snd (threads_main (watched reply) guild token []) = sent"
  shows "case bindE (reply 0) (\<lambda>r. if 200 \<le> dy_status r \<and> dy_status r \<le> 299 then dy_channels r else Inl []) of
      Inl _ \<Rightarrow> fst (threads_main (watched reply) guild token []) = Inr 1 \<and> sent = [list_request guild token]
    | Inr channels \<Rightarrow> fst (threads_main (watched reply) guild token []) = Inr 0 \<and>
        sent = list_request guild token # thread_log reply token 1 (by_id @ by_name (name_to_id channels)) \<and>
        filter is_message sent = map (\<lambda>(c, t). message_request token c t) (by_id @ by_name (name_to_id channels)) \<and>
        length sent \<le> 83"
proof -
  let ?q = "list_request guild token"
  have api: "discord_api (watched reply) ?q [] = (bindE (reply 0) (\<lambda>r. if 200 \<le> dy_status r \<and> dy_status r \<le> 299 then Inr r
      else bindE (dy_text r) (\<lambda>t. Inl (dec (dy_status r) @ '' '' @ dy_statusText r @ '': '' @ t))), [?q])"
    by (cases "reply 0") (auto simp: discord_api_def watched_def bindA_def lift_def ret_def throwA_def split: sum.splits)
  have q: "\<not> is_message ?q" by (simp add: is_message_def list_request_def discord_call_def)
  show ?thesis
  proof (cases "bindE (reply 0) (\<lambda>r. if 200 \<le> dy_status r \<and> dy_status r \<le> 299 then dy_channels r else Inl [])")
    case (Inl e)
    have "threads_main (watched reply) guild token [] = (Inr 1, [?q])"
      using Inl by (cases "reply 0") (auto simp: threads_main_def tryA_def api bindA_def lift_def ret_def split: sum.splits if_splits)
    with Inl assms show ?thesis by auto
  next
    case (Inr channels)
    let ?ts = "by_id @ by_name (name_to_id channels)"
    have m: "threads_main (watched reply) guild token [] = (Inr 0, ?q # thread_log reply token 1 ?ts)"
      using Inr by (cases "reply 0")
        (auto simp: threads_main_def tryA_def api bindA_def lift_def ret_def by_id_posts by_name_posts post_all_watched thread_log_append
          split: if_splits)
    have "length (?q # thread_log reply token 1 ?ts) \<le> 83"
      using thread_log_bounds [of ?ts reply token 1] by_id_size by_name_size [of "name_to_id channels"] by simp
    with m Inr assms q show ?thesis by (auto simp: thread_log_messages)
  qed
qed

end
