(* ===== verification/Report.thy ===== *)
theory Report
  imports Siyana
begin

text \<open>
  \<^verbatim>\<open>scripts/generate-test-report.js\<close>: the HTML report on the results that \<^verbatim>\<open>run-unit-tests.sh\<close> collects.  Results have the
  shape in which that script writes them; durations are real numbers.  Strings are the UTF-8 bytes of the source, the
  style sheet of the page is an argument, and the console is left out.
\<close>

subsection \<open>Results\<close>

definition nl :: string where
  "nl = utf8s [10]"

record test_result =
  te_name :: string
  te_passed :: bool
  te_duration :: real

record suite_result =
  su_name :: string
  su_filter :: string
  su_desc :: string
  su_pass :: nat
  su_fail :: nat
  su_total :: nat
  su_duration :: real
  su_tests :: "test_result list"

text \<open>The file lacks the totals while the tests are still running.\<close>

record results_file =
  rf_suites :: "suite_result list option"
  rf_totalPass :: "nat option"
  rf_totalFail :: "nat option"
  rf_totalTests :: "nat option"
  rf_ts :: "string option"

record report_data =
  rd_suites :: "suite_result list"
  rd_totalPass :: nat
  rd_totalFail :: nat
  rd_totalTests :: nat
  rd_ts :: string

definition default :: "'a \<Rightarrow> 'a option \<Rightarrow> 'a" where
  "default d v = (case v of None \<Rightarrow> d | Some x \<Rightarrow> x)"

definition report_data_of :: "results_file \<Rightarrow> report_data" where
  "report_data_of f = \<lparr>rd_suites = default [] (rf_suites f), rd_totalPass = default 0 (rf_totalPass f),
     rd_totalFail = default 0 (rf_totalFail f), rd_totalTests = default 0 (rf_totalTests f), rd_ts = default [] (rf_ts f)\<rparr>"

text \<open>\<open>Math.round\<close> and \<open>toFixed\<close> of numbers that are not negative and below \<open>10 ^ 21\<close>.\<close>

definition js_round :: "real \<Rightarrow> nat" where
  "js_round x = nat \<lfloor>x + 1 / 2\<rfloor>"

definition toFixed :: "nat \<Rightarrow> real \<Rightarrow> string" where
  "toFixed f x = (let s = dec (js_round (x * 10 ^ f)); z = replicate (f + 1 - length s) CHR ''0'' @ s; k = length z - f
     in take k z @ ''.'' @ drop k z)"

definition passRate :: "report_data \<Rightarrow> nat" where
  "passRate d = (if 0 < rd_totalTests d then js_round (real (rd_totalPass d) / real (rd_totalTests d) * 100) else 0)"

definition allPass :: "report_data \<Rightarrow> bool" where
  "allPass d \<longleftrightarrow> rd_totalFail d = 0"

subsection \<open>The page\<close>

record suite_meta =
  sm_icon :: string
  sm_what :: string
  sm_how :: string
  sm_why :: string
  sm_when :: string
  sm_services :: "string list"
  sm_verify :: string

definition SUITE_META :: "(string \<times> suite_meta) list" where
  "SUITE_META = [
     (''@ecca/proto'', \<lparr>sm_icon = (utf8s [240, 159, 147, 156]),
       sm_what = ''Token taxonomy (5 cognitive tokens), event schemas (12 event types), zod validators, NATS stream config, ECCA constants.'',
       sm_how = ''Zod schema parsing, round-trip validation, boundary checks (negative values, out-of-range coefficients), discriminated union matching.'',
       sm_why = (''Every service imports @ecca/proto '' @ utf8s [226, 128, 148] @ '' if these schemas break, all 24 services fail to communicate. This is the type contract.''),
       sm_when = ''On every build. These types are checked at compile time AND runtime (zod parsing on NATS messages).'',
       sm_services = [''siyana-api'', ''thalamus-router'', ''dhf-compositor'', ''needlecast-router-svc'', ''quellist-treasury-svc'', ''bandwidth-faucet'', ''sleeve-runtime'', ''workers/runner''],
       sm_verify = ''packages/proto/src/tokens.ts, packages/proto/src/events.ts, packages/proto/src/index.ts''\<rparr>),
     (''@ecca/crypto'', \<lparr>sm_icon = (utf8s [240, 159, 148, 144]),
       sm_what = ''SHA-256, HKDF-SHA512 key derivation, AES-256-GCM authenticated encryption, Ed25519 signatures, RFC-6962 Merkle trees, Synaptic Field MMR, coherence root hashing.'',
       sm_how = ''Round-trip encrypt/decrypt, signature verify, Merkle proof verification for all leaf positions, MMR append determinism, cross-chain coherence root field coverage.'',
       sm_why = ''Cryptographic primitives underpin every security guarantee: memory encryption, identity verification, cross-chain consistency proofs, and on-chain anchor hashing.'',
       sm_when = (''On build. These are pure functions with no I/O '' @ utf8s [226, 128, 148] @ '' fastest test suite. Run them on every commit.''),
       sm_services = [''siyana-api (encrypt/decrypt memories)'', ''thalamus-router (coherenceRoot, merkleRoot)'', ''dhf-compositor (decrypt fragments)'', ''workers/runner (sha256hex for residue IDs)''],
       sm_verify = (''packages/crypto/src/index.ts '' @ utf8s [226, 128, 148] @ '' all exports from @noble/hashes, @noble/ciphers, @noble/curves'')\<rparr>),
     (''@ecca/chain'', \<lparr>sm_icon = (utf8s [226, 155, 147, 239, 184, 143]),
       sm_what = ''Cortex EVM chain config, viem client factories, 7 canonical contract ABIs (StackIdentity, BandwidthToken, ResidueRegistry, NeedlecastRouter, QuellistTreasury, TripartiteGame, EpochAnchor), Hippocampus DAG client, Medulla PoW JSON-RPC client.'',
       sm_how = ''Chain ID validation, native currency config, ABI shape verification (specific function presence), client construction with private key, method existence checks.'',
       sm_why = ''These clients are the only bridge between TypeScript services and the three blockchains. Wrong ABIs = silent failures when calling contracts.'',
       sm_when = ''On build. ABI tests catch mismatches between contracts/src/*.sol and the viem ABI constants immediately.'',
       sm_services = [''siyana-api (cortex for NFT minting)'', ''thalamus-router (medulla + cortex)'', ''workers/runner (medulla + hippocampus)'', ''needlecast-router-svc (cortex)''],
       sm_verify = ''packages/chain/src/cortex.ts, packages/chain/src/hippocampus.ts, packages/chain/src/medulla.ts''\<rparr>),
     (''@ecca/service-base'', \<lparr>sm_icon = (utf8s [240, 159, 143, 151, 239, 184, 143]),
       sm_what = ''Fastify server bootstrap, /healthz and /readyz probe endpoints, CORS configuration, graceful SIGTERM/SIGINT shutdown, daemon mode for workers.'',
       sm_how = ''Fastify inject() to test HTTP endpoints without binding a port, CORS header verification, signal handler registration, listen on port 0 (OS-assigned).'',
       sm_why = ''Every TypeScript service (siyana-api, thalamus-router, etc.) and every worker uses createService() or daemon(). If bootstrap breaks, nothing starts.'',
       sm_when = ''On build. Fast tests (~100ms) that verify the foundation all services stand on.'',
       sm_services = [''ALL services use createService()'', ''ALL workers use daemon()''],
       sm_verify = (''packages/service-base/src/index.ts '' @ utf8s [226, 128, 148] @ '' createService(), listen(), wireShutdown(), daemon(), createLogger()'')\<rparr>),
     (''@ecca/semantic-address'', \<lparr>sm_icon = (utf8s [240, 159, 167, 173]),
       sm_what = ''5-facet semantic grammar (domain > entity > relation > temporal > qualifier), deterministic normalization, 32-byte address derivation, partial prefix matching, address book with prefix queries, NLP description parser.'',
       sm_how = (''Normalization order independence, case/whitespace invariance, multi-value sorting, depth encoding, prefix matching across different grammar levels, book query narrowing (domain'' @ utf8s [226, 134, 146] @ ''entity'' @ utf8s [226, 134, 146] @ ''relation).''),
       sm_why = ''Semantic addresses enable content-based routing in the hippocampus DAG. Without correct prefix derivation, memory recall returns wrong neighborhoods.'',
       sm_when = (''On build. Pure functions '' @ utf8s [226, 128, 148] @ '' tests verify the addressing invariants that the entire memory system depends on.''),
       sm_services = [''agent-runtime (memory addressing)'', ''hippocampus-dag (prefix-based storage)'', ''siyana-api (recall routing)''],
       sm_verify = ''packages/semantic-address/src/grammar.ts, derive.ts, address.ts, book.ts''\<rparr>),
     (''contracts'', \<lparr>sm_icon = (utf8s [240, 159, 147, 157]),
       sm_what = ''StackIdentity NFT minting/CPV/EBC, BandwidthToken mint/spend/authorize/transferStack, EpochAnchor commitAnchor/verifyContinuity/verifyShardInclusion, TripartiteGame openGame/registerParty/consume/audit, ResidueRegistry detect/submitProof, NeedlecastRouter route, QuellistTreasury issue/claim, SleeveRegistry register/decommission.'',
       sm_how = ''Hardhat local EVM with viem test helpers. Each contract gets a loadFixture deployment, then exercises every public function including access control, edge cases, and event emission.'',
       sm_why = (''Smart contracts are immutable once deployed. Bugs here cannot be patched '' @ utf8s [226, 128, 148] @ '' they require migration. 100% coverage of authorization, caps, and lifecycle transitions is critical.''),
       sm_when = ''Before every deploy. Run with `npx hardhat test` in contracts/. Uses in-memory Hardhat Network (no Docker needed).'',
       sm_services = [''cortex-evm (on-chain execution)'', ''siyana-api (calls StackIdentity, BandwidthToken)'', ''thalamus-router (calls EpochAnchor)'', ''quellist-treasury-svc (calls QuellistTreasury)''],
       sm_verify = (''contracts/src/*.sol '' @ utf8s [226, 128, 148] @ '' 7 Solidity files. contracts/test/*.test.ts '' @ utf8s [226, 128, 148] @ '' 7 test files.'')\<rparr>)]"

text \<open>A property that is missing is as good as an empty one.\<close>

definition no_meta :: suite_meta where
  "no_meta = \<lparr>sm_icon = [], sm_what = [], sm_how = [], sm_why = [], sm_when = [], sm_services = [], sm_verify = []\<rparr>"

definition meta_of :: "suite_result \<Rightarrow> suite_meta" where
  "meta_of s = (case map_of SUITE_META (su_filter s) of Some m \<Rightarrow> m
     | None \<Rightarrow> (case map_of SUITE_META (su_name s) of Some m \<Rightarrow> m | None \<Rightarrow> no_meta))"

definition replace_char :: "char \<Rightarrow> string \<Rightarrow> string \<Rightarrow> string" where
  "replace_char c r s = concat (map (\<lambda>d. if d = c then r else [d]) s)"

definition esc :: "string \<Rightarrow> string" where
  "esc s = replace_char CHR 0x22 ''&quot;'' (replace_char CHR ''>'' ''&gt;'' (replace_char CHR ''<'' ''&lt;''
     (replace_char CHR ''&'' ''&amp;'' s)))"

definition detail_box :: "string \<Rightarrow> string \<Rightarrow> string \<Rightarrow> string" where
  "detail_box kind label content = (if content = [] then [] else
     ''<div class=\"detail-box detail-'' @ kind @ ''\"><span class=\"detail-label\">'' @ label @ ''</span>'' @ esc content @ ''</div>'')"

definition services_grid :: "string list \<Rightarrow> string" where
  "services_grid svcs = (if svcs = [] then [] else ''<div class=\"svc-grid\">'' @
     concat (map (\<lambda>s. ''<div class=\"service-tag\"><span class=\"svc-name\">'' @ esc s @ ''</span></div>'') svcs) @ ''</div>'')"

definition verify_box :: "string \<Rightarrow> string" where
  "verify_box v = (if v = [] then [] else
     ''<div class=\"verify-box\"><span class=\"detail-label\">WHERE TO LOOK</span><code>'' @ esc v @ ''</code></div>'')"

definition test_row :: "test_result \<Rightarrow> string" where
  "test_row t = ''<div class=\"test '' @ (if te_passed t then ''pass'' else ''fail'') @ ''\"><span class=\"indicator\">'' @
     (if te_passed t then ''&#x2713;'' else ''&#x2717;'') @ ''</span> '' @ esc (te_name t) @
     (if 0 < te_duration t then '' <span class=\"test-dur\">('' @ toFixed 1 (te_duration t) @ ''ms)</span>'' else []) @ ''</div>''"

definition pass_row :: "nat \<Rightarrow> string" where
  "pass_row i = ''<div class=\"test pass\"><span class=\"indicator\">&#x2713;</span> test '' @ dec (i + 1) @ ''</div>''"

definition fail_row :: "nat \<Rightarrow> string" where
  "fail_row i = ''<div class=\"test fail\"><span class=\"indicator\">&#x2717;</span> failed test '' @ dec (i + 1) @ ''</div>''"

definition test_rows :: "suite_result \<Rightarrow> string list" where
  "test_rows s = (if su_tests s \<noteq> [] then map test_row (su_tests s)
     else map pass_row [0..<su_pass s] @ map fail_row [0..<su_fail s])"

definition summary_bar :: "suite_result \<Rightarrow> string" where
  "summary_bar s = ''<div class=\"suite-summary '' @ (if su_fail s = 0 then ''pass'' else ''fail'') @ ''\">'' @
     ''<span>'' @ dec (su_pass s) @ ''/'' @ dec (su_total s) @ '' passed</span>'' @
     (if 0 < su_duration s then ''<span class=\"suite-dur\">'' @ toFixed 2 (su_duration s / 1000) @ ''s</span>'' else []) @ ''</div>''"

definition section_body :: "suite_result \<Rightarrow> suite_meta \<Rightarrow> string" where
  "section_body suite meta =
     ''<p class=\"phase-desc\">'' @ esc (su_desc suite) @ ''</p>'' @
     detail_box ''what'' ''WHAT IS TESTED'' (sm_what meta) @
     detail_box ''how'' ''HOW IT WORKS'' (sm_how meta) @
     detail_box ''why'' ''WHY IT MATTERS'' (sm_why meta) @
     detail_box ''when'' ''WHEN TO RUN'' (sm_when meta) @
     services_grid (sm_services meta) @
     verify_box (sm_verify meta) @
     ''<div class=\"test-list\">'' @ concat (test_rows suite) @ ''</div>'' @
     summary_bar suite"

definition suite_num :: "nat \<Rightarrow> string" where
  "suite_num idx = (let s = dec (idx + 1) in replicate (2 - length s) CHR ''0'' @ s)"

definition suite_icon :: "suite_meta \<Rightarrow> string" where
  "suite_icon meta = (if sm_icon meta = [] then utf8s [240, 159, 167, 170] else sm_icon meta)"

definition suite_section :: "nat \<Rightarrow> suite_result \<Rightarrow> string" where
  "suite_section idx suite =
     (let num = suite_num idx; meta = meta_of suite; icon = suite_icon meta; suitePass = (su_fail suite = 0) in
     nl @
     ''<section class=\"phase\" id=\"suite-'' @ num @ ''\">'' @ nl @
     ''<div class=\"phase-header\" onclick=\"this.parentElement.classList.toggle('' @ utf8s [39] @ ''collapsed'' @ utf8s [39] @ '')\">'' @ nl @
     ''  <span class=\"phase-num\">'' @ num @ ''</span>'' @ nl @
     ''  <h2>'' @ icon @ '' '' @ esc (su_name suite) @ ''</h2>'' @ nl @
     ''  <span class=\"phase-status '' @ (if suitePass then ''pass'' else ''fail'') @ ''\">'' @ dec (su_pass suite) @ ''/'' @ dec (su_total suite) @ ''</span>'' @ nl @
     ''  <span class=\"phase-toggle\">&#x25BC;</span>'' @ nl @
     ''</div>'' @ nl @
     ''<div class=\"phase-body\">'' @ section_body suite meta @ ''</div>'' @ nl @
     ''</section>'')"

definition phases :: "report_data \<Rightarrow> string" where
  "phases d = concat (map (\<lambda>(i, s). suite_section i s) (enumerate 0 (rd_suites d)))"

text \<open>The number of passed tests of the first suite with a property.\<close>

definition passed_of :: "(suite_result \<Rightarrow> bool) \<Rightarrow> report_data \<Rightarrow> nat" where
  "passed_of p d = (case find p (rd_suites d) of None \<Rightarrow> 0 | Some s \<Rightarrow> su_pass s)"

definition lifecycleItems :: "report_data \<Rightarrow> (string \<times> string \<times> string) list" where
  "lifecycleItems d = [
     ((utf8s [240, 159, 147, 156]), ''Proto Types'', dec (passed_of (\<lambda>s. su_filter s = ''@ecca/proto'') d) @ '' schemas validated''),
     ((utf8s [240, 159, 148, 144]), ''Cryptography'', dec (passed_of (\<lambda>s. su_filter s = ''@ecca/crypto'') d) @ '' primitives verified''),
     ((utf8s [226, 155, 147, 239, 184, 143]), ''Chain Clients'', dec (passed_of (\<lambda>s. su_filter s = ''@ecca/chain'') d) @ '' ABIs + clients checked''),
     ((utf8s [240, 159, 143, 151, 239, 184, 143]), ''Service Base'', dec (passed_of (\<lambda>s. su_filter s = ''@ecca/service-base'') d) @ '' bootstrap tests''),
     ((utf8s [240, 159, 167, 173]), ''Addressing'', dec (passed_of (\<lambda>s. su_filter s = ''@ecca/semantic-address'') d) @ '' address ops verified''),
     ((utf8s [240, 159, 147, 157]), ''Contracts'', dec (passed_of (\<lambda>s. su_name s = ''contracts'') d) @ '' Solidity tests'')]"

definition lifecycle :: "report_data \<Rightarrow> string" where
  "lifecycle d = concat (map (\<lambda>(k, icon, label, text'). (if k = 0 then [] else nl) @
     ''  <div class=\"lifecycle-item lc-pass\"><span class=\"lc-label\">'' @ icon @ '' '' @ esc label @ ''</span><span class=\"lc-desc\">'' @
     esc text' @ ''</span></div>'') (enumerate 0 (lifecycleItems d)))"

definition banner :: "report_data \<Rightarrow> string" where
  "banner d = (if allPass d
     then dec (rd_totalPass d) @ '' assertions passed across '' @ dec (length (rd_suites d)) @ '' test suites &mdash; all packages verified''
     else dec (rd_totalFail d) @ '' assertion(s) failed across '' @ dec (length (rd_suites d)) @ '' suites &mdash; coordination residue generated'')"

definition generateHTML :: "string \<Rightarrow> report_data \<Rightarrow> string" where
  "generateHTML css d =
     ''<!DOCTYPE html>'' @ nl @
     ''<html lang=\"en\">'' @ nl @
     ''<head>'' @ nl @
     ''<meta charset=\"UTF-8\">'' @ nl @
     ''<meta name=\"viewport\" content=\"width=device-width, initial-scale=1.0\">'' @ nl @
     ''<title>ECCA // Unit &amp; Contract Test Report</title>'' @ nl @
     ''<style>'' @ nl @
     css @ ''</style>'' @ nl @
     ''</head>'' @ nl @
     ''<body>'' @ nl @
     ''<div class=\"header\">'' @ nl @
     ''  <h1>ECCA // UNIT</h1>'' @ nl @
     ''  <div class=\"subtitle\">Unit &amp; Contract Test Report &mdash; Package-Level Verification</div>'' @ nl @
     ''  <div class=\"timestamp\">'' @ esc (rd_ts d) @ ''</div>'' @ nl @
     ''</div>'' @ nl @
     ''<div class=\"stats-bar\">'' @ nl @
     ''  <div class=\"stat\"><div class=\"stat-value pass-count\">'' @ dec (rd_totalPass d) @ ''</div><div class=\"stat-label\">Passed</div></div>'' @ nl @
     ''  <div class=\"stat\"><div class=\"stat-value fail-count\">'' @ dec (rd_totalFail d) @ ''</div><div class=\"stat-label\">Failed</div></div>'' @ nl @
     ''  <div class=\"stat\"><div class=\"stat-value total-count\">'' @ dec (rd_totalTests d) @ ''</div><div class=\"stat-label\">Total</div></div>'' @ nl @
     ''  <div class=\"stat\"><div class=\"stat-value suite-count\">'' @ dec (length (rd_suites d)) @ ''</div><div class=\"stat-label\">Suites</div></div>'' @ nl @
     ''</div>'' @ nl @
     ''<div class=\"progress-container\">'' @ nl @
     ''  <div class=\"progress-bar\"><div class=\"progress-fill '' @ (if allPass d then ''all-pass'' else ''has-fails'') @ ''\" style=\"width: '' @ dec (passRate d) @ ''%\"></div></div>'' @ nl @
     ''</div>'' @ nl @
     ''<div class=\"nav-links\">'' @ nl @
     ''  <a href=\"e2e-report.html\">E2E Report</a>'' @ nl @
     ''  <a href=\"unit-test-report.html\" class=\"active\">Unit Tests</a>'' @ nl @
     ''  <a href=\"docs/index.html\">Docs</a>'' @ nl @
     ''  <a href=\"docs/developer.html\">Developer Guide</a>'' @ nl @
     ''  <a href=\"docs/architecture.html\">Architecture</a>'' @ nl @
     ''</div>'' @ nl @
     ''<div class=\"content\">'' @ nl @
     phases d @ nl @
     ''<div class=\"result-banner '' @ (if allPass d then ''all-pass'' else ''has-fails'') @ ''\">'' @ nl @
     ''  <h2>'' @ (if allPass d then ''ALL SYSTEMS NOMINAL'' else ''COHERENCE BREACH DETECTED'') @ ''</h2>'' @ nl @
     ''  <p>'' @ banner d @ ''</p>'' @ nl @
     ''</div>'' @ nl @
     ''<div class=\"lifecycle-grid\">'' @ nl @
     lifecycle d @ nl @
     ''</div>'' @ nl @
     ''</div>'' @ nl @
     ''<div class=\"footer\">'' @ nl @
     ''  ECCA STACK v3 &mdash; DISTRIBUTED HUMAN FRAMEWORK &mdash; UNIT TEST REPORT<br>'' @ nl @
     ''  <span style=\"opacity:0.5\">Generated by run-unit-tests.sh // All memory is sacred</span>'' @ nl @
     ''</div>'' @ nl @
     ''</body>'' @ nl @
     ''</html>''"

text \<open>The exit code; the results file may be missing, and reading, parsing and writing may throw, which ends the process
  with code 1.\<close>

definition report_main :: "string \<Rightarrow> bool \<Rightarrow> ('s, results_file) act \<Rightarrow> (string \<Rightarrow> string \<Rightarrow> ('s, unit) act) \<Rightarrow> ('s, nat) act" where
  "report_main css exists results write = (if \<not> exists then ret 1 else
     tryA (bindA results (\<lambda>f.
       let html = generateHTML css (report_data_of f) in
       bindA (write ''unit-test-report.html'' html) (\<lambda>_. bindA (write ''docs/unit-test-report.html'' html) (\<lambda>_. ret 0))))
       (\<lambda>_. ret 1))"

subsection \<open>Escaping\<close>

text \<open>The four replacements one after the other come to one of each character, because the ampersands are replaced first.\<close>

definition esc_char :: "char \<Rightarrow> string" where
  "esc_char c = (if c = CHR ''&'' then ''&amp;'' else if c = CHR ''<'' then ''&lt;'' else if c = CHR ''>'' then ''&gt;''
     else if c = CHR 0x22 then ''&quot;'' else [c])"

lemma replace_char_simps [simp]:
  "replace_char c r [] = []" "replace_char c r (d # s) = (if d = c then r else [d]) @ replace_char c r s"
  "replace_char c r (s @ s') = replace_char c r s @ replace_char c r s'"
  by (simp_all add: replace_char_def)

lemma esc_chars: "esc s = concat (map esc_char s)"
  unfolding esc_def by (induction s) (simp_all add: esc_char_def)

text \<open>What a browser makes of the four entities.\<close>

fun unesc :: "string \<Rightarrow> string" where
  "unesc [] = []"
| "unesc (c # s) =
     (if c \<noteq> CHR ''&'' then c # unesc s
      else if take 4 s = ''amp;'' then CHR ''&'' # unesc (drop 4 s)
      else if take 3 s = ''lt;'' then CHR ''<'' # unesc (drop 3 s)
      else if take 3 s = ''gt;'' then CHR ''>'' # unesc (drop 3 s)
      else if take 5 s = ''quot;'' then CHR 0x22 # unesc (drop 5 s)
      else c # unesc s)"

lemma unesc_esc: "unesc (esc s) = s"
  unfolding esc_chars by (induction s) (simp_all add: esc_char_def)

text \<open>The characters that open and close tags and attributes.\<close>

definition markup :: "string \<Rightarrow> string" where
  "markup s = filter (\<lambda>c. c = CHR ''<'' \<or> c = CHR ''>'' \<or> c = CHR 0x22) s"

lemma markup_append: "markup (s @ t) = markup s @ markup t"
  and markup_Nil: "markup [] = []"
  by (simp_all add: markup_def)

lemma markup_esc [simp]: "markup (esc s) = []"
  unfolding esc_chars by (induction s) (simp_all add: markup_def esc_char_def)

lemma markup_digits: "list_all is_digit s \<Longrightarrow> markup s = []"
  by (induction s) (auto simp: markup_def is_digit_def)

lemma markup_dec [simp]: "markup (dec n) = []"
  by (simp add: markup_digits)

lemma markup_suite_num [simp]: "markup (suite_num i) = []"
  by (auto simp: suite_num_def Let_def markup_append list_all_iff is_digit_def intro!: markup_digits)

lemma markup_toFixed [simp]: "markup (toFixed f x) = []"
proof -
  have "list_all is_digit (replicate k CHR ''0'' @ dec n)" for k n
    by (auto simp: list_all_iff is_digit_def dest: is_digit_dec)
  then have "list_all is_digit (take j (replicate k CHR ''0'' @ dec n))" "list_all is_digit (drop j (replicate k CHR ''0'' @ dec n))" for j k n
    by (auto simp: list_all_iff dest: in_set_takeD in_set_dropD)
  note markup_digits [OF this(1)] markup_digits [OF this(2)]
  moreover have "markup ''.'' = []" by (simp add: markup_def)
  ultimately show ?thesis by (simp only: toFixed_def Let_def markup_append append_Nil)
qed

lemma markup_concat: "markup (concat ss) = concat (map markup ss)"
  by (induction ss) (simp_all add: markup_append markup_Nil)

lemmas markup_simps = markup_append markup_Nil markup_esc markup_dec markup_suite_num markup_toFixed markup_concat
  if_distrib [of markup]

subsection \<open>Texts from outside stay texts\<close>

text \<open>What a suite looks like apart from its texts: its place in the table, its counts, and the verdicts of its tests.\<close>

definition test_shape :: "test_result \<Rightarrow> bool \<times> bool" where
  "test_shape t = (te_passed t, 0 < te_duration t)"

definition suite_shape :: "suite_result \<Rightarrow> suite_meta \<times> nat \<times> nat \<times> bool \<times> (bool \<times> bool) list" where
  "suite_shape s = (meta_of s, su_pass s, su_fail s, 0 < su_duration s, map test_shape (su_tests s))"

lemma markup_row: "test_shape t = test_shape t' \<Longrightarrow> markup (test_row t) = markup (test_row t')"
  by (simp only: test_shape_def test_row_def markup_simps prod.inject)

lemma markup_rows:
  assumes "suite_shape s = suite_shape s'"
  shows "map markup (test_rows s) = map markup (test_rows s')"
proof -
  have l: "map test_shape (su_tests s) = map test_shape (su_tests s')" "su_pass s = su_pass s'" "su_fail s = su_fail s'"
    using assms by (simp_all add: suite_shape_def)
  have r: "map test_shape ts = map test_shape ts' \<Longrightarrow> map (\<lambda>t. markup (test_row t)) ts = map (\<lambda>t. markup (test_row t)) ts'" for ts ts'
  proof (induction ts arbitrary: ts')
    case (Cons t ts)
    then obtain u us where "ts' = u # us" "test_shape t = test_shape u" "map test_shape ts = map test_shape us" by (cases ts') auto
    with Cons.IH markup_row [of t u] show ?case by simp
  qed simp
  have "(su_tests s = []) = (su_tests s' = [])" using l(1) by (metis Nil_is_map_conv)
  with r [OF l(1)] l(2,3) show ?thesis by (simp add: test_rows_def comp_def)
qed

lemma markup_section:
  assumes "suite_shape s = suite_shape s'"
  shows "markup (suite_section i s) = markup (suite_section i s')"
proof -
  have "meta_of s = meta_of s'" "su_fail s = su_fail s'" "(0 < su_duration s) = (0 < su_duration s')"
    using assms by (simp_all add: suite_shape_def)
  moreover from this have "markup (section_body s m) = markup (section_body s' m)" for m
    using markup_rows [OF assms] by (simp only: section_body_def summary_bar_def markup_simps)
  ultimately show ?thesis by (simp only: suite_section_def Let_def markup_simps)
qed

lemma markup_phases:
  assumes "map suite_shape ss = map suite_shape ss'"
  shows "concat (map (\<lambda>(i, s). markup (suite_section i s)) (enumerate n ss)) = concat (map (\<lambda>(i, s). markup (suite_section i s)) (enumerate n ss'))"
  using assms
proof (induction ss arbitrary: n ss')
  case (Cons s ss)
  then obtain u us where "ss' = u # us" "suite_shape s = suite_shape u" "map suite_shape ss = map suite_shape us" by (cases ss') auto
  with Cons.IH [of us "Suc n"] markup_section [of s u n] show ?case by simp
qed simp

lemma markup_lifecycle: "markup (lifecycle d) = markup (lifecycle d')"
  by (simp only: lifecycle_def lifecycleItems_def enumerate_simps list.map concat.simps prod.case markup_simps)

text \<open>No name, description, file name or time stamp of the results can add markup to the report: the angle brackets and quotes
  of the page depend only on the shape of the results.\<close>

lemma report_no_injection:
  assumes "map suite_shape (rd_suites d) = map suite_shape (rd_suites d')" "allPass d = allPass d'"
  shows "markup (generateHTML css d) = markup (generateHTML css d')"
proof -
  have "markup (phases d) = markup (phases d')"
    using markup_phases [OF assms(1), of 0] by (simp add: phases_def markup_concat comp_def split_def)
  moreover have "markup (banner d) = markup (banner d')"
    by (simp only: banner_def markup_simps assms(2))
  ultimately show ?thesis
    by (simp only: generateHTML_def markup_simps markup_lifecycle [of d d'] assms(2))
qed

lemma report_no_injection_witness:
  "let s = \<lparr>su_name = ''a'', su_filter = ''b'', su_desc = [], su_pass = 1, su_fail = 0, su_total = 1, su_duration = 0,
       su_tests = [\<lparr>te_name = ''<script>'', te_passed = True, te_duration = 0\<rparr>]\<rparr>;
       d = \<lparr>rd_suites = [s], rd_totalPass = 1, rd_totalFail = 0, rd_totalTests = 1, rd_ts = []\<rparr>;
       d' = d\<lparr>rd_suites := [s\<lparr>su_tests := [\<lparr>te_name = [], te_passed = True, te_duration = 0\<rparr>]\<rparr>]\<rparr>
   in markup (generateHTML [] d) = markup (generateHTML [] d')"
  unfolding Let_def by (rule report_no_injection) (simp_all add: suite_shape_def test_shape_def meta_of_def allPass_def split: option.split)

subsection \<open>What the figures say\<close>

text \<open>A suite has a row for each of its tests, or as many as were counted.\<close>

lemma report_rows:
  "length (test_rows s) = (if su_tests s = [] then su_pass s + su_fail s else length (su_tests s))"
  by (simp add: test_rows_def)

text \<open>The progress bar is rounded: it is full from 99.5 per cent on, whatever failed.\<close>

lemma passRate_bounds:
  assumes "rd_totalPass d \<le> rd_totalTests d" "0 < rd_totalTests d"
  shows "passRate d \<le> 100 \<and> (passRate d = 100 \<longleftrightarrow> 199 * rd_totalTests d \<le> 200 * rd_totalPass d)"
proof -
  let ?x = "real (rd_totalPass d) / real (rd_totalTests d) * 100"
  have x: "0 \<le> ?x" "?x \<le> 100" using assms by (simp_all add: field_simps)
  then have "nat \<lfloor>?x + 1 / 2\<rfloor> \<le> 100" by linarith
  moreover have "nat \<lfloor>?x + 1 / 2\<rfloor> = 100 \<longleftrightarrow> 99.5 \<le> ?x" using x by linarith
  moreover have "99.5 \<le> ?x \<longleftrightarrow> 199 * rd_totalTests d \<le> 200 * rd_totalPass d"
  proof -
    have "99.5 \<le> ?x \<longleftrightarrow> 199 * real (rd_totalTests d) \<le> 200 * real (rd_totalPass d)" using assms(2) by (simp add: field_simps)
    also have "\<dots> \<longleftrightarrow> 199 * rd_totalTests d \<le> 200 * rd_totalPass d"
      by (metis (mono_tags, opaque_lifting) of_nat_le_iff of_nat_mult of_nat_numeral)
    finally show ?thesis .
  qed
  ultimately show ?thesis using assms(2) by (simp add: passRate_def js_round_def)
qed

text \<open>A suite that never ran counts no failures: when nothing was run, or the totals are missing from the file, the report says
  that everything passed.\<close>

lemma nothing_failed:
  "rf_totalFail f = None \<Longrightarrow> allPass (report_data_of f)"
  "su_fail s = 0 \<Longrightarrow> su_duration s = 0 \<Longrightarrow> summary_bar s = ''<div class=\"suite-summary pass\"><span>'' @ dec (su_pass s) @ ''/'' @ dec (su_total s) @ '' passed</span></div>''"
  by (simp_all add: allPass_def report_data_of_def default_def summary_bar_def)

text \<open>The exit code is 0 exactly if the results were read and both pages written; the second page may be missing when the first is
  not.\<close>

lemma report_written:
  assumes "results s = (Inr f, s1)"
  shows "report_main css True results write s = (case write ''unit-test-report.html'' (generateHTML css (report_data_of f)) s1 of
      (Inl _, s2) \<Rightarrow> (Inr 1, s2)
    | (Inr _, s2) \<Rightarrow> (case write ''docs/unit-test-report.html'' (generateHTML css (report_data_of f)) s2 of
        (Inl _, s3) \<Rightarrow> (Inr 1, s3) | (Inr _, s3) \<Rightarrow> (Inr 0, s3)))"
  by (auto simp: report_main_def tryA_def bindA_def assms ret_def Let_def split: sum.split prod.split)

end
