(* ===== verification/Site.thy ===== *)
theory Site
  imports Prelude Complex_Main
begin

text \<open>
  \<^verbatim>\<open>docs/js/main.js\<close>: the behaviour of the documentation pages, as what the handlers do to the classes and texts of the
  elements.  Elements are numbers, element ids strings; what the browser reports (scrolling, intersections, clicks, the
  clock at each frame) comes as an argument.  The floating particles, which are random decoration, are left out.
\<close>

subsection \<open>Navigation bar\<close>

definition nav_scrolled :: "real \<Rightarrow> bool" where
  "nav_scrolled scrollY \<longleftrightarrow> 60 < scrollY"

datatype mobile_event = ToggleMenu | FollowLink

fun mobile_step :: "bool \<Rightarrow> mobile_event \<Rightarrow> bool" where
  "mobile_step is_open ToggleMenu = (\<not> is_open)"
| "mobile_step is_open FollowLink = False"

text \<open>Whether a click is taken over: it must be on a link to an element of the page.\<close>

definition smooth_scroll :: "string option \<Rightarrow> (string \<Rightarrow> nat option) \<Rightarrow> nat option" where
  "smooth_scroll link query = (case link of None \<Rightarrow> None | Some href \<Rightarrow> query href)"

subsection \<open>Elements that come into view\<close>

text \<open>The observed elements, and what was started for them in order; an entry names an element and tells whether it
  intersects.\<close>

record observer =
  ob_observed :: "nat list"
  ob_started :: "nat list"

definition observe_all :: "nat list \<Rightarrow> observer" where
  "observe_all els = \<lparr>ob_observed = els, ob_started = []\<rparr>"

fun on_entry :: "observer \<Rightarrow> nat \<times> bool \<Rightarrow> observer" where
  "on_entry ob (el, intersecting) = (if intersecting
     then \<lparr>ob_observed = filter (\<lambda>e. e \<noteq> el) (ob_observed ob), ob_started = ob_started ob @ [el]\<rparr> else ob)"

definition on_entries :: "observer \<Rightarrow> (nat \<times> bool) list \<Rightarrow> observer" where
  "on_entries ob entries = foldl on_entry ob entries"

text \<open>The browser only reports elements that are observed when the report is made, each once.\<close>

definition reported :: "observer \<Rightarrow> (nat \<times> bool) list \<Rightarrow> bool" where
  "reported ob entries \<longleftrightarrow> distinct (map fst entries) \<and> set (map fst entries) \<subseteq> set (ob_observed ob)"

fun observed :: "observer \<Rightarrow> (nat \<times> bool) list list \<Rightarrow> observer option" where
  "observed ob [] = Some ob"
| "observed ob (es # ess) = (if reported ob es then observed (on_entries ob es) ess else None)"

subsection \<open>Tabs\<close>

text \<open>A tab names the element it shows; \<open>tb_ids\<close> are the ids of the page, \<open>tb_contents\<close> those of the contents, and
  the state has the tabs and the elements that are active.\<close>

record tab_page =
  tb_targets :: "string list"
  tb_contents :: "string list"
  tb_ids :: "string list"

record tab_state =
  tb_active_tabs :: "nat list"
  tb_active :: "string list"

definition click_tab :: "tab_page \<Rightarrow> tab_state \<Rightarrow> nat \<Rightarrow> tab_state" where
  "click_tab p s t = (let target = tb_targets p ! t; rest = filter (\<lambda>e. e \<notin> set (tb_contents p)) (tb_active s) in
     \<lparr>tb_active_tabs = [t], tb_active = (if target \<in> set (tb_ids p) \<and> target \<notin> set rest then rest @ [target] else rest)\<rparr>)"

subsection \<open>Counters\<close>

definition progress :: "nat \<Rightarrow> real" where
  "progress t = min (real t / 2000) 1"

definition eased :: "nat \<Rightarrow> real" where
  "eased t = 1 - (1 - progress t) ^ 3"

definition counter_value :: "nat \<Rightarrow> nat \<Rightarrow> nat" where
  "counter_value target t = nat \<lfloor>eased t * real target\<rfloor>"

text \<open>The values a counter shows, given the time that has passed at each frame; it asks for another frame until its time is
  over.\<close>

fun animate :: "nat \<Rightarrow> nat list \<Rightarrow> nat list" where
  "animate target [] = []"
| "animate target (t # ts) = counter_value target t # (if progress t < 1 then animate target ts else [])"

definition counter_text :: "string \<Rightarrow> nat \<Rightarrow> string" where
  "counter_text ending v = dec v @ ending"

subsection \<open>Properties\<close>

text \<open>Every element is started at most once, and only if it was to be observed.\<close>

lemma on_entries_run:
  "distinct (map fst es) \<Longrightarrow> on_entries ob es = \<lparr>ob_observed = filter (\<lambda>e. e \<notin> set (map fst (filter snd es))) (ob_observed ob),
     ob_started = ob_started ob @ map fst (filter snd es)\<rparr>"
proof (induction es arbitrary: ob)
  case (Cons x es)
  then have IH: "on_entries (on_entry ob x) es = \<lparr>ob_observed = filter (\<lambda>e. e \<notin> set (map fst (filter snd es))) (ob_observed (on_entry ob x)),
     ob_started = ob_started (on_entry ob x) @ map fst (filter snd es)\<rparr>" by simp
  obtain e b where x: "x = (e, b)" by (cases x)
  have "on_entries ob (x # es) = on_entries (on_entry ob x) es" by (simp add: on_entries_def)
  with IH show ?case by (cases b) (simp_all add: x cong: filter_cong)
qed (simp add: on_entries_def)

definition observer_ok :: "nat list \<Rightarrow> observer \<Rightarrow> bool" where
  "observer_ok els ob \<longleftrightarrow> distinct (ob_started ob) \<and> set (ob_started ob) \<inter> set (ob_observed ob) = {} \<and>
     set (ob_started ob) \<union> set (ob_observed ob) = set els"

lemma observer_ok_entries: "observer_ok els ob \<Longrightarrow> reported ob es \<Longrightarrow> observer_ok els (on_entries ob es)"
proof -
  assume ok: "observer_ok els ob" and r: "reported ob es"
  have d: "distinct (map fst (filter snd es))" using r by (simp add: reported_def distinct_map_filter)
  have s: "set (map fst (filter snd es)) \<subseteq> set (ob_observed ob)" using r by (auto simp: reported_def)
  show ?thesis
    using ok d s r unfolding observer_ok_def by (subst (1 2 3 4 5) on_entries_run; auto simp: reported_def)
qed

lemma started_once:
  assumes "observed (observe_all els) ess = Some ob"
  shows "distinct (ob_started ob) \<and> set (ob_started ob) \<subseteq> set els \<and> set (ob_observed ob) = set els - set (ob_started ob)"
proof -
  have "observer_ok els ob0 \<Longrightarrow> observed ob0 ess = Some ob \<Longrightarrow> observer_ok els ob" for ob0
    by (induction ess arbitrary: ob0) (auto split: if_splits intro: observer_ok_entries)
  moreover have "observer_ok els (observe_all els)" by (simp add: observer_ok_def observe_all_def)
  ultimately show ?thesis using assms by (auto simp: observer_ok_def)
qed

text \<open>When every tab shows one of the contents, exactly the last tab that was clicked and its content are active.\<close>

lemma last_tab_active:
  assumes "set (tb_targets p) \<subseteq> set (tb_contents p) \<inter> set (tb_ids p)" "set (tb_active s) \<subseteq> set (tb_contents p)" "t < length (tb_targets p)"
    and "list_all (\<lambda>u. u < length (tb_targets p)) clicks"
  shows "foldl (click_tab p) s (clicks @ [t]) = \<lparr>tb_active_tabs = [t], tb_active = [tb_targets p ! t]\<rparr>"
proof -
  have "set (tb_active s) \<subseteq> set (tb_contents p) \<Longrightarrow> list_all (\<lambda>u. u < length (tb_targets p)) us \<Longrightarrow>
      set (tb_active (foldl (click_tab p) s us)) \<subseteq> set (tb_contents p)" for us s
  proof (induction us arbitrary: s)
    case (Cons u us)
    have "tb_targets p ! u \<in> set (tb_contents p)" using assms(1) Cons.prems(2) by (auto dest: nth_mem)
    then have "set (tb_active (click_tab p s u)) \<subseteq> set (tb_contents p)" using Cons.prems(1) by (auto simp: click_tab_def Let_def)
    with Cons show ?case by simp
  qed simp
  from this [OF assms(2,4)] have "filter (\<lambda>e. e \<notin> set (tb_contents p)) (tb_active (foldl (click_tab p) s clicks)) = []"
    by (auto simp: filter_empty_conv)
  moreover have "tb_targets p ! t \<in> set (tb_ids p)" using assms(1,3) by (auto dest: nth_mem)
  ultimately show ?thesis by (simp add: click_tab_def)
qed

text \<open>A counter never falls, never exceeds its target, and shows the target at its last frame.\<close>

lemma progress_bounds: "0 \<le> progress t \<and> progress t \<le> 1"
  by (simp add: progress_def)

lemma eased_mono: "t \<le> u \<Longrightarrow> eased t \<le> eased u"
proof -
  assume "t \<le> u"
  then have "progress t \<le> progress u" by (auto simp: progress_def min_def)
  then have "(1 - progress u) ^ 3 \<le> (1 - progress t) ^ 3" using progress_bounds [of u] by (intro power_mono) auto
  then show ?thesis by (simp add: eased_def)
qed

lemma eased_bounds: "0 \<le> eased t \<and> eased t \<le> 1"
  using progress_bounds [of t] by (simp add: eased_def power_le_one)

lemma counter_mono: "t \<le> u \<Longrightarrow> counter_value target t \<le> counter_value target u"
  unfolding counter_value_def by (intro nat_mono floor_mono mult_right_mono eased_mono) auto

lemma counter_le: "counter_value target t \<le> target"
proof -
  have "eased t * real target \<le> real target" using eased_bounds [of t] by (simp add: mult_left_le_one_le)
  then show ?thesis unfolding counter_value_def by linarith
qed

lemma counter_end: "2000 \<le> t \<Longrightarrow> counter_value target t = target"
  by (simp add: counter_value_def eased_def progress_def)

lemma animate_take: "\<exists>k \<le> length ts. animate target ts = map (counter_value target) (take k ts) \<and>
    (list_ex (\<lambda>t. 2000 \<le> t) ts \<longrightarrow> 0 < k \<and> 2000 \<le> ts ! (k - 1))"
proof (induction ts)
  case (Cons t ts)
  then obtain k where k: "k \<le> length ts" "animate target ts = map (counter_value target) (take k ts)"
    "list_ex (\<lambda>t. 2000 \<le> t) ts \<longrightarrow> 0 < k \<and> 2000 \<le> ts ! (k - 1)" by blast
  have p: "progress t < 1 \<longleftrightarrow> t < 2000" by (simp add: progress_def min_def)
  show ?case
  proof (cases "t < 2000")
    case True
    with k p show ?thesis by (intro exI [of _ "Suc k"]) auto
  next
    case False
    with p show ?thesis by (intro exI [of _ 1]) auto
  qed
qed simp

lemma counter_shows_target:
  assumes "sorted ts" "list_ex (\<lambda>t. 2000 \<le> t) ts"
  shows "sorted (animate target ts) \<and> animate target ts \<noteq> [] \<and> last (animate target ts) = target \<and> (\<forall>v \<in> set (animate target ts). v \<le> target)"
proof -
  obtain k where k: "k \<le> length ts" "animate target ts = map (counter_value target) (take k ts)" "0 < k" "2000 \<le> ts ! (k - 1)"
    using animate_take [of ts target] assms(2) by blast
  have "sorted (map (counter_value target) (take k ts))"
    using sorted_wrt_take [OF assms(1)] by (auto simp: sorted_wrt_map intro: sorted_wrt_mono_rel [rotated] counter_mono)
  moreover have "take k ts \<noteq> []" "last (take k ts) = ts ! (k - 1)" using k(1,3) by (cases k; auto simp: take_Suc_conv_app_nth)+
  ultimately show ?thesis using k counter_le by (auto simp: last_map counter_end)
qed

end
