(* ===== verification/Spec2Isabelle.thy ===== *)
theory Spec2Isabelle
  imports Merkle SynapticField Crypto AgentServer Compositor Workers Sleeve Demo Events Clients Bootstrap Deployed SwapRate ShardProof Cortex
    Discord Report Site
begin

text \<open>
  ECCA is a set of TypeScript services around three chains: stacks (identities) own sleeves (embodiments) that
  perceive, remember and synchronise, and pay for it with bandwidth tokens.  This library models the
  services and the packages they are made of, one theory per component, and proves what makes each of them
  correct.  Everything is executable HOL; code outside the repository is a parameter.

  \<^bold>\<open>Theories and sources.\<close>

  \<^item> \<^verbatim>\<open>Prelude\<close>: bytes, hexadecimal, decimal and UTF-8 of the JavaScript library, results with errors.
  \<^item> \<^verbatim>\<open>Noble\<close>: the @noble packages as a record of functions, and what their documentation promises.
  \<^item> \<^verbatim>\<open>Merkle\<close>, \<^verbatim>\<open>SynapticField\<close>, \<^verbatim>\<open>Crypto\<close>: \<^verbatim>\<open>packages/crypto/src/index.ts\<close>, that is the Merkle tree with its
    proofs, the accumulator of coherence roots, and content ids, epoch keys, encryption, signatures and the
    coherence root.
  \<^item> \<^verbatim>\<open>JsString\<close>, \<^verbatim>\<open>Grammar\<close>, \<^verbatim>\<open>Address\<close>, \<^verbatim>\<open>Book\<close>: \<^verbatim>\<open>packages/semantic-address/src\<close>, that is string functions and
    regular expressions, \<^verbatim>\<open>grammar.ts\<close>, \<^verbatim>\<open>address.ts\<close> with \<^verbatim>\<open>derive.ts\<close>, and \<^verbatim>\<open>book.ts\<close>.
  \<^item> \<^verbatim>\<open>MemoryStore\<close>, \<^verbatim>\<open>Agent\<close>, \<^verbatim>\<open>Inference\<close>, \<^verbatim>\<open>AgentServer\<close>: \<^verbatim>\<open>services/agent-runtime/src\<close>, that is the cached
    memory service, the agent loop, the client of the language models, and the HTTP server around them.
  \<^item> \<^verbatim>\<open>Tokens\<close>: \<^verbatim>\<open>packages/proto/src/tokens.ts\<close>.
  \<^item> \<^verbatim>\<open>Service\<close>: actions with exceptions, the rows of the registry, the outside world (database, bus,
    hippocampus), backward rules for actions, the registry invariant, and the interface \<open>service\<close>.
  \<^item> \<^verbatim>\<open>Siyana\<close>, \<^verbatim>\<open>Needlecast\<close>, \<^verbatim>\<open>Faucet\<close>, \<^verbatim>\<open>Treasury\<close>, \<^verbatim>\<open>Compositor\<close>, \<^verbatim>\<open>Thalamus\<close>: the servers of \<^verbatim>\<open>services/siyana-api\<close>,
    \<^verbatim>\<open>needlecast-router-svc\<close>, \<^verbatim>\<open>bandwidth-faucet\<close>, \<^verbatim>\<open>quellist-treasury-svc\<close>, \<^verbatim>\<open>dhf-compositor\<close> and \<^verbatim>\<open>thalamus-router\<close>.
  \<^item> \<^verbatim>\<open>Gateway\<close>: what the gateway does besides the registry, that is requests it passes on, the listing of residues and
    the fan-out of the bus to its WebSocket clients; and requests between services, which may get lost.
  \<^item> \<^verbatim>\<open>Sleeve\<close>: \<^verbatim>\<open>services/sleeve-runtime/src/server.ts\<close>, the process of one sleeve, over the gateway of \<^verbatim>\<open>Siyana\<close>.
  \<^item> \<^verbatim>\<open>Demo\<close>: \<^verbatim>\<open>scripts/demo.ts\<close>, the demonstration script, over the gateway and the needlecast router.
  \<^item> \<^verbatim>\<open>Bus\<close>, \<^verbatim>\<open>Events\<close>: \<^verbatim>\<open>packages/proto/src/events.ts\<close> and \<^verbatim>\<open>packages/bus/src/index.ts\<close>, subjects and consumers,
    and the schemas of the events.
  \<^item> \<^verbatim>\<open>Bootstrap\<close>: the connection to the bus (\<^verbatim>\<open>packages/bus/src/index.ts\<close>), \<^verbatim>\<open>packages/service-base/src/index.ts\<close>,
    \<^verbatim>\<open>packages/db/src/index.ts\<close>, and the start of the agent runtime with or without a bus.
  \<^item> \<^verbatim>\<open>Clients\<close>: \<^verbatim>\<open>packages/chain/src/hippocampus.ts\<close> and \<^verbatim>\<open>medulla.ts\<close>, the HTTP clients of the nodes.
  \<^item> \<^verbatim>\<open>Workers\<close>: \<^verbatim>\<open>workers/runner/src/server.ts\<close>.
  \<^item> \<^verbatim>\<open>Evm\<close>, \<^verbatim>\<open>ContractState\<close>: transactions that may revert, Solidity's checked arithmetic, the base contracts as the
    parameter \<open>oz\<close>, and the storage of the contracts of \<^verbatim>\<open>contracts/src\<close>, one record each.
  \<^item> \<^verbatim>\<open>TokenContracts\<close>, \<^verbatim>\<open>RegistryContracts\<close>, \<^verbatim>\<open>MarketContracts\<close>, \<^verbatim>\<open>GameContract\<close>: the functions of the contracts, that is
    identities, bandwidth tokens and treasury; sleeve, residue and anchor registries with the needlecast router;
    swap and oracle; the tripartite game.
  \<^item> \<^verbatim>\<open>ChainSystem\<close>, \<^verbatim>\<open>ChainInvariants\<close>: the contracts on one chain, their histories and invariants.
  \<^item> \<^verbatim>\<open>SwapRate\<close>, \<^verbatim>\<open>ShardProof\<close>: the rate curve of the swap, and the contract's inclusion check against the roots
    of the thalamus router.
  \<^item> \<^verbatim>\<open>Cortex\<close>: \<^verbatim>\<open>packages/chain/src/cortex.ts\<close>, the interfaces of the contracts as the services see them, against what
    the contracts offer.
  \<^item> \<^verbatim>\<open>Deploy\<close>, \<^verbatim>\<open>Deployed\<close>: \<^verbatim>\<open>contracts/scripts/deploy.ts\<close> and the system it leaves behind.
  \<^item> \<^verbatim>\<open>Discord\<close>, \<^verbatim>\<open>Report\<close>, \<^verbatim>\<open>Site\<close>: \<^verbatim>\<open>scripts/create-discord-channels.js\<close> and \<^verbatim>\<open>create-discord-threads.js\<close>,
    \<^verbatim>\<open>scripts/generate-test-report.js\<close>, and the handlers of \<^verbatim>\<open>docs/js/main.js\<close>.
  \<^item> This theory: all services on one registry.

  \<^bold>\<open>How the services interact.\<close>  They share the registry (the rows \<open>stack\<close>, \<open>sleeve\<close>, \<open>audit\<close>, \<open>residue\<close>, \<open>epoch_row\<close>)
  and the bus.  A handler is an action: it takes the state of the world and returns its reply or its
  exception and the new state.  The world is a parameter \<open>ext\<close>, of which only the rows and the published
  events can be seen; \<open>ext_ok\<close> says that a call either fails without visible effect or has exactly its
  documented effect, so every theorem about a handler covers every pattern of failing calls.  \<open>safe X m Q E v\<close>
  is the total triple over all such worlds: from a world that looks like \<open>v\<close>, a normal end satisfies \<open>Q\<close> and
  an exception \<open>E\<close>.  \<open>table_ext\<close> is the world without faults, in which the theorems that something does happen
  are stated.  A handler runs atomically, except where a theory says otherwise: \<open>Faucet\<close> splits the drip at
  its first await and \<open>Thalamus\<close> interleaves ticks and events in a step relation.

  \<^bold>\<open>The chain.\<close>  The state \<open>evm\<close> maps addresses to contracts.  A function of a contract is a transaction, which returns
  a result and the new state or reverts; calls between contracts are calls of these functions with the
  calling contract as the sender.  \<open>chain_call\<close> has a message for every external function that can change
  storage, and \<open>chain_after\<close> is the state after a history of messages from arbitrary accounts.

  \<^bold>\<open>Interfaces.\<close>  \<open>address_index\<close> (in \<open>Book\<close>) is what the memory store needs of an index of addresses, interpreted
  by the address book; \<open>service\<close> (in \<open>Service\<close>) is a handler that keeps an invariant of the visible world,
  interpreted by every service, the sleeve process included, and used here for their composition;
  \<open>chain_invariant\<close> (in \<open>ChainSystem\<close>) is a property of the storage that every admitted message keeps,
  interpreted by the ledgers, budgets, caps, anchors, resumed agents and settled residues (\<open>ChainInvariants\<close>) and by the rights
  that the deployment withholds (\<open>Deployed\<close>).

  \<^bold>\<open>What the groups of lemmas show.\<close>  Trees: proofs are complete and sound up to explicit collisions, the
  accumulator holds the whole history.  Addresses: layout, neighbourhoods, exact queries, the distance.
  Memory and agents: storing is atomic and found again, runs end within their budgets, calls are answered.
  Services: functional effect on every branch, what failures leave behind, conservation of tokens, rate
  limits, idempotence under redelivery, and the registry invariant over all of them.  Sleeves: what a timer
  can spend and where it leads.  Language models: both providers are read alike, and what the agent makes of
  their answers.  Clients and events: the client keeps what the services rely on, and which published events
  match their schemas.  The demonstration: where it stops and what it would show.  Bootstrap: the bus connects
  once, and a service that lost it does not notice.  Contracts: balances add up, budgets and caps hold, anchors are ordered; what the
  deployment script builds, which rights it forgets and which it gives to everybody.  Scripts and pages: what the
  Discord scripts leave behind when a request fails, that the texts in a test report stay texts, and what the
  counters, tabs and observers of the pages show.

  \<^bold>\<open>Bounds.\<close>  Loops are structural recursions or have a termination proof; no fuel is used.  The accumulator is
  modelled for sizes below \<open>2 ^ 32\<close>, where the shift of the code agrees with the model.  Strings
  are sequences of code units below 256, or UTF-8 bytes in \<open>Discord\<close> and \<open>Report\<close>.  Token amounts and drifts are real numbers: the doubles of the code
  round, the model does not.

  \<^bold>\<open>Not modelled.\<close>  The inner workings of Fastify, Prisma, NATS, undici and viem, time stamps of rows and events, events and fees of the contracts and callbacks of the receivers of
  identities, the construction of viem clients, the Go nodes, the style sheet of the test report, the random
  particles of the documentation site, and the Discord bot, which is a Python program.
\<close>

subsection \<open>All services on one registry\<close>

text \<open>
  The requests, events and timer rounds of all services that share the registry.  Each constructor names
  what the service reads from its process besides the request.
\<close>

datatype system_request =
    ToSiyana string siyana_request
  | ToNeedlecast "nat \<times> string \<times> string"
  | ToFaucet nat "nat \<times> last_drips \<times> string"
  | ToTreasury real treasury_request
  | ToCompositor string "string \<times> string option \<times> nat option"
  | ToWorker worker_request
  | ToThalamus bool thalamus
  | ToSleeve string bool sleeve_request

fun serve :: "noble \<Rightarrow> 's chain \<Rightarrow> 's ext \<Rightarrow> system_request \<Rightarrow> ('s, unit) act" where
  "serve lib C X (ToSiyana ms q) = siyana lib ms X q"
| "serve lib C X (ToNeedlecast q) = needlecast_api lib X q"
| "serve lib C X (ToFaucet rate q) = faucet_api rate X q"
| "serve lib C X (ToTreasury e q) = treasury e X q"
| "serve lib C X (ToCompositor ms q) = reconstruct_api lib ms X q"
| "serve lib C X (ToWorker q) = worker lib X q"
| "serve lib C X (ToThalamus onchain t) = bindA (tick X C lib onchain t) (\<lambda>_. ret ())"
| "serve lib C X (ToSleeve ms lax q) = sleeve_runtime lib ms lax X q"

definition serve_all :: "noble \<Rightarrow> 's chain \<Rightarrow> 's ext \<Rightarrow> 's \<Rightarrow> system_request list \<Rightarrow> 's" where
  "serve_all lib C X s qs = foldl (\<lambda>s q. snd (serve lib C X q s)) s qs"

lemma tick_inv:
  assumes "ext_ok X" "chain_ok X C" "reg_inv v"
  shows "safe X (tick X C lib onchain t) (\<lambda>_. reg_inv) reg_inv v"
  unfolding tick_def
proof (rule safe_bind, rule safe_conseq [OF tick_chain_safe [OF assms(1,2), where E = reg_inv]])
  fix out w
  assume "tick_post lib v t (tick_end out t) w"
  then have "reg_inv w" using assms(3) by (auto simp: tick_post_def Let_def)
  then show "safe X (ret (tick_end out t)) (\<lambda>_. reg_inv) reg_inv w" by (rule safe_ret)
qed

lemma serve_safe:
  assumes "ext_ok X" "chain_ok X C" "reg_inv v"
  shows "safe X (serve lib C X q) (\<lambda>_. reg_inv) reg_inv v"
proof (cases q)
  case (ToThalamus onchain t)
  show ?thesis unfolding ToThalamus serve.simps
    by (rule safe_bind, rule safe_conseq [OF tick_inv [OF assms]]) (simp_all add: safe_ret)
qed (simp_all add: siyana_api.keeps needle_api.keeps drip_api.keeps treasury_api.keeps reconstruct_api.keeps
      worker_api.keeps sleeve_api.keeps assms(1,3))

lemma serve_all_inv:
  assumes "ext_ok X" "chain_ok X C"
  shows "reg_inv (x_view X s) \<Longrightarrow> reg_inv (x_view X (serve_all lib C X s qs))"
proof (induction qs arbitrary: s)
  case (Cons q qs)
  have "reg_inv (x_view X (snd (serve lib C X q s)))"
    using serve_safe [OF assms Cons.prems, of lib q]
    by (cases "serve lib C X q s") (auto simp: safe_def split: sum.splits prod.splits)
  then show ?case using Cons.IH by (simp add: serve_all_def)
qed (simp add: serve_all_def)

text \<open>C1: whatever requests reach whichever services, in whatever order, and whichever calls of the database,
  the bus, the hippocampus or the chain fail, the registry stays well formed: ids are unique and agree with
  their keys, every sleeve belongs to an existing stack, no sleeve ever has a negative amount of any token
  and no drift is negative.\<close>

theorem registry_invariant:
  assumes "ext_ok X" "chain_ok X C" "x_view X s = empty_view"
  shows "let v = x_view X (serve_all lib C X s qs) in
    distinct (map fst (vw_stacks v)) \<and> distinct (map fst (vw_sleeves v)) \<and>
    list_all (\<lambda>(k, st). st_id st = k) (vw_stacks v) \<and>
    list_all (\<lambda>(k, sl). sl_id sl = k \<and> map_of (vw_stacks v) (sl_stackId sl) \<noteq> None \<and> 0 \<le> sl_drift sl \<and>
      (\<forall>kd. 0 \<le> tok (sl_tokens sl) kd)) (vw_sleeves v)"
proof -
  define v where "v = x_view X (serve_all lib C X s qs)"
  have r: "reg_inv v" unfolding v_def by (rule serve_all_inv [OF assms(1,2)]) (simp add: assms(3))
  then have d: "distinct (map fst (vw_stacks v))" "distinct (map fst (vw_sleeves v))" by (simp_all add: reg_inv_def)
  have "st_id st = k" if "(k, st) \<in> set (vw_stacks v)" for k st
    using reg_inv_stack [OF r map_of_is_SomeI [OF d(1) that]] .
  moreover have "sl_id sl = k \<and> map_of (vw_stacks v) (sl_stackId sl) \<noteq> None \<and> 0 \<le> sl_drift sl \<and>
      (\<forall>kd. 0 \<le> tok (sl_tokens sl) kd)" if "(k, sl) \<in> set (vw_sleeves v)" for k sl
    using reg_inv_sleeve [OF r map_of_is_SomeI [OF d(2) that]] by (simp add: sleeve_ok_def tokens_ok_def)
  ultimately show ?thesis using d unfolding v_def [symmetric] Let_def by (auto simp: list_all_iff)
qed

theorem registry_invariant_witness:
  "list_all (\<lambda>(k, sl). \<forall>kd. 0 \<le> tok (sl_tokens sl) kd)
     (vw_sleeves (serve_all demo_noble demo_chain demo_ext empty_view
       [ToSiyana ''m'' (PostStack 17 (replicate 32 1) ''ada'' None), ToTreasury 100 (OnEpoch 1),
        ToSiyana ''m'' (PostPerceive (replicate 12 0) ''nobody'' ''rain''), ToThalamus True thalamus_start]))"
proof -
  have v: "x_view demo_ext s = s" for s by (simp add: demo_simps)
  from registry_invariant [OF ext_ok_demo chain_ok_demo, of empty_view demo_noble
      "[ToSiyana ''m'' (PostStack 17 (replicate 32 1) ''ada'' None), ToTreasury 100 (OnEpoch 1),
        ToSiyana ''m'' (PostPerceive (replicate 12 0) ''nobody'' ''rain''), ToThalamus True thalamus_start]"]
  show ?thesis by (simp add: v Let_def list_all_iff case_prod_beta)
qed

end
